(* ===== verification/Phobos_Prelude.thy ===== *)
theory Phobos_Prelude
  imports Main "HOL-Library.Word" "HOL-Library.Sublist"
begin

unbundle bit_operations_syntax

text \<open>
  Vocabulary shared by all the theories: the C types of Phobos as HOL types, the
  unsigned arithmetic of \<open>size_t\<close> with its wrap-around written out, the errno values the
  code returns, bounds-checked access to byte buffers, and the generic lemmas on lists the
  components use.

  A return code is an \<open>int\<close>: 0 on success and a negative errno on failure, as in the code.
  A computation that may touch memory outside its buffer, dereference NULL or fail an
  assertion returns an option; \<open>None\<close> is that undefined or aborting behaviour.
\<close>

named_theorems size_simps \<open>size_t operations on operands that do not wrap\<close>
named_theorems buf_simps \<open>bounds-checked buffer operations inside their bounds\<close>

type_synonym byte = "8 word"
type_synonym size_t = nat
type_synonym rc = int

subsection \<open>Unsigned 64-bit arithmetic\<close>

definition size_max :: nat where
  "size_max = 2 ^ 64"

definition size_add :: "size_t \<Rightarrow> size_t \<Rightarrow> size_t" where
  "size_add a b = (a + b) mod size_max"

definition size_sub :: "size_t \<Rightarrow> size_t \<Rightarrow> size_t" where
  "size_sub a b = (if b \<le> a then a - b else a + size_max - b)"

definition size_mul :: "size_t \<Rightarrow> size_t \<Rightarrow> size_t" where
  "size_mul a b = (a * b) mod size_max"

lemma size_max_pos [simp]: "0 < size_max"
  by (simp add: size_max_def)

lemma size_add_exact [size_simps]: "a + b < size_max \<Longrightarrow> size_add a b = a + b"
  by (simp add: size_add_def)

lemma size_sub_exact [size_simps]: "b \<le> a \<Longrightarrow> size_sub a b = a - b"
  by (simp add: size_sub_def)

lemma size_mul_exact [size_simps]: "a * b < size_max \<Longrightarrow> size_mul a b = a * b"
  by (simp add: size_mul_def)

lemma size_sub_self [simp]: "size_sub a a = 0"
  by (simp add: size_sub_def)

lemma size_sub_0 [simp]: "size_sub a 0 = a"
  by (simp add: size_sub_def)

lemma size_add_less [simp]: "size_add a b < size_max"
  by (simp add: size_add_def)

text \<open>The subtraction is the one of 64-bit words.\<close>

lemma size_sub_word:
  "a < size_max \<Longrightarrow> b < size_max \<Longrightarrow> size_sub a b = unat ((of_nat a :: 64 word) - of_nat b)"
  by (simp add: size_sub_def size_max_def unat_sub_if' unat_of_nat)

text \<open>Conversion of a wider signed value to a 32-bit \<open>int\<close>.\<close>

definition c_int :: "int \<Rightarrow> int" where
  "c_int v = (v + 2 ^ 31) mod 2 ^ 32 - 2 ^ 31"

lemma c_int_exact: "- (2 ^ 31) \<le> v \<Longrightarrow> v < 2 ^ 31 \<Longrightarrow> c_int v = v"
  by (simp add: c_int_def)

subsection \<open>Error codes\<close>

abbreviation (input) "EPERM \<equiv> (1 :: int)"
abbreviation (input) "ENOENT \<equiv> (2 :: int)"
abbreviation (input) "EIO \<equiv> (5 :: int)"
abbreviation (input) "EBADF \<equiv> (9 :: int)"
abbreviation (input) "EAGAIN \<equiv> (11 :: int)"
abbreviation (input) "ENOMEM \<equiv> (12 :: int)"
abbreviation (input) "EACCES \<equiv> (13 :: int)"
abbreviation (input) "EBUSY \<equiv> (16 :: int)"
abbreviation (input) "EEXIST \<equiv> (17 :: int)"
abbreviation (input) "ENODEV \<equiv> (19 :: int)"
abbreviation (input) "EINVAL \<equiv> (22 :: int)"
abbreviation (input) "ENOSPC \<equiv> (28 :: int)"
abbreviation (input) "EROFS \<equiv> (30 :: int)"
abbreviation (input) "ERANGE \<equiv> (34 :: int)"
abbreviation (input) "ENAMETOOLONG \<equiv> (36 :: int)"
abbreviation (input) "ENOLCK \<equiv> (37 :: int)"
abbreviation (input) "ENODATA \<equiv> (61 :: int)"
abbreviation (input) "EPROTO \<equiv> (71 :: int)"
abbreviation (input) "ENOTSUP \<equiv> (95 :: int)"
abbreviation (input) "EADDRNOTAVAIL \<equiv> (99 :: int)"
abbreviation (input) "ECONNRESET \<equiv> (104 :: int)"
abbreviation (input) "ESHUTDOWN \<equiv> (108 :: int)"
abbreviation (input) "EALREADY \<equiv> (114 :: int)"
abbreviation (input) "EDQUOT \<equiv> (122 :: int)"
abbreviation (input) "ENOMEDIUM \<equiv> (123 :: int)"

subsection \<open>Byte buffers\<close>

text \<open>Reading \<open>n\<close> bytes at \<open>off\<close>, and overwriting them; outside the buffer there is no result.\<close>

definition buf_get :: "'a list \<Rightarrow> nat \<Rightarrow> nat \<Rightarrow> 'a list option" where
  "buf_get b off n = (if off + n \<le> length b then Some (take n (drop off b)) else None)"

definition buf_put :: "'a list \<Rightarrow> nat \<Rightarrow> 'a list \<Rightarrow> 'a list option" where
  "buf_put b off xs =
     (if off + length xs \<le> length b
      then Some (take off b @ xs @ drop (off + length xs) b) else None)"

lemma buf_get_in [buf_simps]:
  "off + n \<le> length b \<Longrightarrow> buf_get b off n = Some (take n (drop off b))"
  by (simp add: buf_get_def)

lemma buf_put_in [buf_simps]:
  "off + length xs \<le> length b \<Longrightarrow>
     buf_put b off xs = Some (take off b @ xs @ drop (off + length xs) b)"
  by (simp add: buf_put_def)

lemma buf_put_length: "buf_put b off xs = Some b' \<Longrightarrow> length b' = length b"
  by (auto simp: buf_put_def split: if_splits)

lemma take_drop_overlay:
  "off + length xs \<le> length b \<Longrightarrow>
     take (length xs) (drop off (take off b @ xs @ drop (off + length xs) b)) = xs"
  by simp

subsection \<open>Lists\<close>

lemma take_add_drop: "take n (drop m xs) @ take k (drop (m + n) xs) = take (n + k) (drop m xs)"
  by (simp only: take_add [of n k] drop_drop add.commute [of n m])

lemma take_append_take_drop: "take m xs @ take n (drop m xs) = take (m + n) xs"
  by (simp add: take_add)

end
