(* ===== verification/Pho_Types.thy ===== *)
theory Pho_Types
  imports Phobos_Prelude
begin

text \<open>
  The enumerations of \<^verbatim>\<open>src/include/pho_types.h\<close> with their conversions to and from strings,
  and resource identifiers.

  Every enumeration of the header comes with an array of names, a \<open>..2str\<close> function that
  indexes the array after a range check and a \<open>str2..\<close> function that scans it. The array is
  an association list here, in the order of the C array, the scan is \<open>enum_find\<close>. What the
  callers rely on is stated once, in the locales \<open>enum_names\<close> and \<open>enum_names_full\<close>, and
  every enumeration is an interpretation of one of them.
\<close>

subsection \<open>Scanning an array of names\<close>

fun enum_find :: "('e \<times> string) list \<Rightarrow> 'e \<Rightarrow> string \<Rightarrow> 'e" where
  "enum_find [] inval str = inval"
| "enum_find ((e, name) # rest) inval str =
     (if str = name then e else enum_find rest inval str)"

lemma enum_find_in: "enum_find tab inval str \<noteq> inval \<Longrightarrow> (enum_find tab inval str, str) \<in> set tab"
  by (induction tab inval str rule: enum_find.induct) (auto split: if_splits)

lemma enum_find_hit:
  "distinct (map snd tab) \<Longrightarrow> (e, str) \<in> set tab \<Longrightarrow> enum_find tab inval str = e"
  by (induction tab inval str rule: enum_find.induct) (auto simp: image_iff)

locale enum_names =
  fixes names :: "('e \<times> string) list"
    and inval :: 'e
    and to_str :: "'e \<Rightarrow> string option"
  assumes names_distinct: "distinct (map snd names)"
    and inval_unnamed: "inval \<notin> fst ` set names"
    and to_str_named: "(e, s) \<in> set names \<Longrightarrow> to_str e = Some s"
begin

lemma parse_print: "enum_find names inval s \<noteq> inval \<Longrightarrow> to_str (enum_find names inval s) = Some s"
  by (rule to_str_named) (rule enum_find_in)

lemma parse_inval_iff: "enum_find names inval s = inval \<longleftrightarrow> s \<notin> snd ` set names"
proof
  assume *: "enum_find names inval s = inval"
  show "s \<notin> snd ` set names"
  proof
    assume "s \<in> snd ` set names"
    then obtain e where e: "(e, s) \<in> set names" by auto
    with names_distinct have "enum_find names inval s = e"
      by (rule enum_find_hit)
    with * e inval_unnamed show False by force
  qed
next
  assume "s \<notin> snd ` set names"
  then show "enum_find names inval s = inval"
    using enum_find_in [of names inval s] by force
qed

end

text \<open>When only the named values print, printing then parsing gives the value back too.\<close>

locale enum_names_full = enum_names +
  assumes to_str_only: "to_str e = Some s \<Longrightarrow> (e, s) \<in> set names"
begin

lemma print_parse: "to_str e = Some s \<Longrightarrow> enum_find names inval s = e"
  using names_distinct to_str_only by (blast intro: enum_find_hit)

lemma print_iff: "to_str e = Some s \<longleftrightarrow> enum_find names inval s = e \<and> e \<noteq> inval"
  using parse_print print_parse to_str_only inval_unnamed by force

lemma inval_prints_null: "to_str inval = None"
  using to_str_only inval_unnamed by (cases "to_str inval") force+

end

subsection \<open>The enumerations\<close>

datatype extent_state = PHO_EXT_ST_INVAL | PHO_EXT_ST_PENDING | PHO_EXT_ST_SYNC | PHO_EXT_ST_ORPHAN | PHO_EXT_ST_LAST

definition extent_state_names :: "(extent_state \<times> string) list" where
  "extent_state_names =
     [(PHO_EXT_ST_PENDING, ''pending''),
      (PHO_EXT_ST_SYNC, ''sync''),
      (PHO_EXT_ST_ORPHAN, ''orphan'')]"

definition extent_state2str :: "extent_state \<Rightarrow> string option" where
  "extent_state2str st =
     (if st = PHO_EXT_ST_LAST \<or> st = PHO_EXT_ST_INVAL then None else map_of extent_state_names st)"

definition str2extent_state :: "string \<Rightarrow> extent_state" where
  "str2extent_state str = enum_find extent_state_names PHO_EXT_ST_INVAL str"

datatype lib_type = PHO_LIB_INVAL | PHO_LIB_DUMMY | PHO_LIB_SCSI | PHO_LIB_RADOS | PHO_LIB_LAST

definition lib_type_names :: "(lib_type \<times> string) list" where
  "lib_type_names =
     [(PHO_LIB_DUMMY, ''DUMMY''),
      (PHO_LIB_SCSI, ''SCSI''),
      (PHO_LIB_RADOS, ''RADOS'')]"

definition lib_type2str :: "lib_type \<Rightarrow> string option" where
  "lib_type2str st =
     (if st = PHO_LIB_LAST \<or> st = PHO_LIB_INVAL then None else map_of lib_type_names st)"

definition str2lib_type :: "string \<Rightarrow> lib_type" where
  "str2lib_type str = enum_find lib_type_names PHO_LIB_INVAL str"

datatype fs_type = PHO_FS_INVAL | PHO_FS_POSIX | PHO_FS_LTFS | PHO_FS_RADOS | PHO_FS_LAST

definition fs_type_names :: "(fs_type \<times> string) list" where
  "fs_type_names =
     [(PHO_FS_POSIX, ''POSIX''),
      (PHO_FS_LTFS, ''LTFS''),
      (PHO_FS_RADOS, ''RADOS'')]"

definition fs_type2str :: "fs_type \<Rightarrow> string option" where
  "fs_type2str st =
     (if st = PHO_FS_LAST \<or> st = PHO_FS_INVAL then None else map_of fs_type_names st)"

definition str2fs_type :: "string \<Rightarrow> fs_type" where
  "str2fs_type str = enum_find fs_type_names PHO_FS_INVAL str"

datatype fs_status = PHO_FS_STATUS_INVAL | PHO_FS_STATUS_BLANK | PHO_FS_STATUS_EMPTY | PHO_FS_STATUS_USED | PHO_FS_STATUS_FULL | PHO_FS_STATUS_IMPORTING | PHO_FS_STATUS_LAST

definition fs_status_names :: "(fs_status \<times> string) list" where
  "fs_status_names =
     [(PHO_FS_STATUS_BLANK, ''blank''),
      (PHO_FS_STATUS_EMPTY, ''empty''),
      (PHO_FS_STATUS_USED, ''used''),
      (PHO_FS_STATUS_FULL, ''full''),
      (PHO_FS_STATUS_IMPORTING, ''importing'')]"

definition fs_status2str :: "fs_status \<Rightarrow> string option" where
  "fs_status2str st =
     (if st = PHO_FS_STATUS_LAST \<or> st = PHO_FS_STATUS_INVAL then None else map_of fs_status_names st)"

definition str2fs_status :: "string \<Rightarrow> fs_status" where
  "str2fs_status str = enum_find fs_status_names PHO_FS_STATUS_INVAL str"

datatype address_type = PHO_ADDR_INVAL | PHO_ADDR_PATH | PHO_ADDR_HASH1 | PHO_ADDR_OPAQUE | PHO_ADDR_LAST

definition address_type_names :: "(address_type \<times> string) list" where
  "address_type_names =
     [(PHO_ADDR_PATH, ''PATH''),
      (PHO_ADDR_HASH1, ''HASH1''),
      (PHO_ADDR_OPAQUE, ''OPAQUE'')]"

definition address_type2str :: "address_type \<Rightarrow> string option" where
  "address_type2str st =
     (if st = PHO_ADDR_LAST \<or> st = PHO_ADDR_INVAL then None else map_of address_type_names st)"

definition str2address_type :: "string \<Rightarrow> address_type" where
  "str2address_type str = enum_find address_type_names PHO_ADDR_INVAL str"

datatype rsc_family = PHO_RSC_NONE | PHO_RSC_INVAL | PHO_RSC_TAPE | PHO_RSC_DIR | PHO_RSC_RADOS_POOL | PHO_RSC_UNSPEC

definition rsc_family_names :: "(rsc_family \<times> string) list" where
  "rsc_family_names =
     [(PHO_RSC_TAPE, ''tape''),
      (PHO_RSC_DIR, ''dir''),
      (PHO_RSC_RADOS_POOL, ''rados_pool'')]"

definition rsc_family2str :: "rsc_family \<Rightarrow> string option" where
  "rsc_family2str st =
     (if st = PHO_RSC_UNSPEC \<or> st = PHO_RSC_NONE \<or> st = PHO_RSC_INVAL then None else map_of rsc_family_names st)"

definition str2rsc_family :: "string \<Rightarrow> rsc_family" where
  "str2rsc_family str = enum_find rsc_family_names PHO_RSC_INVAL str"

datatype rsc_adm_status = PHO_RSC_ADM_ST_INVAL | PHO_RSC_ADM_ST_LOCKED | PHO_RSC_ADM_ST_UNLOCKED | PHO_RSC_ADM_ST_FAILED | PHO_RSC_ADM_ST_LAST

definition RSC_ADM_STATUS_NAMES :: "(rsc_adm_status \<times> string) list" where
  "RSC_ADM_STATUS_NAMES =
     [(PHO_RSC_ADM_ST_LOCKED, ''locked''),
      (PHO_RSC_ADM_ST_UNLOCKED, ''unlocked''),
      (PHO_RSC_ADM_ST_FAILED, ''failed'')]"

definition rsc_adm_status2str :: "rsc_adm_status \<Rightarrow> string option" where
  "rsc_adm_status2str st =
     (if st = PHO_RSC_ADM_ST_LAST \<or> st = PHO_RSC_ADM_ST_INVAL then None else map_of RSC_ADM_STATUS_NAMES st)"

definition str2rsc_adm_status :: "string \<Rightarrow> rsc_adm_status" where
  "str2rsc_adm_status str = enum_find RSC_ADM_STATUS_NAMES PHO_RSC_ADM_ST_INVAL str"

datatype copy_status = PHO_COPY_STATUS_INVAL | PHO_COPY_STATUS_INCOMPLETE | PHO_COPY_STATUS_READABLE | PHO_COPY_STATUS_COMPLETE | PHO_COPY_STATUS_LAST

definition COPY_STATUS_NAMES :: "(copy_status \<times> string) list" where
  "COPY_STATUS_NAMES =
     [(PHO_COPY_STATUS_INCOMPLETE, ''incomplete''),
      (PHO_COPY_STATUS_READABLE, ''readable''),
      (PHO_COPY_STATUS_COMPLETE, ''complete'')]"

definition copy_status2str :: "copy_status \<Rightarrow> string option" where
  "copy_status2str st =
     (if st = PHO_COPY_STATUS_LAST \<or> st = PHO_COPY_STATUS_INVAL then None else map_of COPY_STATUS_NAMES st)"

definition str2copy_status :: "string \<Rightarrow> copy_status" where
  "str2copy_status str = enum_find COPY_STATUS_NAMES PHO_COPY_STATUS_INVAL str"

text \<open>
  The range check of \<open>op_status2str\<close> lets \<open>PHO_DEV_OP_ST_LAST\<close>, which is
  \<open>PHO_DEV_OP_ST_UNSPEC\<close>, through; the scan of \<open>str2op_status\<close> stops before it.
\<close>

datatype dev_op_status =
    PHO_DEV_OP_ST_INVAL | PHO_DEV_OP_ST_FAILED | PHO_DEV_OP_ST_EMPTY | PHO_DEV_OP_ST_LOADED
  | PHO_DEV_OP_ST_MOUNTED | PHO_DEV_OP_ST_UNSPEC

definition dev_op_st_names :: "(dev_op_status \<times> string) list" where
  "dev_op_st_names =
     [(PHO_DEV_OP_ST_FAILED, ''failed''),
      (PHO_DEV_OP_ST_EMPTY, ''empty''),
      (PHO_DEV_OP_ST_LOADED, ''loaded''),
      (PHO_DEV_OP_ST_MOUNTED, ''mounted''),
      (PHO_DEV_OP_ST_UNSPEC, ''unspecified'')]"

definition op_status2str :: "dev_op_status \<Rightarrow> string option" where
  "op_status2str op_st =
     (if op_st = PHO_DEV_OP_ST_INVAL then None else map_of dev_op_st_names op_st)"

definition str2op_status :: "string \<Rightarrow> dev_op_status" where
  "str2op_status str =
     enum_find (takeWhile (\<lambda>(st, _). st \<noteq> PHO_DEV_OP_ST_UNSPEC) dev_op_st_names)
       PHO_DEV_OP_ST_INVAL str"

subsection \<open>Every enumeration meets its contract\<close>

interpretation extent_state: enum_names_full extent_state_names PHO_EXT_ST_INVAL extent_state2str
  by unfold_locales (auto simp: extent_state_names_def extent_state2str_def split: if_splits)

interpretation lib_type: enum_names_full lib_type_names PHO_LIB_INVAL lib_type2str
  by unfold_locales (auto simp: lib_type_names_def lib_type2str_def split: if_splits)

interpretation fs_type: enum_names_full fs_type_names PHO_FS_INVAL fs_type2str
  by unfold_locales (auto simp: fs_type_names_def fs_type2str_def split: if_splits)

interpretation fs_status: enum_names_full fs_status_names PHO_FS_STATUS_INVAL fs_status2str
  by unfold_locales (auto simp: fs_status_names_def fs_status2str_def split: if_splits)

interpretation address_type: enum_names_full address_type_names PHO_ADDR_INVAL address_type2str
  by unfold_locales (auto simp: address_type_names_def address_type2str_def split: if_splits)

interpretation rsc_family: enum_names_full rsc_family_names PHO_RSC_INVAL rsc_family2str
  by unfold_locales (auto simp: rsc_family_names_def rsc_family2str_def split: if_splits)

interpretation rsc_adm_status: enum_names_full RSC_ADM_STATUS_NAMES PHO_RSC_ADM_ST_INVAL rsc_adm_status2str
  by unfold_locales (auto simp: RSC_ADM_STATUS_NAMES_def rsc_adm_status2str_def split: if_splits)

interpretation copy_status: enum_names_full COPY_STATUS_NAMES PHO_COPY_STATUS_INVAL copy_status2str
  by unfold_locales (auto simp: COPY_STATUS_NAMES_def copy_status2str_def split: if_splits)

interpretation dev_op_status: enum_names
  "takeWhile (\<lambda>(st, _). st \<noteq> PHO_DEV_OP_ST_UNSPEC) dev_op_st_names" PHO_DEV_OP_ST_INVAL op_status2str
  by unfold_locales (auto simp: dev_op_st_names_def op_status2str_def)

text \<open>
  The names of the nine enumerations stored in the database parse back: printing a value
  that has a name and parsing the name gives the value, and every string that parses to a
  proper value is the name of that value.
\<close>

theorem enum_round_trip:
  "((extent_state2str v1 = Some s \<longleftrightarrow> str2extent_state s = v1 \<and> v1 \<noteq> PHO_EXT_ST_INVAL)
     \<and> (lib_type2str v2 = Some s \<longleftrightarrow> str2lib_type s = v2 \<and> v2 \<noteq> PHO_LIB_INVAL)
     \<and> (fs_type2str v3 = Some s \<longleftrightarrow> str2fs_type s = v3 \<and> v3 \<noteq> PHO_FS_INVAL)
     \<and> (fs_status2str v4 = Some s \<longleftrightarrow> str2fs_status s = v4 \<and> v4 \<noteq> PHO_FS_STATUS_INVAL)
     \<and> (address_type2str v5 = Some s \<longleftrightarrow> str2address_type s = v5 \<and> v5 \<noteq> PHO_ADDR_INVAL)
     \<and> (rsc_family2str v6 = Some s \<longleftrightarrow> str2rsc_family s = v6 \<and> v6 \<noteq> PHO_RSC_INVAL)
     \<and> (rsc_adm_status2str v7 = Some s \<longleftrightarrow> str2rsc_adm_status s = v7 \<and> v7 \<noteq> PHO_RSC_ADM_ST_INVAL)
     \<and> (copy_status2str v8 = Some s \<longleftrightarrow> str2copy_status s = v8 \<and> v8 \<noteq> PHO_COPY_STATUS_INVAL))
     \<and> (str2op_status s \<noteq> PHO_DEV_OP_ST_INVAL \<longleftrightarrow> op_status2str (str2op_status s) = Some s)
     \<and> op_status2str PHO_DEV_OP_ST_UNSPEC = Some ''unspecified''
     \<and> str2op_status ''unspecified'' = PHO_DEV_OP_ST_INVAL"
proof -
  have "str2op_status s \<noteq> PHO_DEV_OP_ST_INVAL \<longleftrightarrow> op_status2str (str2op_status s) = Some s"
    using dev_op_status.parse_print [of s]
    by (auto simp: str2op_status_def op_status2str_def)
  then show ?thesis
    by (simp add: str2extent_state_def extent_state.print_iff str2lib_type_def lib_type.print_iff
        str2fs_type_def fs_type.print_iff str2fs_status_def fs_status.print_iff
        str2address_type_def address_type.print_iff str2rsc_family_def rsc_family.print_iff
        str2rsc_adm_status_def rsc_adm_status.print_iff str2copy_status_def copy_status.print_iff)
      (simp add: op_status2str_def str2op_status_def dev_op_st_names_def)
qed

subsection \<open>Resource identifiers\<close>

text \<open>
  An identifier holds its name and library in arrays of \<open>PHO_URI_MAX\<close> characters;
  \<open>pho_id_name_set\<close> asserts that both fit, terminator included.
\<close>

record pho_id =
  family :: rsc_family
  name :: string
  library :: string

definition PHO_URI_MAX :: nat where
  "PHO_URI_MAX = 256"

definition pho_id_name_set :: "pho_id \<Rightarrow> string \<Rightarrow> string \<Rightarrow> pho_id option" where
  "pho_id_name_set pid nm lib =
     (if length nm < PHO_URI_MAX then
        (if length lib < PHO_URI_MAX then Some (pid\<lparr>name := nm, library := lib\<rparr>) else None)
      else None)"

definition pho_id_copy :: "pho_id \<Rightarrow> pho_id \<Rightarrow> pho_id option" where
  "pho_id_copy dst src = pho_id_name_set (dst\<lparr>family := family src\<rparr>) (name src) (library src)"

definition pho_id_equal :: "pho_id \<Rightarrow> pho_id \<Rightarrow> bool" where
  "pho_id_equal id1 id2 =
     (if name id1 \<noteq> name id2 then False
      else if library id1 \<noteq> library id2 then False
      else if family id1 \<noteq> family id2 then False
      else True)"

text \<open>The identifiers the code builds fit their arrays.\<close>

definition pho_id_wf :: "pho_id \<Rightarrow> bool" where
  "pho_id_wf pid \<longleftrightarrow> length (name pid) < PHO_URI_MAX \<and> length (library pid) < PHO_URI_MAX"

lemma pho_id_equal_iff [simp]: "pho_id_equal a b \<longleftrightarrow> a = b"
  by (auto simp: pho_id_equal_def)

lemma pho_id_copy_wf: "pho_id_wf src \<Longrightarrow> pho_id_copy dst src = Some src"
  by (simp add: pho_id_copy_def pho_id_name_set_def pho_id_wf_def)

end
