(* ===== verification/Pho_Common.thy ===== *)
theory Pho_Common
  imports Phobos_Prelude "HOL-Library.Signed_Division" "HOL-Library.Signed_Division"
begin

text \<open>
  The helpers of \<^verbatim>\<open>src/core/common/common.c\<close> and \<^verbatim>\<open>src/include/pho_common.h\<close>: number and
  hexadecimal conversions, trimmed comparison of strings, arithmetic on \<open>struct timespec\<close>,
  \<open>gcd\<close> and \<open>lcm\<close>. The C library functions they call (\<open>strtol\<close>, \<open>sprintf\<close>, \<open>sscanf\<close>,
  \<open>isspace\<close>) are modelled on the formats used.
\<close>

subsection \<open>Characters\<close>

definition isspace :: "char \<Rightarrow> bool" where
  "isspace c \<longleftrightarrow> (let n = (of_char c :: nat) in n = 32 \<or> 9 \<le> n \<and> n \<le> 13)"

definition isdigit :: "char \<Rightarrow> bool" where
  "isdigit c \<longleftrightarrow> (let n = (of_char c :: nat) in 48 \<le> n \<and> n \<le> 57)"

definition digit_val :: "char \<Rightarrow> nat" where
  "digit_val c = of_char c - 48"

definition digit_char :: "nat \<Rightarrow> char" where
  "digit_char d = char_of (48 + d)"

definition c_toupper :: "char \<Rightarrow> char" where
  "c_toupper c = (let n = (of_char c :: nat) in if 97 \<le> n \<and> n \<le> 122 then char_of (n - 32) else c)"

definition c_tolower :: "char \<Rightarrow> char" where
  "c_tolower c = (let n = (of_char c :: nat) in if 65 \<le> n \<and> n \<le> 90 then char_of (n + 32) else c)"

definition upperstr :: "string \<Rightarrow> string" where
  "upperstr str = map c_toupper str"

definition lowerstr :: "string \<Rightarrow> string" where
  "lowerstr str = map c_tolower str"

lemma digit_char_simps [simp]:
  "d < 10 \<Longrightarrow> isdigit (digit_char d)" "d < 10 \<Longrightarrow> digit_val (digit_char d) = d"
  by (simp_all add: isdigit_def digit_char_def digit_val_def)

lemma isdigit_not_space: "isdigit c \<Longrightarrow> \<not> isspace c"
  by (auto simp: isdigit_def isspace_def Let_def)

lemma isdigit_not_sign: "isdigit c \<Longrightarrow> c \<noteq> CHR ''-'' \<and> c \<noteq> CHR ''+''"
  by (auto simp: isdigit_def Let_def)

subsection \<open>Decimal conversion\<close>

text \<open>\<open>sprintf\<close> with \<^verbatim>\<open>%d\<close>, \<^verbatim>\<open>%zu\<close> and \<^verbatim>\<open>%lu\<close>.\<close>

fun nat2str :: "nat \<Rightarrow> string" where
  "nat2str n = (if n < 10 then [digit_char n] else nat2str (n div 10) @ [digit_char (n mod 10)])"

declare nat2str.simps [simp del]

definition int2str :: "int \<Rightarrow> string" where
  "int2str i = (if i < 0 then CHR ''-'' # nat2str (nat (- i)) else nat2str (nat i))"

definition digits_val :: "string \<Rightarrow> nat" where
  "digits_val ds = foldl (\<lambda>a c. a * 10 + digit_val c) 0 ds"

lemma digits_val_snoc: "digits_val (ds @ [c]) = digits_val ds * 10 + digit_val c"
  by (simp add: digits_val_def)

lemma nat2str_digits: "nat2str n \<noteq> [] \<and> list_all isdigit (nat2str n) \<and> digits_val (nat2str n) = n"
proof (induction n rule: nat2str.induct)
  case (1 n)
  show ?case
  proof (cases "n < 10")
    case True
    then show ?thesis by (simp add: nat2str.simps digits_val_def)
  next
    case False
    with 1 show ?thesis
      by (simp add: nat2str.simps [of n] digits_val_snoc)
  qed
qed

text \<open>
  \<open>strtol (str, &endptr, 10)\<close> on a 64-bit \<open>long\<close>: the value, whether \<open>errno\<close> is set to
  \<open>ERANGE\<close>, whether a number was read, and the text at \<open>endptr\<close>.
\<close>

definition LLONG_MAX :: int where
  "LLONG_MAX = 2 ^ 63 - 1"

definition LLONG_MIN :: int where
  "LLONG_MIN = - (2 ^ 63)"

definition INT64_MIN :: int where
  "INT64_MIN = - (2 ^ 63)"

definition strtol_sign :: "string \<Rightarrow> bool \<times> string" where
  "strtol_sign s =
     (case s of
        [] \<Rightarrow> (False, [])
      | c # cs \<Rightarrow> if c = CHR ''-'' then (True, cs) else if c = CHR ''+'' then (False, cs) else (False, s))"

definition strtol :: "string \<Rightarrow> int \<times> bool \<times> bool \<times> string" where
  "strtol str =
     (let (neg, s) = strtol_sign (dropWhile isspace str);
          ds = takeWhile isdigit s;
          v = (if neg then - int (digits_val ds) else int (digits_val ds))
      in if ds = [] then (0, False, False, str)
         else if v > LLONG_MAX then (LLONG_MAX, True, True, dropWhile isdigit s)
         else if v < LLONG_MIN then (LLONG_MIN, True, True, dropWhile isdigit s)
         else (v, False, True, dropWhile isdigit s))"

definition str2int64 :: "string \<Rightarrow> int" where
  "str2int64 str =
     (let (val, erange, read, endptr) = strtol str in
      if (erange \<and> (val = LLONG_MAX \<or> val = LLONG_MIN)) \<or> (erange \<and> val = 0) then INT64_MIN
      else if \<not> read \<or> endptr \<noteq> [] then INT64_MIN
      else val)"

lemma takeWhile_all_digits: "list_all isdigit s \<Longrightarrow> takeWhile isdigit s = s \<and> dropWhile isdigit s = []"
  by (simp add: list_all_iff)

lemma dropWhile_space_digits:
  "s \<noteq> [] \<Longrightarrow> list_all isdigit s \<Longrightarrow> dropWhile isspace s = s \<and> strtol_sign s = (False, s)"
  by (cases s) (auto simp: strtol_sign_def dest: isdigit_not_space isdigit_not_sign)

lemma str2int64_digits:
  assumes "s \<noteq> []" "list_all isdigit s" "int (digits_val s) \<le> LLONG_MAX"
  shows "str2int64 s = int (digits_val s)"
  using assms
  by (simp add: str2int64_def strtol_def dropWhile_space_digits takeWhile_all_digits LLONG_MIN_def)

lemma str2int64_neg_digits:
  assumes "s \<noteq> []" "list_all isdigit s" "LLONG_MIN \<le> - int (digits_val s)"
  shows "str2int64 (CHR ''-'' # s) = - int (digits_val s)"
  using assms
  by (simp add: str2int64_def strtol_def strtol_sign_def takeWhile_all_digits LLONG_MAX_def isspace_def)

text \<open>
  C35. A 64-bit integer printed with \<open>sprintf\<close> and read by \<open>str2int64\<close> comes back: the object
  size and the extent index stored as extended attributes are recovered.
\<close>

theorem str2int64_int2str:
  "LLONG_MIN \<le> i \<Longrightarrow> i \<le> LLONG_MAX \<Longrightarrow> str2int64 (int2str i) = i"
  using nat2str_digits [of "nat i"] nat2str_digits [of "nat (- i)"]
  by (simp add: int2str_def str2int64_digits str2int64_neg_digits)

theorem str2int64_int2str_witness:
  "LLONG_MIN \<le> -42 \<and> (-42 :: int) \<le> LLONG_MAX \<and> str2int64 (int2str (-42)) = -42"
  using str2int64_int2str [of "-42"] by (simp add: LLONG_MIN_def LLONG_MAX_def)

text \<open>Text that is not a number gives \<open>INT64_MIN\<close>, which a 32-bit \<open>int\<close> cannot hold.\<close>

lemma str2int64_malformed: "\<not> isdigit c \<Longrightarrow> \<not> isspace c \<Longrightarrow> c \<noteq> CHR ''-'' \<Longrightarrow> c \<noteq> CHR ''+'' \<Longrightarrow>
    str2int64 (c # cs) = INT64_MIN"
  by (simp add: str2int64_def strtol_def strtol_sign_def)

lemma c_int_INT64_MIN [simp]: "c_int INT64_MIN = 0"
  by (simp add: c_int_def INT64_MIN_def)

subsection \<open>Hexadecimal conversion\<close>

definition hex_char :: "nat \<Rightarrow> char" where
  "hex_char d = (if d < 10 then char_of (48 + d) else char_of (87 + d))"

definition hex_val :: "char \<Rightarrow> nat option" where
  "hex_val c =
     (let n = (of_char c :: nat) in
      if 48 \<le> n \<and> n \<le> 57 then Some (n - 48)
      else if 97 \<le> n \<and> n \<le> 102 then Some (n - 87)
      else if 65 \<le> n \<and> n \<le> 70 then Some (n - 55)
      else None)"

text \<open>\<^verbatim>\<open>sprintf (hex + k, "%02x", buf[j])\<close> appends two digits for every byte.\<close>

definition uchar2hex :: "byte list \<Rightarrow> string" where
  "uchar2hex buf = concat (map (\<lambda>b. [hex_char (unat b div 16), hex_char (unat b mod 16)]) buf)"

text \<open>
  \<^verbatim>\<open>sscanf (s, "%02x", &temp)\<close> with \<open>temp = 0\<close> before the call: white space is skipped, then
  at most two characters are read, a sign included. The result is \<open>None\<close> for \<open>EOF\<close>; a
  conversion that fails leaves \<open>temp\<close> at 0.
\<close>

fun hex_digits :: "nat \<Rightarrow> string \<Rightarrow> nat \<Rightarrow> nat" where
  "hex_digits 0 s acc = acc"
| "hex_digits (Suc w) [] acc = acc"
| "hex_digits (Suc w) (c # cs) acc =
     (case hex_val c of None \<Rightarrow> acc | Some d \<Rightarrow> hex_digits w cs (acc * 16 + d))"

definition sscanf_02x :: "string \<Rightarrow> byte option" where
  "sscanf_02x s =
     (case dropWhile isspace s of
        [] \<Rightarrow> None
      | c # cs \<Rightarrow>
          if c = CHR ''-'' then Some (- of_nat (hex_digits 1 cs 0))
          else if c = CHR ''+'' then Some (of_nat (hex_digits 1 cs 0))
          else Some (of_nat (hex_digits 2 (c # cs) 0)))"

text \<open>
  The loop of \<open>hex2uchar\<close>, from index \<open>i\<close> of \<open>n\<close>. The outer option is the read past the end
  of the string, the inner one the NULL the function returns.
\<close>

fun hex2uchar_from :: "string \<Rightarrow> nat \<Rightarrow> byte list option option" where
  "hex2uchar_from hex 0 = Some (Some [])"
| "hex2uchar_from hex (Suc n) =
     (case sscanf_02x hex of
        None \<Rightarrow> Some None
      | Some b \<Rightarrow>
          if n = 0 then Some (Some [b])
          else if length hex < 2 then None
          else map_option (map_option ((#) b)) (hex2uchar_from (drop 2 hex) n))"

definition hex2uchar :: "string \<Rightarrow> nat \<Rightarrow> byte list option option" where
  "hex2uchar hex uchar_size = hex2uchar_from hex uchar_size"

lemma hex_char_val: "d < 16 \<Longrightarrow> hex_val (hex_char d) = Some d"
  by (auto simp: hex_val_def hex_char_def Let_def)

lemma hex_char_plain: "d < 16 \<Longrightarrow> \<not> isspace (hex_char d) \<and> hex_char d \<noteq> CHR ''-'' \<and> hex_char d \<noteq> CHR ''+''"
  by (auto simp: hex_char_def isspace_def Let_def char_of_eq_iff take_bit_eq_mod)

lemma unat_byte_div: "unat (b :: byte) div 16 < 16"
  using unsigned_less [of b, where 'a = nat] by simp

lemma sscanf_byte:
  "sscanf_02x (hex_char (unat b div 16) # hex_char (unat b mod 16) # s) = Some (b :: byte)"
  using hex_char_plain [OF unat_byte_div [of b]]
  by (simp add: sscanf_02x_def numeral_2_eq_2 hex_char_val unat_byte_div)

text \<open>
  The checksum digests stored in hexadecimal by \<open>uchar2hex\<close> are read back unchanged by
  \<open>hex2uchar\<close>, with no read past the end of the string.
\<close>

theorem hex2uchar_uchar2hex: "hex2uchar (uchar2hex buf) (length buf) = Some (Some buf)"
proof -
  have "hex2uchar_from (uchar2hex buf) (length buf) = Some (Some buf)"
  proof (induction buf)
    case Nil
    then show ?case by simp
  next
    case (Cons b buf)
    have "uchar2hex (b # buf) = hex_char (unat b div 16) # hex_char (unat b mod 16) # uchar2hex buf"
      by (simp add: uchar2hex_def)
    with Cons show ?case by (auto simp: sscanf_byte)
  qed
  then show ?thesis by (simp add: hex2uchar_def)
qed

subsection \<open>Trimmed comparison\<close>

text \<open>\<open>get_trimmed_string\<close> returns the part of the string between the blanks, or NULL when there is none.\<close>

definition get_trimmed_string :: "string \<Rightarrow> string option" where
  "get_trimmed_string str =
     (case dropWhile isspace str of
        [] \<Rightarrow> None
      | s \<Rightarrow> Some (rev (dropWhile isspace (rev s))))"

text \<open>\<open>strncmp\<close> on strings of at least \<open>n\<close> characters: the difference of the first bytes that differ.\<close>

fun strncmp :: "string \<Rightarrow> string \<Rightarrow> nat \<Rightarrow> int" where
  "strncmp _ _ 0 = 0"
| "strncmp [] [] (Suc n) = 0"
| "strncmp [] (d # ds) (Suc n) = - of_char d"
| "strncmp (c # cs) [] (Suc n) = of_char c"
| "strncmp (c # cs) (d # ds) (Suc n) = (if c = d then strncmp cs ds n else of_char c - of_char d)"

definition cmp_trimmed_strings :: "string \<Rightarrow> string \<Rightarrow> int" where
  "cmp_trimmed_strings first second =
     (case (get_trimmed_string first, get_trimmed_string second) of
        (Some f, Some s) \<Rightarrow>
          if length f \<noteq> length s then - EINVAL else strncmp f s (length f)
      | _ \<Rightarrow> - EINVAL)"

lemma strncmp_zero: "length s = n \<Longrightarrow> length t = n \<Longrightarrow> strncmp s t n = 0 \<longleftrightarrow> s = t"
  by (induction s t n rule: strncmp.induct) auto

lemma dropWhile_append_stop: "\<forall>x \<in> set xs. P x \<Longrightarrow> \<not> P y \<Longrightarrow> dropWhile P (xs @ y # ys) = y # ys"
  by (induction xs) auto

lemma get_trimmed_string_pad:
  assumes "\<forall>c \<in> set l. isspace c" "\<forall>c \<in> set r. isspace c" "s \<noteq> []" "\<not> isspace (hd s)" "\<not> isspace (last s)"
  shows "get_trimmed_string (l @ s @ r) = Some s"
proof -
  obtain c cs where s: "s = c # cs" using assms(3) by (cases s) auto
  obtain bs b where s': "s = bs @ [b]" using assms(3) by (cases s rule: rev_cases) auto
  have left: "dropWhile isspace (l @ s @ r) = s @ r"
    using assms(1,4) dropWhile_append_stop [of l isspace c "cs @ r"] by (simp add: s)
  have right: "dropWhile isspace (rev (s @ r)) = rev s"
    using assms(2,5) dropWhile_append_stop [of "rev r" isspace b "rev bs"] by (simp add: s')
  show ?thesis
    using right by (simp add: get_trimmed_string_def left) (simp add: s)
qed

lemma cmp_trimmed_strings_zero:
  "cmp_trimmed_strings first second = 0 \<longleftrightarrow>
     get_trimmed_string first = get_trimmed_string second \<and> get_trimmed_string first \<noteq> None"
  by (auto simp: cmp_trimmed_strings_def strncmp_zero split: option.splits)

subsection \<open>Time stamps\<close>

record timespec =
  tv_sec :: int
  tv_nsec :: int

definition cmp_timespec :: "timespec \<Rightarrow> timespec \<Rightarrow> int" where
  "cmp_timespec a b =
     (if tv_sec a = tv_sec b then
        if tv_nsec a < tv_nsec b then -1
        else if tv_nsec a > tv_nsec b then 1
        else 0
      else if tv_sec a < tv_sec b then -1
      else 1)"

definition is_older_or_equal :: "timespec \<Rightarrow> timespec \<Rightarrow> bool" where
  "is_older_or_equal a b =
     (if tv_sec a > tv_sec b \<or> (tv_sec a = tv_sec b \<and> tv_nsec a > tv_nsec b) then False else True)"

text \<open>\<open>now\<close> is what \<open>clock_gettime\<close> stored, \<open>None\<close> when the call failed.\<close>

definition is_past :: "timespec option \<Rightarrow> timespec \<Rightarrow> bool" where
  "is_past now t = (case now of None \<Rightarrow> True | Some n \<Rightarrow> is_older_or_equal t n)"

definition add_timespec :: "timespec \<Rightarrow> timespec \<Rightarrow> timespec" where
  "add_timespec a b =
     \<lparr>tv_sec = tv_sec a + tv_sec b + (tv_nsec a + tv_nsec b) sdiv 1000000000,
      tv_nsec = (tv_nsec a + tv_nsec b) smod 1000000000\<rparr>"

definition diff_timespec :: "timespec \<Rightarrow> timespec \<Rightarrow> timespec" where
  "diff_timespec a b =
     (if tv_nsec a \<ge> tv_nsec b then
        \<lparr>tv_sec = tv_sec a - tv_sec b, tv_nsec = tv_nsec a - tv_nsec b\<rparr>
      else
        \<lparr>tv_sec = tv_sec a - (tv_sec b + 1), tv_nsec = (tv_nsec a + 1000000000) - tv_nsec b\<rparr>)"

definition timespec_wf :: "timespec \<Rightarrow> bool" where
  "timespec_wf t \<longleftrightarrow> 0 \<le> tv_nsec t \<and> tv_nsec t < 1000000000"

text \<open>The instant a time stamp denotes, in nanoseconds.\<close>

definition timespec_ns :: "timespec \<Rightarrow> int" where
  "timespec_ns t = tv_sec t * 1000000000 + tv_nsec t"

lemma timespec_ns_less:
  "timespec_wf a \<Longrightarrow> timespec_wf b \<Longrightarrow>
     timespec_ns a < timespec_ns b \<longleftrightarrow> tv_sec a < tv_sec b \<or> tv_sec a = tv_sec b \<and> tv_nsec a < tv_nsec b"
  by (auto simp: timespec_wf_def timespec_ns_def)

lemma timespec_ns_inject: "timespec_wf a \<Longrightarrow> timespec_wf b \<Longrightarrow> timespec_ns a = timespec_ns b \<longleftrightarrow> a = b"
  using timespec_ns_less [of a b] timespec_ns_less [of b a] by (auto intro: timespec.equality)

lemma sdiv_smod_nonneg:
  "0 \<le> (n :: int) \<Longrightarrow> n sdiv 1000000000 = n div 1000000000 \<and> n smod 1000000000 = n mod 1000000000"
  by (auto simp: signed_divide_int_def signed_modulo_int_def sgn_if minus_div_mult_eq_mod)

lemma add_timespec_ns:
  "timespec_wf a \<Longrightarrow> timespec_wf b \<Longrightarrow>
     timespec_wf (add_timespec a b) \<and> timespec_ns (add_timespec a b) = timespec_ns a + timespec_ns b"
  using sdiv_smod_nonneg [of "tv_nsec a + tv_nsec b"]
  by (simp add: timespec_wf_def timespec_ns_def add_timespec_def)

lemma diff_timespec_ns:
  "timespec_wf a \<Longrightarrow> timespec_wf b \<Longrightarrow>
     timespec_wf (diff_timespec a b) \<and> timespec_ns (diff_timespec a b) = timespec_ns a - timespec_ns b"
  by (auto simp: timespec_wf_def timespec_ns_def diff_timespec_def)

text \<open>
  On normalised time stamps (nanoseconds below one second) \<open>cmp_timespec\<close> and
  \<open>is_older_or_equal\<close> order instants, and \<open>add_timespec\<close> and \<open>diff_timespec\<close> are inverse to
  each other and keep the stamps normalised.
\<close>

theorem timespec_correct:
  assumes "timespec_wf a" "timespec_wf b"
  shows "cmp_timespec a b = sgn (timespec_ns a - timespec_ns b) \<and>
         is_older_or_equal a b = (timespec_ns a \<le> timespec_ns b) \<and>
         timespec_wf (add_timespec a b) \<and> timespec_wf (diff_timespec a b) \<and>
         diff_timespec (add_timespec a b) b = a \<and> add_timespec (diff_timespec a b) b = a"
proof (intro conjI)
  note ns = timespec_ns_less [OF assms] timespec_ns_less [OF assms(2,1)] timespec_ns_inject [OF assms]
  show "cmp_timespec a b = sgn (timespec_ns a - timespec_ns b)"
    using ns by (auto simp: cmp_timespec_def sgn_if timespec_ns_def)
  show "is_older_or_equal a b = (timespec_ns a \<le> timespec_ns b)"
    using ns by (auto simp: is_older_or_equal_def not_less [symmetric])
  note add = add_timespec_ns [OF assms] and sub = diff_timespec_ns [OF assms]
  show "timespec_wf (add_timespec a b)" "timespec_wf (diff_timespec a b)"
    using add sub by simp_all
  show "diff_timespec (add_timespec a b) b = a"
    using add assms diff_timespec_ns [of "add_timespec a b" b]
    by (simp add: timespec_ns_inject [symmetric])
  show "add_timespec (diff_timespec a b) b = a"
    using sub assms add_timespec_ns [of "diff_timespec a b" b]
    by (simp add: timespec_ns_inject [symmetric])
qed

theorem timespec_correct_witness:
  "add_timespec (diff_timespec \<lparr>tv_sec = 5, tv_nsec = 1\<rparr> \<lparr>tv_sec = 2, tv_nsec = 999999999\<rparr>)
     \<lparr>tv_sec = 2, tv_nsec = 999999999\<rparr> = \<lparr>tv_sec = 5, tv_nsec = 1\<rparr>"
  using timespec_correct [of "\<lparr>tv_sec = 5, tv_nsec = 1\<rparr>" "\<lparr>tv_sec = 2, tv_nsec = 999999999\<rparr>"]
  by (simp add: timespec_wf_def)

subsection \<open>Arithmetic helpers of \<^verbatim>\<open>pho_common.h\<close>\<close>

definition is_medium_global_error :: "int \<Rightarrow> bool" where
  "is_medium_global_error errcode \<longleftrightarrow> errcode = - ENOSPC \<or> errcode = - EROFS \<or> errcode = - EDQUOT"

function gcd_loop :: "size_t \<Rightarrow> size_t \<Rightarrow> size_t" where
  "gcd_loop a b = (if b \<noteq> 0 then gcd_loop b (a mod b) else a)"
  by auto
termination by (relation "measure snd") auto

declare gcd_loop.simps [simp del]

text \<open>The division by \<open>gcd (0, 0)\<close> is undefined behaviour.\<close>

definition lcm_c :: "size_t \<Rightarrow> size_t \<Rightarrow> size_t option" where
  "lcm_c a b = (if gcd_loop a b = 0 then None else Some (size_mul (a div gcd_loop a b) b))"

lemma gcd_loop_gcd: "gcd_loop a b = gcd a b"
  by (induction a b rule: gcd_loop.induct) (subst gcd_loop.simps, simp add: gcd_red_nat [symmetric])

lemma lcm_c_lcm:
  assumes "a \<noteq> 0 \<or> b \<noteq> 0" "lcm a b < size_max"
  shows "lcm_c a b = Some (lcm a b)"
proof -
  have "a div gcd a b * b = lcm a b"
    by (simp add: lcm_nat_def dvd_div_mult)
  then show ?thesis
    using assms by (simp add: lcm_c_def gcd_loop_gcd size_simps)
qed

end
