(* ===== verification/Pho_Type_Utils.thy ===== *)
theory Pho_Type_Utils
  imports Pho_Types
begin

text \<open>
  String arrays, the thread-safe queue and the copies of the core records, from
  \<^verbatim>\<open>src/core/common/type_utils.c\<close>.

  A string array is modelled with the memory the code allocates: a list of cells, each unset,
  NULL or a string, and the \<open>count\<close> field the functions scan up to. A function that passes a
  cell that holds no string to \<open>strcmp\<close> has no result. \<open>sa_list\<close> is what a well-formed array
  denotes, and every operation is related to its counterpart on lists.
\<close>

subsection \<open>String arrays\<close>

datatype cell = Unset | Null | Str (str: string)

record string_array =
  sa_strings :: "cell list"
  sa_count :: size_t

definition NO_STRING :: string_array where
  "NO_STRING = \<lparr>sa_strings = [], sa_count = 0\<rparr>"

fun xstrdup_safe :: "cell \<Rightarrow> cell option" where
  "xstrdup_safe Unset = None"
| "xstrdup_safe Null = Some Null"
| "xstrdup_safe (Str s) = Some (Str s)"

fun strcmp_eq :: "cell \<Rightarrow> cell \<Rightarrow> bool option" where
  "strcmp_eq (Str s) (Str t) = Some (s = t)"
| "strcmp_eq _ _ = None"

definition sa_at :: "string_array \<Rightarrow> nat \<Rightarrow> cell" where
  "sa_at sa i = (if i < length (sa_strings sa) then sa_strings sa ! i else Unset)"

fun dup_cells :: "cell list \<Rightarrow> nat \<Rightarrow> cell list option" where
  "dup_cells cs 0 = Some []"
| "dup_cells [] (Suc n) = None"
| "dup_cells (c # cs) (Suc n) =
     (case xstrdup_safe c of None \<Rightarrow> None | Some d \<Rightarrow> map_option ((#) d) (dup_cells cs n))"

definition string_array_init :: "cell list \<Rightarrow> size_t \<Rightarrow> string_array option" where
  "string_array_init strings count =
     (if count = 0 then Some \<lparr>sa_strings = [], sa_count = 0\<rparr>
      else map_option (\<lambda>cs. \<lparr>sa_strings = cs, sa_count = count\<rparr>) (dup_cells strings count))"

definition string_array_dup :: "string_array option \<Rightarrow> string_array option" where
  "string_array_dup src =
     (case src of
        None \<Rightarrow> Some NO_STRING
      | Some s \<Rightarrow> string_array_init (sa_strings s) (sa_count s))"

definition string_array_free :: "string_array \<Rightarrow> string_array" where
  "string_array_free sa = \<lparr>sa_strings = [], sa_count = 0\<rparr>"

text \<open>The loops, from index \<open>i\<close> with \<open>n\<close> turns left.\<close>

fun eq_from :: "string_array \<Rightarrow> string_array \<Rightarrow> nat \<Rightarrow> nat \<Rightarrow> bool option" where
  "eq_from a b i 0 = Some True"
| "eq_from a b i (Suc n) =
     (case strcmp_eq (sa_at a i) (sa_at b i) of
        None \<Rightarrow> None
      | Some e \<Rightarrow> if e then eq_from a b (Suc i) n else Some False)"

definition string_array_eq :: "string_array \<Rightarrow> string_array \<Rightarrow> bool option" where
  "string_array_eq a b =
     (if sa_count a \<noteq> sa_count b then Some False else eq_from a b 0 (sa_count a))"

fun exists_from :: "string_array \<Rightarrow> cell \<Rightarrow> nat \<Rightarrow> nat \<Rightarrow> bool option" where
  "exists_from sa s i 0 = Some False"
| "exists_from sa s i (Suc n) =
     (case strcmp_eq s (sa_at sa i) of
        None \<Rightarrow> None
      | Some e \<Rightarrow> if e then Some True else exists_from sa s (Suc i) n)"

definition string_exists :: "string_array \<Rightarrow> cell \<Rightarrow> bool option" where
  "string_exists sa s = exists_from sa s 0 (sa_count sa)"

text \<open>The inner loop of \<open>string_array_in\<close> is the scan of \<open>string_exists\<close>.\<close>

fun in_from :: "string_array \<Rightarrow> string_array \<Rightarrow> nat \<Rightarrow> nat \<Rightarrow> bool option" where
  "in_from haystack needle i 0 = Some True"
| "in_from haystack needle i (Suc n) =
     (case exists_from haystack (sa_at needle i) 0 (sa_count haystack) of
        None \<Rightarrow> None
      | Some e \<Rightarrow> if e then in_from haystack needle (Suc i) n else Some False)"

definition string_array_in :: "string_array \<Rightarrow> string_array \<Rightarrow> bool option" where
  "string_array_in haystack needle =
     (if sa_count needle > sa_count haystack then Some False
      else in_from haystack needle 0 (sa_count needle))"

text \<open>\<open>xrealloc\<close> keeps the cells that fit and leaves new ones unset.\<close>

definition xrealloc :: "cell list \<Rightarrow> nat \<Rightarrow> cell list" where
  "xrealloc cs n = take n cs @ replicate (n - length cs) Unset"

definition string_array_add :: "string_array \<Rightarrow> cell \<Rightarrow> string_array option" where
  "string_array_add sa s =
     (case xstrdup_safe s of
        None \<Rightarrow> None
      | Some d \<Rightarrow>
          let count = sa_count sa + 1 in
          Some \<lparr>sa_strings = (xrealloc (sa_strings sa) count)[count - 1 := d], sa_count = count\<rparr>)"

text \<open>The tokens \<open>strtok_r (.., ",", ..)\<close> returns: the maximal runs without a comma.\<close>

fun tokens_acc :: "string \<Rightarrow> string \<Rightarrow> string list" where
  "tokens_acc cur [] = (if cur = [] then [] else [cur])"
| "tokens_acc cur (c # cs) =
     (if c = CHR '','' then (if cur = [] then [] else [cur]) @ tokens_acc [] cs
      else tokens_acc (cur @ [c]) cs)"

definition strtok_comma :: "string \<Rightarrow> string list" where
  "strtok_comma s = tokens_acc [] s"

text \<open>The loop that fills the array; a duplicate skips the store but not the increment of \<open>i\<close>.\<close>

fun fill_strings :: "string list \<Rightarrow> nat \<Rightarrow> string_array \<Rightarrow> string_array option" where
  "fill_strings [] i sa = Some sa"
| "fill_strings (t # ts) i sa =
     (case string_exists sa (Str t) of
        None \<Rightarrow> None
      | Some ex \<Rightarrow>
          if ex then fill_strings ts (i + 1) sa
          else if i < length (sa_strings sa)
               then fill_strings ts (i + 1)
                      (sa\<lparr>sa_strings := (sa_strings sa)[i := Str t], sa_count := sa_count sa + 1\<rparr>)
               else None)"

definition enlarge :: "string_array \<Rightarrow> nat \<Rightarrow> cell list" where
  "enlarge sa n =
     (if sa_count sa > 0 then xrealloc (sa_strings sa) (sa_count sa + n) else replicate n Null)"

definition str2string_array :: "string option \<Rightarrow> string_array \<Rightarrow> string_array option" where
  "str2string_array s sa =
     (case s of
        None \<Rightarrow> Some sa
      | Some text \<Rightarrow>
          let i = sa_count sa; ts = strtok_comma text in
          if text = [] then Some sa
          else if length ts = 0 then Some sa
          else fill_strings ts i (sa\<lparr>sa_strings := enlarge sa (length ts)\<rparr>))"

fun intersect_from :: "string_array \<Rightarrow> string_array \<Rightarrow> nat \<Rightarrow> nat \<Rightarrow> string_array \<Rightarrow> string_array option" where
  "intersect_from src dst i 0 acc = Some acc"
| "intersect_from src dst i (Suc n) acc =
     (case string_exists src (sa_at dst i) of
        None \<Rightarrow> None
      | Some ex \<Rightarrow>
          if ex then
            (case string_array_add acc (sa_at dst i) of
               None \<Rightarrow> None
             | Some acc' \<Rightarrow> intersect_from src dst (Suc i) n acc')
          else intersect_from src dst (Suc i) n acc)"

definition string_array_intersect :: "string_array \<Rightarrow> string_array \<Rightarrow> string_array option" where
  "string_array_intersect src dst = intersect_from src dst 0 (sa_count dst) NO_STRING"

subsection \<open>Well-formed arrays and what they denote\<close>

definition sa_wf :: "string_array \<Rightarrow> bool" where
  "sa_wf sa \<longleftrightarrow> sa_count sa \<le> length (sa_strings sa) \<and> (\<forall>c \<in> set (take (sa_count sa) (sa_strings sa)). \<exists>s. c = Str s)"

definition sa_list :: "string_array \<Rightarrow> string list" where
  "sa_list sa = map str (take (sa_count sa) (sa_strings sa))"

text \<open>The array the code builds for a list of strings.\<close>

definition sa_of :: "string list \<Rightarrow> string_array" where
  "sa_of xs = \<lparr>sa_strings = map Str xs, sa_count = length xs\<rparr>"

lemma sa_of_simps [simp]: "sa_wf (sa_of xs)" "sa_list (sa_of xs) = xs" "sa_count (sa_of xs) = length xs"
  by (auto simp: sa_wf_def sa_list_def sa_of_def map_idI)

lemma sa_wf_length [simp]: "sa_wf sa \<Longrightarrow> length (sa_list sa) = sa_count sa"
  by (simp add: sa_wf_def sa_list_def)

lemma sa_wf_nth: "sa_wf sa \<Longrightarrow> i < sa_count sa \<Longrightarrow> \<exists>s. sa_strings sa ! i = Str s"
  using nth_mem [of i "take (sa_count sa) (sa_strings sa)"] by (auto simp: sa_wf_def)

lemma sa_at_wf [simp]: "sa_wf sa \<Longrightarrow> i < sa_count sa \<Longrightarrow> sa_at sa i = Str (sa_list sa ! i)"
  using sa_wf_nth [of sa i] by (auto simp: sa_list_def sa_at_def sa_wf_def)

lemma take_sa_wf: "sa_wf sa \<Longrightarrow> take (sa_count sa) (sa_strings sa) = map Str (sa_list sa)"
  by (rule nth_equalityI) (use sa_wf_nth [of sa] in \<open>fastforce simp: sa_wf_def sa_list_def\<close>)+

lemma string_exists_list:
  assumes "sa_wf sa"
  shows "string_exists sa (Str s) = Some (s \<in> set (sa_list sa))"
proof -
  have "i + n = sa_count sa \<Longrightarrow> exists_from sa (Str s) i n = Some (s \<in> set (drop i (sa_list sa)))" for i n
  proof (induction n arbitrary: i)
    case 0
    then show ?case using assms by simp
  next
    case (Suc n)
    then have "drop i (sa_list sa) = sa_list sa ! i # drop (Suc i) (sa_list sa)"
      using assms by (intro Cons_nth_drop_Suc [symmetric]) simp
    with Suc assms show ?case by auto
  qed
  from this [of 0 "sa_count sa"] show ?thesis by (simp add: string_exists_def)
qed

lemma string_array_eq_list:
  assumes "sa_wf a" "sa_wf b"
  shows "string_array_eq a b = Some (sa_list a = sa_list b)"
proof -
  have "sa_count a = sa_count b \<Longrightarrow> i + n = sa_count a \<Longrightarrow>
      eq_from a b i n = Some (drop i (sa_list a) = drop i (sa_list b))" for i n
  proof (induction n arbitrary: i)
    case 0
    then show ?case using assms by simp
  next
    case (Suc n)
    then have "drop i (sa_list a) = sa_list a ! i # drop (Suc i) (sa_list a)"
      and "drop i (sa_list b) = sa_list b ! i # drop (Suc i) (sa_list b)"
      using assms by (auto intro: Cons_nth_drop_Suc [symmetric])
    with Suc assms show ?case by auto
  qed
  from this [of 0 "sa_count a"] show ?thesis
    using assms by (auto simp: string_array_eq_def dest: arg_cong [where f = length])
qed

lemma string_array_in_list:
  assumes "sa_wf haystack" "sa_wf needle"
  shows "string_array_in haystack needle =
           Some (length (sa_list needle) \<le> length (sa_list haystack) \<and> set (sa_list needle) \<subseteq> set (sa_list haystack))"
proof -
  have "i + n = sa_count needle \<Longrightarrow>
      in_from haystack needle i n = Some (set (drop i (sa_list needle)) \<subseteq> set (sa_list haystack))" for i n
  proof (induction n arbitrary: i)
    case 0
    then show ?case using assms by simp
  next
    case (Suc n)
    then have "drop i (sa_list needle) = sa_list needle ! i # drop (Suc i) (sa_list needle)"
      using assms by (intro Cons_nth_drop_Suc [symmetric]) simp
    with Suc assms string_exists_list [OF assms(1)] show ?case
      by (auto simp: string_exists_def)
  qed
  from this [of 0 "sa_count needle"] show ?thesis
    using assms by (simp add: string_array_in_def)
qed

lemma length_xrealloc [simp]: "length (xrealloc cs n) = n"
  by (simp add: xrealloc_def)

lemma xrealloc_grow:
  assumes "n \<le> length cs"
  shows "\<exists>rest. length rest = k \<and> xrealloc cs (n + k) = take n cs @ rest"
proof (intro exI conjI)
  show "length (drop n (xrealloc cs (n + k))) = k" by simp
  have "take n (xrealloc cs (n + k)) = take n cs"
    using assms by (simp add: xrealloc_def min_def)
  then show "xrealloc cs (n + k) = take n cs @ drop n (xrealloc cs (n + k))"
    by (metis append_take_drop_id)
qed

lemma string_array_add_list:
  assumes "sa_wf sa"
  shows "\<exists>sa'. string_array_add sa (Str s) = Some sa' \<and> sa_wf sa' \<and> sa_list sa' = sa_list sa @ [s]"
proof -
  have len: "sa_count sa \<le> length (sa_strings sa)" using assms by (simp add: sa_wf_def)
  obtain rest where "length rest = 1" "xrealloc (sa_strings sa) (sa_count sa + 1) = take (sa_count sa) (sa_strings sa) @ rest"
    using xrealloc_grow [OF len] by blast
  then have "(xrealloc (sa_strings sa) (sa_count sa + 1))[sa_count sa := Str s] = map Str (sa_list sa) @ [Str s]"
    using assms by (cases rest) (auto simp: take_sa_wf list_update_append)
  then show ?thesis
    using assms by (auto simp: string_array_add_def sa_wf_def sa_list_def Let_def map_idI)
qed

lemma string_array_intersect_list:
  assumes "sa_wf src" "sa_wf dst"
  shows "\<exists>sa. string_array_intersect src dst = Some sa \<and> sa_wf sa
           \<and> sa_list sa = filter (\<lambda>s. s \<in> set (sa_list src)) (sa_list dst)"
proof -
  have "i + n = sa_count dst \<Longrightarrow> sa_wf acc \<Longrightarrow>
      \<exists>sa. intersect_from src dst i n acc = Some sa \<and> sa_wf sa
        \<and> sa_list sa = sa_list acc @ filter (\<lambda>s. s \<in> set (sa_list src)) (drop i (sa_list dst))" for i n acc
  proof (induction n arbitrary: i acc)
    case 0
    then show ?case using assms by simp
  next
    case (Suc n)
    then have d: "drop i (sa_list dst) = sa_list dst ! i # drop (Suc i) (sa_list dst)"
      using assms by (intro Cons_nth_drop_Suc [symmetric]) simp
    obtain acc' where acc': "string_array_add acc (Str (sa_list dst ! i)) = Some acc'" "sa_wf acc'"
      "sa_list acc' = sa_list acc @ [sa_list dst ! i]"
      using string_array_add_list [OF Suc.prems(2)] by blast
    show ?case
      using Suc.prems Suc.IH [of "Suc i" acc] Suc.IH [of "Suc i" acc'] acc' assms
      by (simp add: d string_exists_list)
  qed
  from this [of 0 "sa_count dst" NO_STRING] show ?thesis
    by (simp add: string_array_intersect_def NO_STRING_def sa_wf_def sa_list_def)
qed

lemma string_array_dup_list:
  assumes "sa_wf sa"
  shows "\<exists>sa'. string_array_dup (Some sa) = Some sa' \<and> sa_wf sa' \<and> sa_list sa' = sa_list sa"
proof -
  have "\<forall>c \<in> set (take n cs). \<exists>s. c = Str s \<Longrightarrow> n \<le> length cs \<Longrightarrow> dup_cells cs n = Some (take n cs)" for cs n
    by (induction cs n rule: dup_cells.induct) auto
  with assms show ?thesis
    by (auto simp: string_array_dup_def string_array_init_def sa_wf_def sa_list_def)
qed

text \<open>
  C31. On well-formed string arrays no function of the family reads a cell that holds no
  string, and each is its counterpart on lists of strings: equality, membership, append,
  intersection and copy. Inclusion also compares the lengths: a needle with more entries than the
  haystack, repeated ones included, is refused even when the haystack holds all its strings.
\<close>

theorem string_array_refines_list:
  assumes "sa_wf a" "sa_wf b"
  shows "string_array_eq a b = Some (sa_list a = sa_list b) \<and>
     string_exists a (Str s) = Some (s \<in> set (sa_list a)) \<and>
     string_array_in a b = Some (length (sa_list b) \<le> length (sa_list a) \<and> set (sa_list b) \<subseteq> set (sa_list a)) \<and>
     (\<exists>a'. string_array_add a (Str s) = Some a' \<and> sa_wf a' \<and> sa_list a' = sa_list a @ [s]) \<and>
     (\<exists>c. string_array_intersect a b = Some c \<and> sa_wf c \<and>
          sa_list c = filter (\<lambda>t. t \<in> set (sa_list a)) (sa_list b)) \<and>
     (\<exists>a'. string_array_dup (Some a) = Some a' \<and> sa_wf a' \<and> sa_list a' = sa_list a)"
  using assms string_array_eq_list string_exists_list string_array_in_list string_array_add_list
    string_array_intersect_list string_array_dup_list
  by simp

theorem string_array_refines_list_witness:
  "string_array_in (sa_of [''a'', ''b'']) (sa_of [''b'']) = Some True \<and>
   string_array_eq (sa_of [''a'', ''b'']) (sa_of [''b'']) = Some False"
  using string_array_refines_list [of "sa_of [''a'', ''b'']" "sa_of [''b'']" "''c''"] by simp

subsection \<open>Parsing a comma-separated list\<close>

lemma tokens_acc_plain: "CHR '','' \<notin> set t \<Longrightarrow> tokens_acc cur (t @ rest) = tokens_acc (cur @ t) rest"
  by (induction t arbitrary: cur) auto

fun join_comma :: "string list \<Rightarrow> string" where
  "join_comma [] = []"
| "join_comma [t] = t"
| "join_comma (t # ts) = t @ CHR '','' # join_comma ts"

lemma strtok_join:
  "\<forall>t \<in> set ts. t \<noteq> [] \<and> CHR '','' \<notin> set t \<Longrightarrow> strtok_comma (join_comma ts) = ts"
proof (induction ts rule: join_comma.induct)
  case 1
  then show ?case by (simp add: strtok_comma_def)
next
  case (2 t)
  then show ?case using tokens_acc_plain [of t "[]" "[]"] by (simp add: strtok_comma_def)
next
  case (3 t u us)
  then show ?case by (simp add: strtok_comma_def tokens_acc_plain)
qed

lemma enlarge_cells:
  assumes "sa_wf sa"
  shows "\<exists>rest. length rest = n \<and> enlarge sa n = map Str (sa_list sa) @ rest"
proof (cases "sa_count sa > 0")
  case True
  then show ?thesis
    using assms xrealloc_grow [of "sa_count sa" "sa_strings sa" n] take_sa_wf [OF assms]
    by (simp add: enlarge_def sa_wf_def)
next
  case False
  then show ?thesis by (simp add: enlarge_def sa_list_def)
qed

lemma fill_strings_fresh:
  "sa_strings sa = map Str xs @ rest \<Longrightarrow> sa_count sa = length xs \<Longrightarrow> length ts \<le> length rest \<Longrightarrow>
   distinct ts \<Longrightarrow> set ts \<inter> set xs = {} \<Longrightarrow>
   \<exists>sa'. fill_strings ts (length xs) sa = Some sa' \<and> sa_wf sa' \<and> sa_list sa' = xs @ ts"
proof (induction ts arbitrary: xs rest sa)
  case Nil
  then show ?case by (auto simp: sa_wf_def sa_list_def map_idI)
next
  case (Cons t ts)
  then obtain r rs where rest: "rest = r # rs" by (cases rest) auto
  let ?sa = "sa\<lparr>sa_strings := map Str (xs @ [t]) @ rs, sa_count := length (xs @ [t])\<rparr>"
  have "sa_wf sa" "sa_list sa = xs"
    using Cons.prems by (auto simp: sa_wf_def sa_list_def map_idI)
  then have "fill_strings (t # ts) (length xs) sa = fill_strings ts (length (xs @ [t])) ?sa"
    using Cons.prems rest
    by (simp add: string_exists_list list_update_append)
  moreover have "\<exists>sa'. fill_strings ts (length (xs @ [t])) ?sa = Some sa' \<and> sa_wf sa' \<and> sa_list sa' = (xs @ [t]) @ ts"
    using Cons.prems rest by (intro Cons.IH [of _ "xs @ [t]" rs]) auto
  ultimately show ?case by simp
qed

text \<open>Names that the array holds are skipped, the array does not change any more.\<close>

lemma fill_strings_known:
  "sa_wf sa \<Longrightarrow> set ts \<subseteq> set (sa_list sa) \<Longrightarrow> fill_strings ts i sa = Some sa"
  by (induction ts arbitrary: i) (simp_all add: string_exists_list)

lemma fill_strings_append:
  "fill_strings (ts @ us) i sa = Option.bind (fill_strings ts i sa) (fill_strings us (i + length ts))"
  by (induction ts arbitrary: i sa) (auto split: option.split)

text \<open>
  C32. Parsing a comma-separated list of names appends to the array exactly those it does not
  hold yet, as long as the list has its new names, each once, before the names that are already
  in the array or repeat a new one; these are skipped.
\<close>

theorem str2string_array_appends:
  assumes "sa_wf sa" "\<forall>t \<in> set (new @ known). t \<noteq> [] \<and> CHR '','' \<notin> set t"
    and new: "distinct new" "set new \<inter> set (sa_list sa) = {}" and known: "set known \<subseteq> set (sa_list sa) \<union> set new"
  shows "\<exists>sa'. str2string_array (Some (join_comma (new @ known))) sa = Some sa' \<and> sa_wf sa' \<and> sa_list sa' = sa_list sa @ new"
proof (cases "new @ known = []")
  case True
  then show ?thesis using assms by (simp add: str2string_array_def)
next
  case False
  let ?ts = "new @ known" and ?sa = "sa\<lparr>sa_strings := enlarge sa (length (new @ known))\<rparr>"
  have tok: "strtok_comma (join_comma ?ts) = ?ts" using assms(2) by (rule strtok_join)
  with False have "join_comma ?ts \<noteq> []" by (auto simp: strtok_comma_def)
  with False tok have run: "str2string_array (Some (join_comma ?ts)) sa = fill_strings ?ts (sa_count sa) ?sa"
    by (auto simp: str2string_array_def Let_def)
  obtain rest where rest: "length rest = length ?ts" "enlarge sa (length ?ts) = map Str (sa_list sa) @ rest"
    using enlarge_cells [OF assms(1)] by blast
  have "\<exists>sa'. fill_strings new (length (sa_list sa)) ?sa = Some sa' \<and> sa_wf sa' \<and> sa_list sa' = sa_list sa @ new"
    using rest new assms(1) by (intro fill_strings_fresh [of _ "sa_list sa" rest]) simp_all
  then obtain sa' where "fill_strings new (sa_count sa) ?sa = Some sa'" "sa_wf sa'" "sa_list sa' = sa_list sa @ new"
    using assms(1) by auto
  then show ?thesis using run known by (simp add: fill_strings_append fill_strings_known)
qed

theorem str2string_array_appends_witness:
  "\<exists>sa'. str2string_array (Some (join_comma ([''c'', ''d''] @ [''a'', ''c'']))) (sa_of [''a'', ''b'']) = Some sa' \<and> sa_wf sa' \<and>
     sa_list sa' = sa_list (sa_of [''a'', ''b'']) @ [''c'', ''d'']"
  by (rule str2string_array_appends) simp_all

text \<open>
  A repeated name leaves a hole: the index of the fill loop advances although nothing is
  stored, so the array of \<open>"a,a,b"\<close> has a NULL string among its first \<open>count\<close> entries and
  loses its last name, and with one more name the parser passes the NULL string to \<open>strcmp\<close>.
\<close>

theorem str2string_array_duplicate_hole:
  "str2string_array (Some ''a,a,b'') NO_STRING = Some \<lparr>sa_strings = [Str ''a'', Null, Str ''b''], sa_count = 2\<rparr> \<and>
   str2string_array (Some ''a,a,b,c'') NO_STRING = None"
  by (simp add: str2string_array_def strtok_comma_def NO_STRING_def string_exists_def sa_at_def enlarge_def
      eval_nat_numeral)

subsection \<open>The thread-safe queue\<close>

text \<open>
  What the threads of Phobos rely on: a queue denotes the list of the elements it holds, oldest
  first. The functions run under the mutex of the queue, so an execution of several threads is
  a sequence of operations.
\<close>

datatype 'a queue_op = Push 'a | Pop

text \<open>The results of the pops of an execution, in order; \<open>None\<close> is a pop that found nothing.\<close>

fun queue_run :: "('q \<Rightarrow> 'a \<Rightarrow> 'q) \<Rightarrow> ('q \<Rightarrow> 'a option \<times> 'q) \<Rightarrow> 'a queue_op list \<Rightarrow> 'q \<Rightarrow> 'a option list \<times> 'q" where
  "queue_run push pop [] q = ([], q)"
| "queue_run push pop (Push x # ops) q = queue_run push pop ops (push q x)"
| "queue_run push pop (Pop # ops) q =
     (let (r, q') = pop q; (out, q'') = queue_run push pop ops q' in (r # out, q''))"

text \<open>The same execution on a list, oldest element first.\<close>

fun fifo_run :: "'a queue_op list \<Rightarrow> 'a list \<Rightarrow> 'a option list \<times> 'a list" where
  "fifo_run [] xs = ([], xs)"
| "fifo_run (Push x # ops) xs = fifo_run ops (xs @ [x])"
| "fifo_run (Pop # ops) [] = (let (out, ys) = fifo_run ops [] in (None # out, ys))"
| "fifo_run (Pop # ops) (x # xs) = (let (out, ys) = fifo_run ops xs in (Some x # out, ys))"


locale fifo_queue =
  fixes push :: "'q \<Rightarrow> 'a \<Rightarrow> 'q"
    and pop :: "'q \<Rightarrow> 'a option \<times> 'q"
    and elems :: "'q \<Rightarrow> 'a list"
  assumes elems_push: "elems (push q x) = elems q @ [x]"
    and pop_empty: "elems q = [] \<Longrightarrow> fst (pop q) = None \<and> elems (snd (pop q)) = []"
    and pop_cons: "elems q = x # xs \<Longrightarrow> fst (pop q) = Some x \<and> elems (snd (pop q)) = xs"
begin

lemma run_refines:
  "fst (queue_run push pop ops q) = fst (fifo_run ops (elems q)) \<and>
   elems (snd (queue_run push pop ops q)) = snd (fifo_run ops (elems q))"
proof (induction ops arbitrary: q)
  case (Cons op ops)
  show ?case
  proof (cases op)
    case Pop
    then show ?thesis
      using pop_empty [of q] pop_cons [of q] Cons [of "snd (pop q)"]
      by (cases "elems q") (simp_all add: Let_def split_beta)
  qed (simp add: elems_push Cons)
qed simp

end

record 'a tsqueue =
  tsq_queue :: "'a list"


definition tsqueue_push :: "'a tsqueue \<Rightarrow> 'a \<Rightarrow> 'a tsqueue" where
  "tsqueue_push tsq data = tsq\<lparr>tsq_queue := data # tsq_queue tsq\<rparr>"

definition tsqueue_pop :: "'a tsqueue \<Rightarrow> 'a option \<times> 'a tsqueue" where
  "tsqueue_pop tsq =
     (if tsq_queue tsq = [] then (None, tsq)
      else (Some (last (tsq_queue tsq)), tsq\<lparr>tsq_queue := butlast (tsq_queue tsq)\<rparr>))"


definition tsqueue_elems :: "'a tsqueue \<Rightarrow> 'a list" where
  "tsqueue_elems tsq = rev (tsq_queue tsq)"

interpretation tsq: fifo_queue tsqueue_push tsqueue_pop tsqueue_elems
  by unfold_locales
    (auto simp: tsqueue_push_def tsqueue_pop_def tsqueue_elems_def rev_eq_Cons_iff)




subsection \<open>Copies of the core records\<close>

record timeval =
  tval_sec :: int
  tval_usec :: int

definition timeval_zero :: timeval where
  "timeval_zero = \<lparr>tval_sec = 0, tval_usec = 0\<rparr>"

record pho_lock =
  lk_hostname :: "string option"
  lk_owner :: int
  lk_timestamp :: timeval
  lk_last_locate :: timeval
  lk_is_weak :: bool

record pho_resource =
  rsc_id :: pho_id
  rsc_model :: "string option"
  rsc_adm_status :: rsc_adm_status

record dev_info =
  dev_rsc :: pho_resource
  dev_path :: "string option"
  dev_host :: "string option"
  dev_lock :: pho_lock
  dev_health :: size_t

record media_stats =
  nb_obj :: int
  logc_spc_used :: int
  phys_spc_used :: int
  phys_spc_free :: int
  nb_load :: int
  nb_errors :: int
  last_load :: int

record media_fs =
  mfs_type :: fs_type
  mfs_status :: fs_status
  mfs_label :: string

record operation_flags =
  op_put :: bool
  op_get :: bool
  op_delete :: bool

record media_info =
  med_rsc :: pho_resource
  med_addr_type :: address_type
  med_fs :: media_fs
  med_stats :: media_stats
  med_tags :: string_array
  med_lock :: pho_lock
  med_flags :: operation_flags
  med_health :: size_t
  med_groupings :: string_array

record object_info =
  obj_oid :: "string option"
  obj_uuid :: "string option"
  obj_version :: int
  obj_user_md :: "string option"
  obj_creation_time :: timeval
  obj_deprec_time :: timeval
  obj_grouping :: "string option"
  obj_size :: int

record copy_info =
  cp_object_uuid :: "string option"
  cp_version :: int
  cp_copy_name :: "string option"
  cp_copy_status :: copy_status
  cp_creation_time :: timeval
  cp_access_time :: timeval

definition init_pho_lock :: "string option \<Rightarrow> int \<Rightarrow> timeval \<Rightarrow> timeval \<Rightarrow> bool \<Rightarrow> pho_lock" where
  "init_pho_lock hostname owner timestamp last_locate is_weak =
     \<lparr>lk_hostname = hostname, lk_owner = owner, lk_timestamp = timestamp,
      lk_last_locate = last_locate, lk_is_weak = is_weak\<rparr>"

definition pho_lock_cpy :: "pho_lock \<Rightarrow> pho_lock" where
  "pho_lock_cpy src =
     \<lparr>lk_hostname = lk_hostname src, lk_owner = lk_owner src, lk_timestamp = lk_timestamp src,
      lk_last_locate = lk_last_locate src, lk_is_weak = lk_is_weak src\<rparr>"

definition pho_lock_clean :: "pho_lock option \<Rightarrow> pho_lock option" where
  "pho_lock_clean lock = map_option (\<lambda>l. l\<lparr>lk_hostname := None, lk_owner := 0\<rparr>) lock"

definition dev_info_cpy :: "dev_info \<Rightarrow> dev_info option \<Rightarrow> dev_info option" where
  "dev_info_cpy dst src =
     (case src of
        None \<Rightarrow> None
      | Some s \<Rightarrow>
          (case pho_id_copy (rsc_id (dev_rsc dst)) (rsc_id (dev_rsc s)) of
             None \<Rightarrow> None
           | Some i \<Rightarrow>
               Some (dst\<lparr>dev_rsc := \<lparr>rsc_id = i, rsc_model = rsc_model (dev_rsc s),
                                     rsc_adm_status = rsc_adm_status (dev_rsc s)\<rparr>,
                         dev_path := dev_path s, dev_host := dev_host s,
                         dev_lock := pho_lock_cpy (dev_lock s)\<rparr>)))"

text \<open>\<open>fresh\<close> is the content of the block \<open>xmalloc\<close> returns.\<close>

definition dev_info_dup :: "dev_info \<Rightarrow> dev_info option \<Rightarrow> dev_info option" where
  "dev_info_dup fresh dev = dev_info_cpy fresh dev"

definition media_info_copy :: "media_info \<Rightarrow> media_info option" where
  "media_info_copy src =
     (case string_array_dup (Some (med_tags src)) of
        None \<Rightarrow> None
      | Some tags \<Rightarrow>
          (case string_array_dup (Some (med_groupings src)) of
             None \<Rightarrow> None
           | Some groupings \<Rightarrow>
               Some (src\<lparr>med_tags := tags, med_lock := pho_lock_cpy (med_lock src),
                         med_groupings := groupings\<rparr>)))"

definition object_info_dup :: "object_info \<Rightarrow> object_info" where
  "object_info_dup obj =
     \<lparr>obj_oid = obj_oid obj, obj_uuid = obj_uuid obj, obj_version = obj_version obj,
      obj_user_md = obj_user_md obj, obj_creation_time = timeval_zero,
      obj_deprec_time = obj_deprec_time obj, obj_grouping = obj_grouping obj,
      obj_size = obj_size obj\<rparr>"

definition copy_info_dup :: "copy_info \<Rightarrow> copy_info" where
  "copy_info_dup copy =
     \<lparr>cp_object_uuid = cp_object_uuid copy, cp_version = cp_version copy,
      cp_copy_name = cp_copy_name copy, cp_copy_status = cp_copy_status copy,
      cp_creation_time = cp_creation_time copy, cp_access_time = timeval_zero\<rparr>"

lemma pho_lock_cpy_id [simp]: "pho_lock_cpy l = l"
  by (simp add: pho_lock_cpy_def)

lemma media_info_copy_wf:
  assumes "sa_wf (med_tags m)" "sa_wf (med_groupings m)"
  shows "\<exists>tags groupings. media_info_copy m = Some (m\<lparr>med_tags := tags, med_groupings := groupings\<rparr>)
     \<and> sa_wf tags \<and> sa_list tags = sa_list (med_tags m)
     \<and> sa_wf groupings \<and> sa_list groupings = sa_list (med_groupings m)"
proof -
  obtain tags groupings where
    dup: "string_array_dup (Some (med_tags m)) = Some tags" "string_array_dup (Some (med_groupings m)) = Some groupings"
    and ok: "sa_wf tags \<and> sa_list tags = sa_list (med_tags m)" "sa_wf groupings \<and> sa_list groupings = sa_list (med_groupings m)"
    using string_array_dup_list [OF assms(1)] string_array_dup_list [OF assms(2)] by blast
  from dup have "media_info_copy m = Some (m\<lparr>med_tags := tags, med_groupings := groupings\<rparr>)"
    by (simp add: media_info_copy_def)
  with ok show ?thesis by blast
qed

text \<open>
  The copies of the core records. A copied medium is the medium, its tags and groupings
  included. A copied device keeps the health of the destination, a duplicated object always
  has a null creation time and a duplicated copy a null access time; every other field is the
  one of the source.
\<close>

theorem core_record_copies:
  assumes "sa_wf (med_tags m)" "sa_wf (med_groupings m)" "pho_id_wf (rsc_id (dev_rsc d))"
  shows "(\<exists>tags groupings. media_info_copy m = Some (m\<lparr>med_tags := tags, med_groupings := groupings\<rparr>)
            \<and> sa_list tags = sa_list (med_tags m) \<and> sa_list groupings = sa_list (med_groupings m)) \<and>
     dev_info_dup fresh (Some d) = Some (d\<lparr>dev_health := dev_health fresh\<rparr>) \<and>
     object_info_dup obj = obj\<lparr>obj_creation_time := timeval_zero\<rparr> \<and>
     copy_info_dup copy = copy\<lparr>cp_access_time := timeval_zero\<rparr>"
proof (intro conjI)
  show "\<exists>tags groupings. media_info_copy m = Some (m\<lparr>med_tags := tags, med_groupings := groupings\<rparr>)
      \<and> sa_list tags = sa_list (med_tags m) \<and> sa_list groupings = sa_list (med_groupings m)"
    using media_info_copy_wf [OF assms(1,2)] by blast
  show "dev_info_dup fresh (Some d) = Some (d\<lparr>dev_health := dev_health fresh\<rparr>)"
    using pho_id_copy_wf [OF assms(3)] by (simp add: dev_info_dup_def dev_info_cpy_def)
qed (simp_all add: object_info_dup_def copy_info_dup_def)

definition sample_lock :: pho_lock where
  "sample_lock = init_pho_lock (Some ''host'') 1 timeval_zero timeval_zero False"

definition sample_rsc :: "string \<Rightarrow> pho_resource" where
  "sample_rsc nm = \<lparr>rsc_id = \<lparr>family = PHO_RSC_TAPE, name = nm, library = ''lib''\<rparr>,
     rsc_model = Some ''LTO8'', rsc_adm_status = PHO_RSC_ADM_ST_UNLOCKED\<rparr>"

definition sample_dev :: dev_info where
  "sample_dev = \<lparr>dev_rsc = sample_rsc ''drive'', dev_path = Some ''/dev/st0'', dev_host = Some ''host'',
     dev_lock = sample_lock, dev_health = 3\<rparr>"

definition sample_medium :: media_info where
  "sample_medium = \<lparr>med_rsc = sample_rsc ''tape'', med_addr_type = PHO_ADDR_HASH1,
     med_fs = \<lparr>mfs_type = PHO_FS_LTFS, mfs_status = PHO_FS_STATUS_EMPTY, mfs_label = ''tape''\<rparr>,
     med_stats = \<lparr>nb_obj = 0, logc_spc_used = 0, phys_spc_used = 0, phys_spc_free = 100, nb_load = 0,
                  nb_errors = 0, last_load = 0\<rparr>,
     med_tags = sa_of [''t''], med_lock = sample_lock,
     med_flags = \<lparr>op_put = True, op_get = True, op_delete = True\<rparr>, med_health = 5,
     med_groupings = sa_of []\<rparr>"

theorem core_record_copies_witness:
  "dev_info_dup (sample_dev\<lparr>dev_health := 9\<rparr>) (Some sample_dev) = Some (sample_dev\<lparr>dev_health := 9\<rparr>)"
  using core_record_copies [of sample_medium sample_dev "sample_dev\<lparr>dev_health := 9\<rparr>"]
  by (simp add: sample_medium_def sample_dev_def sample_rsc_def pho_id_wf_def PHO_URI_MAX_def)

end
