(* ===== verification/Pho_Cache.thy ===== *)
theory Pho_Cache
  imports Pho_Type_Utils "HOL-Library.Multiset"
begin

text \<open>
  The reference-counted cache of \<^verbatim>\<open>src/core/common/pho_cache.c\<close> and \<^verbatim>\<open>pho_ref.c\<close>, and the media
  cache the LRS builds on it (\<^verbatim>\<open>src/lrs/lrs_cache.c\<close>).

  A \<open>struct key_value\<close> is an allocated cell of a heap; its address stands for the value
  pointer handed to the callers. The two hash tables are maps: \<open>cache\<close> from keys, \<open>old_values\<close>
  from addresses. A failed assertion and a read of a freed cell have no result. Every
  function runs under the lock of the cache, so that threads interleave function by function,
  except that \<open>pho_cache_acquire\<close> drops the lock between its two lookups. The count of a reference is
  an \<^verbatim>\<open>_Atomic int\<close>, which wraps around at \<open>2 ^ 31\<close>: the runs considered are those in which no value is held
  \<open>2 ^ 31\<close> times at once.
\<close>

subsection \<open>The cache\<close>

type_synonym addr = nat

text \<open>The count is a 32-bit signed number.\<close>

record pho_ref =
  ref_count :: int
  ref_value :: addr

record ('k, 'v) pho_cache =
  pc_cache :: "'k \<rightharpoonup> pho_ref"
  pc_old_values :: "addr \<rightharpoonup> pho_ref"
  pc_heap :: "addr \<rightharpoonup> 'k \<times> 'v"
  pc_next :: addr

type_synonym ('k, 'v) build_op = "'k \<Rightarrow> ('k \<times> 'v) option option"

definition pho_ref_init :: "addr \<Rightarrow> pho_ref" where
  "pho_ref_init value = \<lparr>ref_count = 0, ref_value = value\<rparr>"

definition pho_ref_acquire :: "pho_ref \<Rightarrow> pho_ref" where
  "pho_ref_acquire ref = ref\<lparr>ref_count := c_int (ref_count ref + 1)\<rparr>"

definition pho_ref_release :: "pho_ref \<Rightarrow> pho_ref" where
  "pho_ref_release ref = ref\<lparr>ref_count := c_int (ref_count ref - 1)\<rparr>"

definition pho_cache_init :: "('k, 'v) pho_cache" where
  "pho_cache_init = \<lparr>pc_cache = Map.empty, pc_old_values = Map.empty, pc_heap = Map.empty, pc_next = 0\<rparr>"

definition key_value_alloc :: "'k \<times> 'v \<Rightarrow> ('k, 'v) pho_cache \<Rightarrow> addr \<times> ('k, 'v) pho_cache" where
  "key_value_alloc kv c =
     (pc_next c, c\<lparr>pc_heap := (pc_heap c)(pc_next c \<mapsto> kv), pc_next := pc_next c + 1\<rparr>)"

definition pco_destroy :: "addr \<Rightarrow> ('k, 'v) pho_cache \<Rightarrow> ('k, 'v) pho_cache" where
  "pco_destroy a c = c\<lparr>pc_heap := (pc_heap c)(a := None)\<rparr>"

definition old_cached_ref_remove :: "('k, 'v) pho_cache \<Rightarrow> pho_ref \<Rightarrow> ('k, 'v) pho_cache option" where
  "old_cached_ref_remove c ref =
     (if ref_count ref = 0 \<and> ref_value ref \<in> dom (pc_old_values c)
      then Some (pco_destroy (ref_value ref) (c\<lparr>pc_old_values := (pc_old_values c)(ref_value ref := None)\<rparr>))
      else None)"

definition cached_ref_remove :: "('k, 'v) pho_cache \<Rightarrow> pho_ref \<Rightarrow> ('k, 'v) pho_cache option" where
  "cached_ref_remove c ref =
     (case pc_heap c (ref_value ref) of
        None \<Rightarrow> None
      | Some (k, v) \<Rightarrow>
          if ref_count ref = 0 \<and> k \<in> dom (pc_cache c)
          then Some (pco_destroy (ref_value ref) (c\<lparr>pc_cache := (pc_cache c)(k := None)\<rparr>))
          else None)"

definition pho_cache_acquire_nolocked ::
  "('k, 'v) pho_cache \<Rightarrow> 'k \<Rightarrow> (addr \<times> ('k, 'v) pho_cache) option" where
  "pho_cache_acquire_nolocked c key =
     (case pc_cache c key of
        Some ref \<Rightarrow> Some (ref_value ref, c\<lparr>pc_cache := (pc_cache c)(key \<mapsto> pho_ref_acquire ref)\<rparr>)
      | None \<Rightarrow> None)"

text \<open>The part of \<open>pho_cache_acquire\<close> under the write lock, after a lookup that found nothing.\<close>

definition acquire_wrlocked ::
  "('k, 'v) build_op \<Rightarrow> ('k, 'v) pho_cache \<Rightarrow> 'k \<Rightarrow> (addr option \<times> ('k, 'v) pho_cache) option" where
  "acquire_wrlocked build c key =
     (case pho_cache_acquire_nolocked c key of
        Some (a, c') \<Rightarrow> Some (Some a, c')
      | None \<Rightarrow>
          (case build key of
             None \<Rightarrow> None
           | Some None \<Rightarrow> Some (None, c)
           | Some (Some kv) \<Rightarrow>
               let (a, c') = key_value_alloc kv c;
                   ref = pho_ref_acquire (pho_ref_init a)
               in Some (Some a, c'\<lparr>pc_cache := (pc_cache c')(fst kv \<mapsto> ref)\<rparr>)))"

definition pho_cache_acquire ::
  "('k, 'v) build_op \<Rightarrow> ('k, 'v) pho_cache \<Rightarrow> 'k \<Rightarrow> (addr option \<times> ('k, 'v) pho_cache) option" where
  "pho_cache_acquire build c key =
     (case pho_cache_acquire_nolocked c key of
        Some (a, c') \<Rightarrow> Some (Some a, c')
      | None \<Rightarrow> acquire_wrlocked build c key)"

definition pho_cache_insert_old :: "('k, 'v) pho_cache \<Rightarrow> pho_ref \<Rightarrow> ('k, 'v) pho_cache option" where
  "pho_cache_insert_old c ref =
     (case pc_heap c (ref_value ref) of
        None \<Rightarrow> None
      | Some (k, v) \<Rightarrow>
          if ref_count ref > 0 then
            let c' = c\<lparr>pc_old_values := (pc_old_values c)(ref_value ref \<mapsto> ref)\<rparr> in
            if k \<in> dom (pc_cache c') then Some (c'\<lparr>pc_cache := (pc_cache c')(k := None)\<rparr>) else None
          else cached_ref_remove c ref)"

definition pho_cache_insert_nolock ::
  "('k, 'v) pho_cache \<Rightarrow> 'k \<times> 'v \<Rightarrow> (addr \<times> ('k, 'v) pho_cache) option" where
  "pho_cache_insert_nolock c0 kv =
     (let (a, c) = key_value_alloc kv c0; k = fst kv; new = pho_ref_acquire (pho_ref_init a) in
      case pc_cache c k of
        None \<Rightarrow> Some (a, c\<lparr>pc_cache := (pc_cache c)(k \<mapsto> new)\<rparr>)
      | Some ref \<Rightarrow>
          (case pho_cache_insert_old c ref of
             None \<Rightarrow> None
           | Some c' \<Rightarrow>
               if k \<in> dom (pc_cache c') then None
               else Some (a, c'\<lparr>pc_cache := (pc_cache c')(k \<mapsto> new)\<rparr>)))"

definition pho_cache_insert ::
  "('k \<Rightarrow> 'v \<Rightarrow> ('k \<times> 'v) option option) \<Rightarrow> ('k, 'v) pho_cache \<Rightarrow> 'k \<Rightarrow> 'v \<Rightarrow> (addr option \<times> ('k, 'v) pho_cache) option" where
  "pho_cache_insert value2kv c key value =
     (case value2kv key value of
        None \<Rightarrow> None
      | Some None \<Rightarrow> Some (None, c)
      | Some (Some kv) \<Rightarrow> map_option (apfst Some) (pho_cache_insert_nolock c kv))"

definition pho_cache_update ::
  "('k, 'v) build_op \<Rightarrow> ('k, 'v) pho_cache \<Rightarrow> 'k \<Rightarrow> (addr option \<times> ('k, 'v) pho_cache) option" where
  "pho_cache_update build c key =
     (case build key of
        None \<Rightarrow> None
      | Some None \<Rightarrow> Some (None, c)
      | Some (Some kv) \<Rightarrow> map_option (apfst Some) (pho_cache_insert_nolock c kv))"

definition release_old :: "('k, 'v) pho_cache \<Rightarrow> addr \<Rightarrow> ('k, 'v) pho_cache option" where
  "release_old c value =
     (case pc_old_values c value of
        None \<Rightarrow> None
      | Some ref \<Rightarrow>
          if ref_count ref > 0 then
            let ref' = pho_ref_release ref; c' = c\<lparr>pc_old_values := (pc_old_values c)(value \<mapsto> ref')\<rparr> in
            if ref_count ref' = 0 then old_cached_ref_remove c' ref' else Some c'
          else None)"

definition pho_cache_release :: "('k, 'v) pho_cache \<Rightarrow> addr \<Rightarrow> ('k, 'v) pho_cache option" where
  "pho_cache_release c value =
     (case pc_heap c value of
        None \<Rightarrow> None
      | Some (k, v) \<Rightarrow>
          (case pc_cache c k of
             None \<Rightarrow> release_old c value
           | Some ref \<Rightarrow>
               if ref_value ref \<noteq> value then release_old c value
               else
                 let ref' = pho_ref_release ref; c' = c\<lparr>pc_cache := (pc_cache c)(k \<mapsto> ref')\<rparr> in
                 if ref_count ref' = 0 then cached_ref_remove c' ref' else Some c'))"

subsection \<open>Invariant\<close>

text \<open>
  \<open>H\<close> is the multiset of the value pointers the callers hold. Both tables count exactly the
  references held, every allocated value is in one of them, and what callers hold is allocated.
\<close>

definition cache_inv :: "('k, 'v) pho_cache \<Rightarrow> addr multiset \<Rightarrow> bool" where
  "cache_inv c H \<longleftrightarrow>
     (\<forall>k ref. pc_cache c k = Some ref \<longrightarrow>
        (\<exists>v. pc_heap c (ref_value ref) = Some (k, v)) \<and> ref_count ref = int (count H (ref_value ref)) \<and> ref_count ref > 0
        \<and> pc_old_values c (ref_value ref) = None) \<and>
     (\<forall>a ref. pc_old_values c a = Some ref \<longrightarrow>
        ref_value ref = a \<and> a \<in> dom (pc_heap c) \<and> ref_count ref = int (count H a) \<and> ref_count ref > 0) \<and>
     (\<forall>a \<in> dom (pc_heap c). a < pc_next c \<and> (a \<in> dom (pc_old_values c) \<or> (\<exists>k ref. pc_cache c k = Some ref \<and> ref_value ref = a))) \<and>
     set_mset H \<subseteq> dom (pc_heap c)"

definition few :: "addr multiset \<Rightarrow> bool" where
  "few H \<longleftrightarrow> (\<forall>a. count H a < 2 ^ 31)"

lemma few_count: "few H \<Longrightarrow> int (count H a) < 2 ^ 31"
  unfolding few_def by (metis of_nat_less_iff of_nat_numeral of_nat_power)

lemma pho_ref_acquire_new [simp]: "ref_count (pho_ref_acquire (pho_ref_init a)) = 1"
  by (simp add: pho_ref_acquire_def pho_ref_init_def c_int_def)

lemma pho_ref_acquire_few: "0 \<le> ref_count ref \<Longrightarrow> ref_count ref + 1 < 2 ^ 31 \<Longrightarrow> ref_count (pho_ref_acquire ref) = ref_count ref + 1"
  by (simp add: pho_ref_acquire_def c_int_exact)

lemma pho_ref_release_few: "0 < ref_count ref \<Longrightarrow> ref_count ref < 2 ^ 31 \<Longrightarrow> ref_count (pho_ref_release ref) = ref_count ref - 1"
  by (simp add: pho_ref_release_def c_int_exact)

lemma pho_ref_value [simp]: "ref_value (pho_ref_acquire ref) = ref_value ref" "ref_value (pho_ref_release ref) = ref_value ref" "ref_value (pho_ref_init a) = a"
  by (simp_all add: pho_ref_acquire_def pho_ref_release_def pho_ref_init_def)

text \<open>One acquisition too many makes the count negative.\<close>

lemma pho_ref_acquire_wraps: "ref_count ref = 2 ^ 31 - 1 \<Longrightarrow> ref_count (pho_ref_acquire ref) = - (2 ^ 31)"
  by (simp add: pho_ref_acquire_def c_int_def)

lemma cache_invI:
  assumes "\<And>k ref. pc_cache c k = Some ref \<Longrightarrow>
      (\<exists>v. pc_heap c (ref_value ref) = Some (k, v)) \<and> ref_count ref = int (count H (ref_value ref)) \<and> ref_count ref > 0
      \<and> pc_old_values c (ref_value ref) = None"
    and "\<And>a ref. pc_old_values c a = Some ref \<Longrightarrow>
      ref_value ref = a \<and> a \<in> dom (pc_heap c) \<and> ref_count ref = int (count H a) \<and> ref_count ref > 0"
    and "\<And>a. a \<in> dom (pc_heap c) \<Longrightarrow>
      a < pc_next c \<and> (a \<in> dom (pc_old_values c) \<or> (\<exists>k ref. pc_cache c k = Some ref \<and> ref_value ref = a))"
    and "set_mset H \<subseteq> dom (pc_heap c)"
  shows "cache_inv c H"
  unfolding cache_inv_def using assms by blast

lemma cache_inv_cached:
  assumes "cache_inv c H" "pc_cache c k = Some ref"
  shows "\<exists>v. pc_heap c (ref_value ref) = Some (k, v)" "ref_count ref = int (count H (ref_value ref))"
    "ref_count ref > 0" "pc_old_values c (ref_value ref) = None"
  using assms unfolding cache_inv_def by blast+

lemma cache_inv_old:
  assumes "cache_inv c H" "pc_old_values c a = Some ref"
  shows "ref_value ref = a" "a \<in> dom (pc_heap c)" "ref_count ref = int (count H a)" "ref_count ref > 0"
  using assms unfolding cache_inv_def by blast+

lemma cache_inv_alloc:
  assumes "cache_inv c H" "pc_heap c a = Some kv"
  shows "a < pc_next c" "a \<in> dom (pc_old_values c) \<or> (\<exists>k ref. pc_cache c k = Some ref \<and> ref_value ref = a)"
  using assms unfolding cache_inv_def by blast+

lemma cache_inv_held: "cache_inv c H \<Longrightarrow> a \<in># H \<Longrightarrow> \<exists>kv. pc_heap c a = Some kv"
  unfolding cache_inv_def by blast

text \<open>A key is cached at one address, and an address is the value of one key.\<close>

lemma cache_inv_inj:
  "cache_inv c H \<Longrightarrow> pc_cache c k = Some r \<Longrightarrow> pc_cache c k' = Some r' \<Longrightarrow> ref_value r = ref_value r' \<Longrightarrow> k = k'"
  using cache_inv_cached(1) [of c H k r] cache_inv_cached(1) [of c H k' r'] by auto

lemma cache_inv_fresh:
  assumes "cache_inv c H"
  shows "pc_heap c (pc_next c) = None" "count H (pc_next c) = 0" "pc_old_values c (pc_next c) = None"
    "pc_cache c k = Some r \<Longrightarrow> ref_value r \<noteq> pc_next c"
proof -
  show h: "pc_heap c (pc_next c) = None"
    using cache_inv_alloc(1) [OF assms] by (cases "pc_heap c (pc_next c)") auto
  show "count H (pc_next c) = 0"
    using cache_inv_held [OF assms, of "pc_next c"] h by (auto simp: count_eq_zero_iff)
  show "pc_old_values c (pc_next c) = None"
    using cache_inv_old(2) [OF assms, of "pc_next c"] h by (cases "pc_old_values c (pc_next c)") auto
  show "pc_cache c k = Some r \<Longrightarrow> ref_value r \<noteq> pc_next c"
    using cache_inv_cached(1) [OF assms, of k r] h by auto
qed

lemma cache_inv_init: "cache_inv pho_cache_init {#}"
  by (simp add: cache_inv_def pho_cache_init_def)

lemma acquire_nolocked_inv:
  assumes inv: "cache_inv c H" and few: "few (add_mset a H)" and acq: "pho_cache_acquire_nolocked c key = Some (a, c')"
  shows "cache_inv c' (add_mset a H)"
proof -
  from acq obtain ref where ref: "pc_cache c key = Some ref" "a = ref_value ref"
    and c': "c' = c\<lparr>pc_cache := (pc_cache c)(key \<mapsto> pho_ref_acquire ref)\<rparr>"
    by (auto simp: pho_cache_acquire_nolocked_def split: option.splits)
  show ?thesis
  proof (rule cache_invI)
    fix k r assume r: "pc_cache c' k = Some r"
    show "(\<exists>v. pc_heap c' (ref_value r) = Some (k, v)) \<and> ref_count r = int (count (add_mset a H) (ref_value r))
        \<and> ref_count r > 0 \<and> pc_old_values c' (ref_value r) = None"
    proof (cases "k = key")
      case True
      have "ref_count (pho_ref_acquire ref) = ref_count ref + 1"
        using cache_inv_cached [OF inv ref(1)] few_count [OF few, of a] ref(2) by (intro pho_ref_acquire_few) auto
      moreover have "r = pho_ref_acquire ref" using r True by (simp add: c')
      ultimately show ?thesis using True ref(2) cache_inv_cached [OF inv ref(1)] by (simp add: c')
    next
      case False
      then have k: "pc_cache c k = Some r" using r by (simp add: c')
      with False ref have "ref_value r \<noteq> a" using cache_inv_inj [OF inv k ref(1)] by auto
      then show ?thesis using cache_inv_cached [OF inv k] by (simp add: c')
    qed
  next
    fix b r assume "pc_old_values c' b = Some r"
    then have b: "pc_old_values c b = Some r" by (simp add: c')
    then have "b \<noteq> a" using cache_inv_cached(4) [OF inv ref(1)] ref by auto
    then show "ref_value r = b \<and> b \<in> dom (pc_heap c') \<and> ref_count r = int (count (add_mset a H) b) \<and> ref_count r > 0"
      using cache_inv_old [OF inv b] by (simp add: c')
  next
    fix b assume "b \<in> dom (pc_heap c')"
    then obtain kv where b: "pc_heap c b = Some kv" by (auto simp: c')
    have "\<exists>k' r'. pc_cache c' k' = Some r' \<and> ref_value r' = b" if "pc_cache c k = Some r" "ref_value r = b" for k r
    proof (cases "k = key")
      case True
      then show ?thesis using that ref by (intro exI [of _ key]) (simp add: c')
    next
      case False
      then show ?thesis using that by (intro exI [of _ k]) (simp add: c')
    qed
    moreover have "pc_next c' = pc_next c" "pc_old_values c' = pc_old_values c" by (simp_all add: c')
    ultimately show "b < pc_next c' \<and> (b \<in> dom (pc_old_values c') \<or> (\<exists>k r. pc_cache c' k = Some r \<and> ref_value r = b))"
      using cache_inv_alloc [OF inv b] by metis
  next
    show "set_mset (add_mset a H) \<subseteq> dom (pc_heap c')"
      using cache_inv_held [OF inv] cache_inv_cached(1) [OF inv ref(1)] ref by (auto simp: c')
  qed
qed

text \<open>A new value under a key that is not cached.\<close>

lemma new_value_inv:
  assumes inv: "cache_inv c H" and k: "pc_cache c k = None"
  shows "cache_inv (c\<lparr>pc_heap := (pc_heap c)(pc_next c \<mapsto> (k, v)), pc_next := pc_next c + 1,
                     pc_cache := (pc_cache c)(k \<mapsto> pho_ref_acquire (pho_ref_init (pc_next c)))\<rparr>)
          (add_mset (pc_next c) H)"
    (is "cache_inv ?c' ?H")
proof (rule cache_invI)
  fix k' r assume r: "pc_cache ?c' k' = Some r"
  show "(\<exists>v. pc_heap ?c' (ref_value r) = Some (k', v)) \<and> ref_count r = int (count ?H (ref_value r))
      \<and> ref_count r > 0 \<and> pc_old_values ?c' (ref_value r) = None"
  proof (cases "k' = k")
    case True
    then show ?thesis using r cache_inv_fresh [OF inv] by auto
  next
    case False
    then have k': "pc_cache c k' = Some r" using r by simp
    then show ?thesis using cache_inv_cached [OF inv k'] cache_inv_fresh(4) [OF inv k'] by auto
  qed
next
  fix b r assume "pc_old_values ?c' b = Some r"
  then have b: "pc_old_values c b = Some r" by simp
  then have "b \<noteq> pc_next c" using cache_inv_fresh(3) [OF inv] by auto
  then show "ref_value r = b \<and> b \<in> dom (pc_heap ?c') \<and> ref_count r = int (count ?H b) \<and> ref_count r > 0"
    using cache_inv_old [OF inv b] by auto
next
  fix b assume dom: "b \<in> dom (pc_heap ?c')"
  show "b < pc_next ?c' \<and> (b \<in> dom (pc_old_values ?c') \<or> (\<exists>k r. pc_cache ?c' k = Some r \<and> ref_value r = b))"
  proof (cases "b = pc_next c")
    case True
    then show ?thesis by auto
  next
    case False
    with dom obtain kv where b: "pc_heap c b = Some kv" by auto
    have "pc_cache ?c' k' = Some r" if "pc_cache c k' = Some r" for k' r
      using that k by auto
    then show ?thesis using cache_inv_alloc [OF inv b] by (simp del: fun_upd_apply) blast
  qed
next
  show "set_mset ?H \<subseteq> dom (pc_heap ?c')" using cache_inv_held [OF inv] by auto
qed

text \<open>Moving the current value of a key to the old values.\<close>

definition demote :: "('k, 'v) pho_cache \<Rightarrow> 'k \<Rightarrow> pho_ref \<Rightarrow> ('k, 'v) pho_cache" where
  "demote c k ref = c\<lparr>pc_old_values := (pc_old_values c)(ref_value ref \<mapsto> ref), pc_cache := (pc_cache c)(k := None)\<rparr>"

lemma demote_simps [simp]:
  "pc_cache (demote c k ref) = (pc_cache c)(k := None)" "pc_heap (demote c k ref) = pc_heap c"
  "pc_old_values (demote c k ref) = (pc_old_values c)(ref_value ref \<mapsto> ref)" "pc_next (demote c k ref) = pc_next c"
  by (simp_all add: demote_def)

lemma demote_inv:
  assumes inv: "cache_inv c H" and ref: "pc_cache c k = Some ref"
  shows "cache_inv (demote c k ref) H"
proof (rule cache_invI)
  fix k' r assume "pc_cache (demote c k ref) k' = Some r"
  then have k': "k' \<noteq> k" "pc_cache c k' = Some r" by (auto split: if_splits)
  then have "ref_value r \<noteq> ref_value ref" using cache_inv_inj [OF inv k'(2) ref] by auto
  then show "(\<exists>v. pc_heap (demote c k ref) (ref_value r) = Some (k', v)) \<and> ref_count r = int (count H (ref_value r))
      \<and> ref_count r > 0 \<and> pc_old_values (demote c k ref) (ref_value r) = None"
    using cache_inv_cached [OF inv k'(2)] by simp
next
  fix b r assume b: "pc_old_values (demote c k ref) b = Some r"
  show "ref_value r = b \<and> b \<in> dom (pc_heap (demote c k ref)) \<and> ref_count r = int (count H b) \<and> ref_count r > 0"
  proof (cases "b = ref_value ref")
    case True
    then show ?thesis using b cache_inv_cached [OF inv ref] by auto
  next
    case False
    then have "pc_old_values c b = Some r" using b by simp
    then show ?thesis using cache_inv_old [OF inv] by simp
  qed
next
  fix b assume "b \<in> dom (pc_heap (demote c k ref))"
  then obtain kv where b: "pc_heap c b = Some kv" by auto
  have "b = ref_value ref \<or> pc_cache (demote c k ref) k' = Some r" if "pc_cache c k' = Some r" "ref_value r = b" for k' r
    using that ref by (cases "k' = k") auto
  then show "b < pc_next (demote c k ref) \<and> (b \<in> dom (pc_old_values (demote c k ref))
      \<or> (\<exists>k' r. pc_cache (demote c k ref) k' = Some r \<and> ref_value r = b))"
    using cache_inv_alloc [OF inv b] by (simp del: fun_upd_apply) blast
next
  show "set_mset H \<subseteq> dom (pc_heap (demote c k ref))" using cache_inv_held [OF inv] by auto
qed

lemma insert_nolock_result:
  assumes inv: "cache_inv c H"
  shows "\<exists>c'. pho_cache_insert_nolock c (k, v) = Some (pc_next c, c') \<and> cache_inv c' (add_mset (pc_next c) H)
     \<and> pc_heap c' = (pc_heap c)(pc_next c \<mapsto> (k, v)) \<and> map_option ref_value (pc_cache c' k) = Some (pc_next c)"
proof (cases "pc_cache c k")
  case None
  then show ?thesis
    using new_value_inv [OF inv None, of v]
    by (simp add: pho_cache_insert_nolock_def key_value_alloc_def pho_ref_acquire_def pho_ref_init_def)
next
  case (Some ref)
  have "ref_count ref > 0" using cache_inv_cached(3) [OF inv Some] .
  moreover obtain v' where "pc_heap c (ref_value ref) = Some (k, v')" using cache_inv_cached(1) [OF inv Some] by blast
  moreover have "ref_value ref \<noteq> pc_next c" using cache_inv_fresh(4) [OF inv Some] .
  moreover have "pc_cache (demote c k ref) k = None" by simp
  ultimately show ?thesis
    using Some new_value_inv [OF demote_inv [OF inv Some], of k v]
    by (cases c) (auto simp: pho_cache_insert_nolock_def key_value_alloc_def pho_cache_insert_old_def demote_def Let_def
        pho_ref_acquire_def pho_ref_init_def)
qed

text \<open>Giving back a reference that is not the last one, then the last one.\<close>

lemma count_drop:
  "int (count (H - {#a#}) b) = (if a = b \<and> count H b > 0 then int (count H b) - 1 else int (count H b))"
  by (auto simp: of_nat_diff Suc_le_eq count_greater_zero_iff [symmetric] simp del: count_greater_zero_iff)

lemma decrement_old_inv:
  assumes inv: "cache_inv c H" and few: "few H" and a: "pc_old_values c a = Some ref" and more: "ref_count ref > 1"
  shows "cache_inv (c\<lparr>pc_old_values := (pc_old_values c)(a \<mapsto> pho_ref_release ref)\<rparr>) (H - {#a#})"
    (is "cache_inv ?c ?H")
proof (rule cache_invI)
  fix k r assume "pc_cache ?c k = Some r"
  then have k: "pc_cache c k = Some r" by simp
  then have "ref_value r \<noteq> a" using cache_inv_cached(4) [OF inv k] a by auto
  then show "(\<exists>v. pc_heap ?c (ref_value r) = Some (k, v)) \<and> ref_count r = int (count ?H (ref_value r))
      \<and> ref_count r > 0 \<and> pc_old_values ?c (ref_value r) = None"
    using cache_inv_cached [OF inv k] by (simp add: count_drop)
next
  fix b r assume b: "pc_old_values ?c b = Some r"
  show "ref_value r = b \<and> b \<in> dom (pc_heap ?c) \<and> ref_count r = int (count ?H b) \<and> ref_count r > 0"
  proof (cases "b = a")
    case True
    have "ref_count (pho_ref_release ref) = ref_count ref - 1"
      using more cache_inv_old [OF inv a] few_count [OF few, of a] by (intro pho_ref_release_few) auto
    moreover have "r = pho_ref_release ref" using b True by simp
    ultimately show ?thesis using True more cache_inv_old [OF inv a] by (auto simp: count_drop)
  next
    case False
    then have "pc_old_values c b = Some r" using b by simp
    from cache_inv_old [OF inv this] False show ?thesis by (simp add: count_drop)
  qed
next
  fix b assume "b \<in> dom (pc_heap ?c)"
  then obtain kv where b: "pc_heap c b = Some kv" by auto
  then show "b < pc_next ?c \<and> (b \<in> dom (pc_old_values ?c) \<or> (\<exists>k r. pc_cache ?c k = Some r \<and> ref_value r = b))"
    using cache_inv_alloc [OF inv b] by auto
next
  show "set_mset ?H \<subseteq> dom (pc_heap ?c)" using cache_inv_held [OF inv] by (auto dest: in_diffD)
qed

lemma remove_old_inv:
  assumes inv: "cache_inv c H" and a: "pc_old_values c a = Some ref" and last: "ref_count ref = 1"
  shows "cache_inv (c\<lparr>pc_old_values := (pc_old_values c)(a := None), pc_heap := (pc_heap c)(a := None)\<rparr>) (H - {#a#})"
    (is "cache_inv ?c ?H")
proof (rule cache_invI)
  fix k r assume "pc_cache ?c k = Some r"
  then have k: "pc_cache c k = Some r" by simp
  then have "ref_value r \<noteq> a" using cache_inv_cached(4) [OF inv k] a by auto
  then show "(\<exists>v. pc_heap ?c (ref_value r) = Some (k, v)) \<and> ref_count r = int (count ?H (ref_value r))
      \<and> ref_count r > 0 \<and> pc_old_values ?c (ref_value r) = None"
    using cache_inv_cached [OF inv k] by (simp add: count_drop)
next
  fix b r assume "pc_old_values ?c b = Some r"
  then have "b \<noteq> a" "pc_old_values c b = Some r" by (auto split: if_splits)
  from cache_inv_old [OF inv this(2)] this(1)
  show "ref_value r = b \<and> b \<in> dom (pc_heap ?c) \<and> ref_count r = int (count ?H b) \<and> ref_count r > 0"
    by (simp add: count_drop)
next
  fix b assume "b \<in> dom (pc_heap ?c)"
  then obtain kv where b: "pc_heap c b = Some kv" "b \<noteq> a" by (auto split: if_splits)
  then show "b < pc_next ?c \<and> (b \<in> dom (pc_old_values ?c) \<or> (\<exists>k r. pc_cache ?c k = Some r \<and> ref_value r = b))"
    using cache_inv_alloc [OF inv b(1)] by auto
next
  have "count H a = 1" using cache_inv_old(3) [OF inv a] last by simp
  then have "a \<notin># ?H" by (simp add: not_in_iff)
  then show "set_mset ?H \<subseteq> dom (pc_heap ?c)" using cache_inv_held [OF inv] by (auto dest: in_diffD)
qed

lemma decrement_cached_inv:
  assumes inv: "cache_inv c H" and few: "few H" and ref: "pc_cache c k = Some ref" and more: "ref_count ref > 1"
  shows "cache_inv (c\<lparr>pc_cache := (pc_cache c)(k \<mapsto> pho_ref_release ref)\<rparr>) (H - {#ref_value ref#})"
    (is "cache_inv ?c ?H")
proof (rule cache_invI)
  fix k' r assume r: "pc_cache ?c k' = Some r"
  show "(\<exists>v. pc_heap ?c (ref_value r) = Some (k', v)) \<and> ref_count r = int (count ?H (ref_value r))
      \<and> ref_count r > 0 \<and> pc_old_values ?c (ref_value r) = None"
  proof (cases "k' = k")
    case True
    have "ref_count (pho_ref_release ref) = ref_count ref - 1"
      using more cache_inv_cached [OF inv ref] few_count [OF few, of "ref_value ref"] by (intro pho_ref_release_few) auto
    moreover have "r = pho_ref_release ref" using r True by simp
    ultimately show ?thesis using True more cache_inv_cached [OF inv ref] by (simp add: count_drop)
  next
    case False
    then have k': "pc_cache c k' = Some r" using r by simp
    moreover have "ref_value ref \<noteq> ref_value r" using cache_inv_inj [OF inv ref k'] False by auto
    ultimately show ?thesis using cache_inv_cached [OF inv k'] by (simp add: count_drop)
  qed
next
  fix b r assume "pc_old_values ?c b = Some r"
  then have b: "pc_old_values c b = Some r" by simp
  then have "ref_value ref \<noteq> b" using cache_inv_cached(4) [OF inv ref] by auto
  then show "ref_value r = b \<and> b \<in> dom (pc_heap ?c) \<and> ref_count r = int (count ?H b) \<and> ref_count r > 0"
    using cache_inv_old [OF inv b] by (simp add: count_drop)
next
  fix b assume "b \<in> dom (pc_heap ?c)"
  then obtain kv where b: "pc_heap c b = Some kv" by auto
  have "\<exists>k' r'. pc_cache ?c k' = Some r' \<and> ref_value r' = b" if "pc_cache c k'' = Some r" "ref_value r = b" for k'' r
    using that ref by (intro exI [of _ k'']) auto
  then show "b < pc_next ?c \<and> (b \<in> dom (pc_old_values ?c) \<or> (\<exists>k r. pc_cache ?c k = Some r \<and> ref_value r = b))"
    using cache_inv_alloc [OF inv b] by (simp del: fun_upd_apply) blast
next
  show "set_mset ?H \<subseteq> dom (pc_heap ?c)" using cache_inv_held [OF inv] by (auto dest: in_diffD)
qed

lemma remove_cached_inv:
  assumes inv: "cache_inv c H" and ref: "pc_cache c k = Some ref" and last: "ref_count ref = 1"
  shows "cache_inv (c\<lparr>pc_cache := (pc_cache c)(k := None), pc_heap := (pc_heap c)(ref_value ref := None)\<rparr>)
           (H - {#ref_value ref#})"
proof -
  have "cache_inv (demote c k ref) H" using inv ref by (rule demote_inv)
  from remove_old_inv [OF this, of "ref_value ref" ref] last
  have "cache_inv ((demote c k ref)\<lparr>pc_old_values := (pc_old_values c)(ref_value ref := None),
            pc_heap := (pc_heap c)(ref_value ref := None)\<rparr>) (H - {#ref_value ref#})"
    by simp
  moreover have "(pc_old_values c)(ref_value ref := None) = pc_old_values c"
    using cache_inv_cached(4) [OF inv ref] by auto
  ultimately show ?thesis by (cases c) (simp add: demote_def)
qed

text \<open>Releasing a held reference always succeeds and frees the value exactly when it was the last one.\<close>

lemma release_result:
  assumes inv: "cache_inv c H" and few: "few H" and held: "a \<in># H"
  shows "\<exists>c'. pho_cache_release c a = Some c' \<and> cache_inv c' (H - {#a#})
     \<and> pc_heap c' = (if count H a = 1 then (pc_heap c)(a := None) else pc_heap c)"
proof -
  obtain k v where kv: "pc_heap c a = Some (k, v)" using cache_inv_held [OF inv held] by auto
  show ?thesis
  proof (cases "pc_old_values c a")
    case (Some ref)
    note old = cache_inv_old [OF inv Some]
    have "pho_cache_release c a = release_old c a"
      using kv Some cache_inv_cached(4) [OF inv, of k]
      by (auto simp: pho_cache_release_def split: option.splits)
    moreover have "ref_count ref = 1 \<or> ref_count ref > 1" using old(4) by linarith
    moreover have "ref_count (pho_ref_release ref) = ref_count ref - 1"
      using old few_count [OF few, of a] by (intro pho_ref_release_few) auto
    ultimately show ?thesis
      using Some old kv decrement_old_inv [OF inv few Some] remove_old_inv [OF inv Some]
      by (cases c) (auto simp: release_old_def old_cached_ref_remove_def pco_destroy_def Let_def)
  next
    case None
    then obtain ref where ref: "pc_cache c k = Some ref" "ref_value ref = a"
      using cache_inv_alloc(2) [OF inv kv] cache_inv_cached(1) [OF inv] kv by fastforce
    moreover have "ref_count ref = 1 \<or> ref_count ref > 1" using cache_inv_cached(3) [OF inv ref(1)] by linarith
    moreover have "ref_count (pho_ref_release ref) = ref_count ref - 1"
      using cache_inv_cached [OF inv ref(1)] few_count [OF few, of "ref_value ref"] by (intro pho_ref_release_few) auto
    ultimately show ?thesis
      using kv cache_inv_cached [OF inv ref(1)] decrement_cached_inv [OF inv few ref(1)] remove_cached_inv [OF inv ref(1)]
      by (cases c) (auto simp: pho_cache_release_def cached_ref_remove_def pco_destroy_def Let_def)
  qed
qed

subsection \<open>Callers that interleave\<close>

definition mset_option :: "'a option \<Rightarrow> 'a multiset" where
  "mset_option r = (case r of None \<Rightarrow> {#} | Some a \<Rightarrow> {#a#})"

lemma mset_option_simps [simp]: "mset_option None = {#}" "mset_option (Some a) = {#a#}"
  by (simp_all add: mset_option_def)

text \<open>
  What the cache asks of the \<open>pco_build\<close> operation: the key of the value built is the key
  asked for. \<open>pco_value2kv\<close> chooses its key freely, \<open>pho_cache_insert\<close> only uses that one.
\<close>

locale cache_operations =
  fixes build :: "('k, 'v) build_op"
  assumes build_key: "build k = Some (Some kv) \<Longrightarrow> fst kv = k"
begin

lemma acquire_wrlocked_inv:
  assumes inv: "cache_inv c H" and few: "few (H + mset_option res)" and run: "acquire_wrlocked build c key = Some (res, c')"
  shows "cache_inv c' (H + mset_option res) \<and> (\<forall>b \<in># H. pc_heap c' b = pc_heap c b)"
proof (cases "pho_cache_acquire_nolocked c key")
  case None
  then have "pc_cache c key = None" by (simp add: pho_cache_acquire_nolocked_def split: option.splits)
  moreover have "\<forall>b \<in># H. b \<noteq> pc_next c"
    using cache_inv_fresh(2) [OF inv] by (auto simp: count_eq_zero_iff)
  ultimately show ?thesis
    using None run inv new_value_inv [OF inv, of key] build_key [of key]
    by (auto simp: acquire_wrlocked_def key_value_alloc_def split: option.splits)
next
  case (Some r)
  then obtain a c1 where r: "pho_cache_acquire_nolocked c key = Some (a, c1)" by (cases r) auto
  then have "pc_heap c1 = pc_heap c"
    by (auto simp: pho_cache_acquire_nolocked_def split: option.splits)
  moreover have "res = Some a" "c' = c1" using r run by (auto simp: acquire_wrlocked_def)
  ultimately show ?thesis using acquire_nolocked_inv [OF inv _ r] few by simp
qed

end

text \<open>
  One step of a set of threads that share a cache. The operations may differ from step to
  step, since what \<open>pco_build\<close> returns depends on the database at that moment.
\<close>

inductive cache_step :: "('k, 'v) pho_cache \<times> addr multiset \<Rightarrow> ('k, 'v) pho_cache \<times> addr multiset \<Rightarrow> bool" where
  acquire_rd: "pho_cache_acquire_nolocked c key = Some (a, c') \<Longrightarrow> cache_step (c, H) (c', add_mset a H)"
| acquire_wr: "cache_operations build \<Longrightarrow> acquire_wrlocked build c key = Some (res, c') \<Longrightarrow>
    cache_step (c, H) (c', H + mset_option res)"
| insert: "pho_cache_insert value2kv c key val = Some (res, c') \<Longrightarrow> cache_step (c, H) (c', H + mset_option res)"
| update: "pho_cache_update build c key = Some (res, c') \<Longrightarrow> cache_step (c, H) (c', H + mset_option res)"
| release: "a \<in># H \<Longrightarrow> pho_cache_release c a = Some c' \<Longrightarrow> cache_step (c, H) (c', H - {#a#})"

text \<open>Runs in which no value is held \<open>2 ^ 31\<close> times at once.\<close>

inductive cache_reach :: "('k, 'v) pho_cache \<times> addr multiset \<Rightarrow> bool" where
  init: "cache_reach (pho_cache_init, {#})"
| step: "cache_reach s \<Longrightarrow> cache_step s s' \<Longrightarrow> few (snd s') \<Longrightarrow> cache_reach s'"

inductive_cases cache_stepE: "cache_step (c, H) s'"

lemma insert_nolock_step:
  assumes inv: "cache_inv c H" and run: "map_option (apfst Some) (pho_cache_insert_nolock c kv) = Some (res, c')"
  shows "cache_inv c' (H + mset_option res) \<and> (\<forall>b \<in># H. pc_heap c' b = pc_heap c b)"
proof -
  have "pc_next c \<notin># H" using cache_inv_fresh(2) [OF inv] by (simp add: not_in_iff)
  then show ?thesis
    using insert_nolock_result [OF inv, of "fst kv" "snd kv"] run by auto
qed

lemma cache_step_inv:
  assumes inv: "cache_inv c H" and few: "few H" "few H'" and step: "cache_step (c, H) (c', H')"
  shows "cache_inv c' H' \<and> (\<forall>b. b \<in># H \<and> b \<in># H' \<longrightarrow> pc_heap c' b = pc_heap c b)"
  using step
proof (cases rule: cache_step.cases)
  case (acquire_rd key a)
  then show ?thesis
    using acquire_nolocked_inv [OF inv] few(2)
    by (auto simp: pho_cache_acquire_nolocked_def split: option.splits)
next
  case (acquire_wr build key res)
  then show ?thesis using cache_operations.acquire_wrlocked_inv [OF _ inv] few(2) by auto
next
  case (insert value2kv key val res)
  then show ?thesis
    using inv insert_nolock_step [OF inv] by (auto simp: pho_cache_insert_def split: option.splits)
next
  case (update build key res)
  then show ?thesis
    using inv insert_nolock_step [OF inv] by (auto simp: pho_cache_update_def split: option.splits)
next
  case (release a)
  have "b \<in># H - {#a#} \<Longrightarrow> b = a \<Longrightarrow> count H a \<noteq> 1" for b by (auto simp: in_diff_count)
  with release show ?thesis using release_result [OF inv few(1), of a] by auto
qed

lemma cache_reach_inv: "cache_reach s \<Longrightarrow> cache_inv (fst s) (snd s) \<and> few (snd s)"
proof (induction rule: cache_reach.induct)
  case init
  then show ?case by (simp add: cache_inv_init) (simp add: few_def)
next
  case (step s s')
  then show ?case using cache_step_inv [of "fst s" "snd s" "snd s'" "fst s'"] by simp
qed

lemma cache_inv_live:
  assumes inv: "cache_inv c H"
  shows "a \<in># H \<longleftrightarrow> a \<in> dom (pc_heap c)"
proof
  assume "a \<in> dom (pc_heap c)"
  then obtain kv where "pc_heap c a = Some kv" by auto
  from cache_inv_alloc(2) [OF inv this] have "int (count H a) > 0"
    using cache_inv_old [OF inv, of a] cache_inv_cached [OF inv] by (metis domD)
  then show "a \<in># H" by simp
qed (use cache_inv_held [OF inv] in blast)

text \<open>
  C22. Reference counting is exact under every interleaving of acquisitions, insertions,
  updates and releases in which no value is held \<open>2 ^ 31\<close> times at once: the values allocated are those some caller holds, so no caller can
  read a freed value and no value outlives its last reference, and releasing a held value
  never trips an assertion.
\<close>

theorem cache_no_dangling_no_leak:
  assumes "cache_reach (c, H)"
  shows "(a \<in># H \<longleftrightarrow> a \<in> dom (pc_heap c)) \<and>
     (a \<in># H \<longrightarrow> (\<exists>c'. pho_cache_release c a = Some c' \<and> (a \<in> dom (pc_heap c') \<longleftrightarrow> count H a > 1)))"
proof -
  have inv: "cache_inv c H" "few H" using cache_reach_inv [OF assms] by simp_all
  have "\<exists>c'. pho_cache_release c a = Some c' \<and> (a \<in> dom (pc_heap c') \<longleftrightarrow> count H a > 1)" if held: "a \<in># H"
  proof -
    have "a \<in> dom (pc_heap c)" using held cache_inv_live [OF inv(1)] by blast
    moreover have "count H a = 1 \<or> count H a > 1"
      using held count_greater_zero_iff [of H a] by linarith
    ultimately show ?thesis using release_result [OF inv held] by (auto split: if_splits)
  qed
  then show ?thesis using cache_inv_live [OF inv(1)] by blast
qed

lemma cache_operations_const: "cache_operations (\<lambda>k. Some (Some (k, v)))"
  by unfold_locales auto

text \<open>Key 7 acquired with value 1, then updated to value 2 while the first reference is held.\<close>

definition sample_build :: "nat \<Rightarrow> (nat, nat) build_op" where
  "sample_build v k = Some (Some (k, v))"

definition sample_c1 :: "(nat, nat) pho_cache" where
  "sample_c1 = snd (the (acquire_wrlocked (sample_build 1) pho_cache_init 7))"

definition sample_c2 :: "(nat, nat) pho_cache" where
  "sample_c2 = snd (the (pho_cache_update (sample_build 2) sample_c1 7))"

lemmas sample_cache_defs = sample_c1_def sample_c2_def sample_build_def acquire_wrlocked_def
  pho_cache_acquire_nolocked_def pho_cache_init_def key_value_alloc_def pho_cache_update_def
  pho_cache_insert_nolock_def pho_cache_insert_old_def pho_ref_acquire_def pho_ref_init_def c_int_def Let_def

lemma sample_cache_runs:
  "cache_reach (sample_c1, {#0#})" "cache_step (sample_c1, {#0#}) (sample_c2, {#0, 1#})"
  "pc_heap sample_c2 0 = Some (7, 1)"
proof -
  have ops: "cache_operations (sample_build 1)"
    by unfold_locales (auto simp: sample_build_def)
  have "acquire_wrlocked (sample_build 1) pho_cache_init 7 = Some (Some 0, sample_c1)"
    by (simp add: sample_cache_defs)
  from cache_reach.step [OF cache_reach.init cache_step.acquire_wr [OF ops this]]
  show "cache_reach (sample_c1, {#0#})" by (simp add: few_def)
  have "pho_cache_update (sample_build 2) sample_c1 7 = Some (Some 1, sample_c2)"
    by (simp add: sample_cache_defs)
  from cache_step.update [OF this, of "{#0#}"]
  show "cache_step (sample_c1, {#0#}) (sample_c2, {#0, 1#})" by (simp add: add_mset_commute)
  show "pc_heap sample_c2 0 = Some (7, 1)" by (simp add: sample_cache_defs)
qed

theorem cache_no_dangling_no_leak_witness:
  "cache_reach (sample_c2, {#0, 1#}) \<and> (\<exists>c'. pho_cache_release sample_c2 0 = Some c' \<and> 0 \<notin> dom (pc_heap c'))"
proof -
  have r: "cache_reach (sample_c2, {#0, 1#})"
    using cache_reach.step [OF sample_cache_runs(1,2)] by (simp add: few_def)
  with cache_no_dangling_no_leak [OF r, of 0] show ?thesis by auto
qed

text \<open>
  C23. A value does not change while a caller holds it, whatever the others do in a run in
  which no value is held \<open>2 ^ 31\<close> times at once: an update of
  its key leaves the old value in place for its holders.
\<close>

theorem cache_values_stable:
  assumes "cache_reach (c, H)" "cache_step (c, H) (c', H')" "few H'" "a \<in># H" "a \<in># H'"
  shows "\<exists>kv. pc_heap c a = Some kv \<and> pc_heap c' a = Some kv"
  using cache_step_inv [OF _ _ assms(3,2)] cache_reach_inv [OF assms(1)] cache_inv_held [of c H a] assms(4,5) by auto

theorem cache_values_stable_witness:
  "\<exists>kv. pc_heap sample_c1 0 = Some kv \<and> pc_heap sample_c2 0 = Some kv"
  using cache_values_stable [OF sample_cache_runs(1,2), of 0] by (simp add: few_def)

text \<open>
  C24. After a successful update the key maps to the value just built: the next acquisition,
  with whatever build operation, returns the address the update returned without building,
  and every value that was held before, the old value of the key included, is unchanged.
\<close>

theorem cache_update_then_acquire:
  assumes "cache_reach (c, H)" "pho_cache_update build c key = Some (Some a, c')" "build key = Some (Some (key, v))"
  shows "pc_heap c' a = Some (key, v) \<and> (\<exists>c''. pho_cache_acquire build' c' key = Some (Some a, c'')) \<and>
    (\<forall>b \<in># H. b \<noteq> a \<and> pc_heap c' b = pc_heap c b \<and> pc_heap c b \<noteq> None)"
proof -
  have inv: "cache_inv c H" using cache_reach_inv [OF assms(1)] by simp
  have "\<forall>b \<in># H. b \<noteq> pc_next c \<and> pc_heap c b \<noteq> None"
    using cache_inv_fresh(2) [OF inv] cache_inv_held [OF inv] by (auto simp: count_eq_zero_iff)
  with insert_nolock_result [OF inv, of key v] assms(2,3) show ?thesis
    by (auto simp: pho_cache_update_def pho_cache_acquire_def pho_cache_acquire_nolocked_def)
qed

theorem cache_update_then_acquire_witness:
  "(\<exists>c''. pho_cache_acquire (\<lambda>k. None) sample_c2 7 = Some (Some 1, c'')) \<and> pc_heap sample_c2 0 = pc_heap sample_c1 0"
proof -
  have "pho_cache_update (sample_build 2) sample_c1 7 = Some (Some 1, sample_c2)"
    by (simp add: sample_cache_defs)
  from cache_update_then_acquire [OF sample_cache_runs(1) this] show ?thesis
    by (auto simp: sample_build_def)
qed

subsection \<open>The media cache of the LRS\<close>

text \<open>
  The database as the LRS sees it: the return code and the media of \<open>dss_media_get\<close> with the
  filter on family, name and library, and the return code and health of \<open>dss_medium_health\<close>.
  \<open>dss_filter_build\<close> fails on a family that has no name.
\<close>

record media_db =
  db_get_rc :: "pho_id \<Rightarrow> rc"
  db_media :: "media_info list"
  db_health :: "pho_id \<Rightarrow> rc \<times> size_t"

definition dss_media_get_id :: "media_db \<Rightarrow> pho_id \<Rightarrow> media_info list" where
  "dss_media_get_id db i = filter (\<lambda>m. pho_id_equal (rsc_id (med_rsc m)) i) (db_media db)"

definition kv_of_medium :: "media_info \<Rightarrow> (pho_id \<times> media_info) option option" where
  "kv_of_medium medium =
     (case media_info_copy medium of
        None \<Rightarrow> None
      | Some m \<Rightarrow> Some (Some (rsc_id (med_rsc m), m)))"

definition lrs_media_cache_build :: "media_db \<Rightarrow> (pho_id, media_info) build_op" where
  "lrs_media_cache_build db i =
     (if rsc_family2str (family i) = None then Some None
      else if db_get_rc db i \<noteq> 0 then Some None
      else
        (case dss_media_get_id db i of
           [] \<Rightarrow> Some None
         | [medium] \<Rightarrow>
             let (rc, health) = db_health db i in
             if rc \<noteq> 0 then Some None
             else kv_of_medium (medium\<lparr>med_health := health\<rparr>)
         | _ \<Rightarrow> None))"

definition lrs_media_cache_value2kv :: "pho_id \<Rightarrow> media_info \<Rightarrow> (pho_id \<times> media_info) option option" where
  "lrs_media_cache_value2kv key medium = kv_of_medium medium"

type_synonym lrs_context = "rsc_family \<Rightarrow> (pho_id, media_info) pho_cache"

text \<open>Running a cache operation on the cache of one family of the context.\<close>

definition on_family ::
  "rsc_family \<Rightarrow> lrs_context \<Rightarrow> ('r \<times> (pho_id, media_info) pho_cache) option \<Rightarrow> ('r \<times> lrs_context) option" where
  "on_family f ctx r = map_option (\<lambda>(res, c). (res, ctx(f := c))) r"

definition lrs_medium_acquire :: "media_db \<Rightarrow> lrs_context \<Rightarrow> pho_id \<Rightarrow> (addr option \<times> lrs_context) option" where
  "lrs_medium_acquire db ctx i =
     on_family (family i) ctx (pho_cache_acquire (lrs_media_cache_build db) (ctx (family i)) i)"

definition lrs_medium_update :: "media_db \<Rightarrow> lrs_context \<Rightarrow> pho_id \<Rightarrow> (addr option \<times> lrs_context) option" where
  "lrs_medium_update db ctx i =
     on_family (family i) ctx (pho_cache_update (lrs_media_cache_build db) (ctx (family i)) i)"

definition lrs_medium_insert :: "lrs_context \<Rightarrow> media_info \<Rightarrow> (addr option \<times> lrs_context) option" where
  "lrs_medium_insert ctx medium =
     (let i = rsc_id (med_rsc medium) in
      on_family (family i) ctx (pho_cache_insert lrs_media_cache_value2kv (ctx (family i)) i medium))"

text \<open>The caller passes a pointer into one of the caches; NULL is ignored.\<close>

definition lrs_medium_release :: "lrs_context \<Rightarrow> (rsc_family \<times> addr) option \<Rightarrow> lrs_context option" where
  "lrs_medium_release ctx m =
     (case m of
        None \<Rightarrow> Some ctx
      | Some (f, a) \<Rightarrow>
          (case pc_heap (ctx f) a of
             None \<Rightarrow> None
           | Some (i, medium) \<Rightarrow>
               let fam = family (rsc_id (med_rsc medium)) in
               map_option (\<lambda>c. ctx(fam := c)) (pho_cache_release (ctx fam) a)))"

lemma media_info_copy_rsc: "media_info_copy m = Some m' \<Longrightarrow> med_rsc m' = med_rsc m"
  by (auto simp: media_info_copy_def split: option.splits)

lemma kv_of_medium_id: "kv_of_medium m = Some (Some (i, m')) \<Longrightarrow> i = rsc_id (med_rsc m) \<and> rsc_id (med_rsc m') = i"
  by (auto simp: kv_of_medium_def dest!: media_info_copy_rsc split: option.splits)

lemma build_id:
  assumes "lrs_media_cache_build db i = Some (Some (i', m))"
  shows "i' = i \<and> rsc_id (med_rsc m) = i"
proof -
  consider "dss_media_get_id db i = []" | medium where "dss_media_get_id db i = [medium]"
    | m1 m2 ms where "dss_media_get_id db i = m1 # m2 # ms"
    by (metis neq_Nil_conv)
  then show ?thesis
  proof cases
    case (2 medium)
    then have "rsc_id (med_rsc medium) = i"
      using filter_is_subset [of "\<lambda>m. pho_id_equal (rsc_id (med_rsc m)) i" "db_media db"]
      by (metis (mono_tags, lifting) dss_media_get_id_def filter_eq_Cons_iff pho_id_equal_iff)
    moreover have "kv_of_medium (medium\<lparr>med_health := snd (db_health db i)\<rparr>) = Some (Some (i', m))"
      using assms 2 by (simp add: lrs_media_cache_build_def split_beta Let_def split: if_splits)
    ultimately show ?thesis using kv_of_medium_id by fastforce
  qed (use assms in \<open>simp_all add: lrs_media_cache_build_def split: if_splits\<close>)
qed

interpretation lrs_media: cache_operations "lrs_media_cache_build db" for db
  by unfold_locales (use build_id in force)

text \<open>Every value is stored under its own identifier, in the cache of its family.\<close>

definition lrs_filed :: "rsc_family \<Rightarrow> (pho_id, media_info) pho_cache \<Rightarrow> bool" where
  "lrs_filed f c \<longleftrightarrow> (\<forall>a i m. pc_heap c a = Some (i, m) \<longrightarrow> rsc_id (med_rsc m) = i \<and> family i = f)"

inductive lrs_reach :: "lrs_context \<Rightarrow> (rsc_family \<Rightarrow> addr multiset) \<Rightarrow> bool" where
  start: "lrs_reach (\<lambda>f. pho_cache_init) (\<lambda>f. {#})"
| acquire: "lrs_reach ctx H \<Longrightarrow> lrs_medium_acquire db ctx i = Some (res, ctx') \<Longrightarrow> few (H (family i) + mset_option res) \<Longrightarrow>
    lrs_reach ctx' (H(family i := H (family i) + mset_option res))"
| update: "lrs_reach ctx H \<Longrightarrow> lrs_medium_update db ctx i = Some (res, ctx') \<Longrightarrow> few (H (family i) + mset_option res) \<Longrightarrow>
    lrs_reach ctx' (H(family i := H (family i) + mset_option res))"
| insert: "lrs_reach ctx H \<Longrightarrow> lrs_medium_insert ctx m = Some (res, ctx') \<Longrightarrow> f = family (rsc_id (med_rsc m)) \<Longrightarrow>
    few (H f + mset_option res) \<Longrightarrow> lrs_reach ctx' (H(f := H f + mset_option res))"
| release: "lrs_reach ctx H \<Longrightarrow> a \<in># H f \<Longrightarrow> lrs_medium_release ctx (Some (f, a)) = Some ctx' \<Longrightarrow>
    lrs_reach ctx' (H(f := H f - {#a#}))"

lemma insert_nolock_filed:
  assumes "cache_inv c H" "lrs_filed f c" "rsc_id (med_rsc m) = i" "family i = f"
    "map_option (apfst Some) (pho_cache_insert_nolock c (i, m)) = Some (res, c')"
  shows "lrs_filed f c'"
  using insert_nolock_result [OF assms(1), of i m] assms(2-) by (auto simp: lrs_filed_def split: if_splits)

lemma acquire_filed:
  assumes "lrs_filed f c" "family i = f" "pho_cache_acquire (lrs_media_cache_build db) c i = Some (res, c')"
  shows "lrs_filed f c'"
  using assms
  by (auto simp: lrs_filed_def pho_cache_acquire_def acquire_wrlocked_def pho_cache_acquire_nolocked_def
      key_value_alloc_def dest!: build_id split: option.splits if_splits)

lemma acquire_inv:
  assumes "cache_inv c H" "few (H + mset_option res)" "pho_cache_acquire (lrs_media_cache_build db) c i = Some (res, c')"
  shows "cache_inv c' (H + mset_option res)"
  using assms(2,3) acquire_nolocked_inv [OF assms(1)] lrs_media.acquire_wrlocked_inv [OF assms(1,2)]
  by (auto simp: pho_cache_acquire_def split: option.splits)

lemma few_diff: "few H \<Longrightarrow> few (H - {#a#})"
  unfolding few_def by (metis diff_subset_eq_self le_less_trans mset_subset_eq_count)

lemma lrs_reach_inv: "lrs_reach ctx H \<Longrightarrow> cache_inv (ctx f) (H f) \<and> few (H f) \<and> lrs_filed f (ctx f)"
proof (induction arbitrary: f rule: lrs_reach.induct)
  case start
  then show ?case by (simp add: cache_inv_init) (simp add: lrs_filed_def pho_cache_init_def few_def)
next
  case (acquire ctx H db i res ctx')
  then obtain c where c: "pho_cache_acquire (lrs_media_cache_build db) (ctx (family i)) i = Some (res, c)"
    and ctx': "ctx' = ctx(family i := c)"
    by (auto simp: lrs_medium_acquire_def on_family_def)
  show ?case
    using acquire.IH [of f] acquire.IH [of "family i"] acquire_inv [OF _ acquire.hyps(3) c] acquire.hyps(3) acquire_filed [OF _ refl c]
    by (simp add: ctx')
next
  case (update ctx H db i res ctx')
  then obtain c where c: "pho_cache_update (lrs_media_cache_build db) (ctx (family i)) i = Some (res, c)"
    and ctx': "ctx' = ctx(family i := c)"
    by (auto simp: lrs_medium_update_def on_family_def)
  have IH: "cache_inv (ctx (family i)) (H (family i))" "lrs_filed (family i) (ctx (family i))"
    using update.IH by simp_all
  have "cache_inv c (H (family i) + mset_option res) \<and> lrs_filed (family i) c"
    using c IH insert_nolock_step [OF IH(1)] insert_nolock_filed [OF IH]
    by (auto simp: pho_cache_update_def dest!: build_id split: option.splits)
  then show ?case using update.IH [of f] update.hyps(3) by (simp add: ctx')
next
  case (insert ctx H m res ctx' g)
  then obtain c where c: "pho_cache_insert lrs_media_cache_value2kv (ctx g) (rsc_id (med_rsc m)) m = Some (res, c)"
    and ctx': "ctx' = ctx(g := c)"
    by (auto simp: lrs_medium_insert_def on_family_def Let_def)
  have IH: "cache_inv (ctx g) (H g)" "lrs_filed g (ctx g)" using insert.IH by simp_all
  have "cache_inv c (H g + mset_option res) \<and> lrs_filed g c"
    using c IH insert_nolock_step [OF IH(1)] insert_nolock_filed [OF IH] insert.hyps(3)
    by (auto simp: pho_cache_insert_def lrs_media_cache_value2kv_def dest!: kv_of_medium_id split: option.splits)
  then show ?case using insert.IH [of f] insert.hyps(4) by (simp add: ctx')
next
  case (release ctx H a g ctx')
  have IH: "cache_inv (ctx g) (H g)" "lrs_filed g (ctx g)" "few (H g)" using release.IH by simp_all
  obtain c where c: "pho_cache_release (ctx g) a = Some c" "cache_inv c (H g - {#a#})"
    "pc_heap c = (if count (H g) a = 1 then (pc_heap (ctx g))(a := None) else pc_heap (ctx g))"
    using release_result [OF IH(1,3) release.hyps(2)] by blast
  moreover have "ctx' = ctx(g := c)"
    using release.hyps(3) IH(2) c(1) by (auto simp: lrs_medium_release_def lrs_filed_def Let_def split: option.splits)
  moreover have "lrs_filed g c" using IH(2) c(3) by (auto simp: lrs_filed_def split: if_splits)
  ultimately show ?case using release.IH [of f] few_diff [OF IH(3)] by simp
qed

text \<open>
  C25. In every state the LRS reaches without holding a medium \<open>2 ^ 31\<close> times at once, a medium it holds is the medium of the cache of its own
  family stored under its own identifier, and releasing it succeeds and frees it exactly
  when this was the last reference.
\<close>

theorem lrs_media_cache_safe:
  assumes "lrs_reach ctx H" "a \<in># H f"
  shows "\<exists>i m. pc_heap (ctx f) a = Some (i, m) \<and> rsc_id (med_rsc m) = i \<and> family i = f \<and>
     (\<exists>ctx'. lrs_medium_release ctx (Some (f, a)) = Some ctx' \<and>
        (pc_heap (ctx' f) a = None \<longleftrightarrow> count (H f) a = 1))"
proof -
  have inv: "cache_inv (ctx f) (H f)" "lrs_filed f (ctx f)" "few (H f)" using lrs_reach_inv [OF assms(1)] by simp_all
  obtain i m where im: "pc_heap (ctx f) a = Some (i, m)" using cache_inv_held [OF inv(1) assms(2)] by auto
  then have filed: "rsc_id (med_rsc m) = i" "family i = f" using inv(2) by (auto simp: lrs_filed_def)
  obtain c where "pho_cache_release (ctx f) a = Some c"
    "pc_heap c = (if count (H f) a = 1 then (pc_heap (ctx f))(a := None) else pc_heap (ctx f))"
    using release_result [OF inv(1,3) assms(2)] by blast
  then show ?thesis using im filed by (simp add: lrs_medium_release_def Let_def)
qed

definition sample_db :: media_db where
  "sample_db = \<lparr>db_get_rc = \<lambda>i. 0, db_media = [sample_medium], db_health = \<lambda>i. (0, 4)\<rparr>"

theorem lrs_media_cache_safe_witness:
  "\<exists>ctx H. lrs_reach ctx H \<and> 0 \<in># H PHO_RSC_TAPE \<and>
     (\<exists>m. pc_heap (ctx PHO_RSC_TAPE) 0 = Some (rsc_id (med_rsc sample_medium), m))"
proof -
  let ?i = "rsc_id (med_rsc sample_medium)"
  have "\<exists>ctx'. lrs_medium_acquire sample_db (\<lambda>f. pho_cache_init) ?i = Some (Some 0, ctx') \<and>
      pc_heap (ctx' PHO_RSC_TAPE) 0 \<noteq> None \<and> (\<forall>k m. pc_heap (ctx' PHO_RSC_TAPE) 0 = Some (k, m) \<longrightarrow> k = ?i)"
    by (auto simp: lrs_medium_acquire_def on_family_def pho_cache_acquire_def acquire_wrlocked_def
        pho_cache_acquire_nolocked_def pho_cache_init_def lrs_media_cache_build_def sample_db_def
        dss_media_get_id_def kv_of_medium_def media_info_copy_def string_array_dup_def string_array_init_def
        sample_medium_def sample_rsc_def sa_of_def key_value_alloc_def rsc_family2str_def rsc_family_names_def)
  then obtain ctx' where ctx': "lrs_medium_acquire sample_db (\<lambda>f. pho_cache_init) ?i = Some (Some 0, ctx')"
    "\<forall>k m. pc_heap (ctx' PHO_RSC_TAPE) 0 = Some (k, m) \<longrightarrow> k = ?i" by blast
  have fam: "family ?i = PHO_RSC_TAPE" by (simp add: sample_medium_def sample_rsc_def)
  have reach: "lrs_reach ctx' ((\<lambda>f. {#})(PHO_RSC_TAPE := {#0#}))"
    using lrs_reach.acquire [OF lrs_reach.start ctx'(1)] by (simp add: fam few_def)
  moreover have "0 \<in># ((\<lambda>f. {#})(PHO_RSC_TAPE := {#0#})) PHO_RSC_TAPE" by simp
  ultimately show ?thesis using lrs_media_cache_safe [OF reach, of 0 PHO_RSC_TAPE] ctx'(2) by fastforce
qed

end
