(* ===== verification/Io_Adapter.thy ===== *)
theory Io_Adapter
  imports Pho_Common
begin

text \<open>
  The POSIX input/output adapter, from \<^verbatim>\<open>src/io-modules/io_posix_common.c\<close>, and the block sizes
  of \<^verbatim>\<open>src/io/io.c\<close>.

  A file descriptor carries the content of the file, its position and the behaviour of the
  operating system: for every future call of \<open>write\<close> or \<open>read\<close>, an error, a full transfer or a
  transfer of at most some number of bytes. The loops of the adapter are total functions for
  every such behaviour.

  The layouts use an adapter through the locales \<open>io_writer\<close> and \<open>io_reader\<close>: a write that
  returns 0 has appended its buffer, and a read that does not fail has stored the next bytes.
\<close>

subsection \<open>File descriptors\<close>

datatype os_res = OsErr nat | OsFull | OsPart nat

record posix_fd =
  fd_data :: "byte list"
  fd_pos :: nat
  fd_os :: "nat \<Rightarrow> os_res"
  fd_calls :: nat

text \<open>The result of one system call: \<open>None\<close> is a failure with the errno, otherwise the size granted.\<close>

definition os_grant :: "os_res \<Rightarrow> nat \<Rightarrow> nat + nat" where
  "os_grant r n = (case r of OsErr e \<Rightarrow> Inl e | OsFull \<Rightarrow> Inr n | OsPart m \<Rightarrow> Inr (min m n))"

definition file_overlay :: "byte list \<Rightarrow> nat \<Rightarrow> byte list \<Rightarrow> byte list" where
  "file_overlay data pos bs =
     take pos (data @ replicate (pos - length data) 0) @ bs @ drop (pos + length bs) data"

definition os_write :: "posix_fd \<Rightarrow> byte list \<Rightarrow> (nat + nat) \<times> posix_fd" where
  "os_write fd buf =
     (case os_grant (fd_os fd (fd_calls fd)) (length buf) of
        Inl e \<Rightarrow> (Inl e, fd\<lparr>fd_calls := fd_calls fd + 1\<rparr>)
      | Inr n \<Rightarrow> (Inr n, fd\<lparr>fd_calls := fd_calls fd + 1, fd_pos := fd_pos fd + n,
                              fd_data := file_overlay (fd_data fd) (fd_pos fd) (take n buf)\<rparr>))"

definition os_read :: "posix_fd \<Rightarrow> nat \<Rightarrow> (nat + byte list) \<times> posix_fd" where
  "os_read fd count =
     (case os_grant (fd_os fd (fd_calls fd)) count of
        Inl e \<Rightarrow> (Inl e, fd\<lparr>fd_calls := fd_calls fd + 1\<rparr>)
      | Inr n \<Rightarrow>
          let bs = take n (drop (fd_pos fd) (fd_data fd)) in
          (Inr bs, fd\<lparr>fd_calls := fd_calls fd + 1, fd_pos := fd_pos fd + length bs\<rparr>))"

subsection \<open>The loops of the adapter\<close>

definition MAX_NULL_WRITE_TRY :: nat where
  "MAX_NULL_WRITE_TRY = 10"

definition MAX_NULL_READ_TRY :: nat where
  "MAX_NULL_READ_TRY = 10"

text \<open>\<open>buf\<close> is the part of the buffer that is not written yet.\<close>

function posix_write_loop :: "posix_fd \<Rightarrow> byte list \<Rightarrow> nat \<Rightarrow> rc \<times> posix_fd" where
  "posix_write_loop fd buf nb_null_try =
     (if buf = [] then (0, fd)
      else
        (case os_write fd buf of
           (Inl e, fd') \<Rightarrow> (- int e, fd')
         | (Inr n, fd') \<Rightarrow>
             if n = 0 then
               if nb_null_try + 1 > MAX_NULL_WRITE_TRY then (- EIO, fd')
               else posix_write_loop fd' buf (nb_null_try + 1)
             else posix_write_loop fd' (drop n buf) nb_null_try))"
  by auto
termination
  by (relation "measures [\<lambda>(fd, buf, t). length buf, \<lambda>(fd, buf, t). MAX_NULL_WRITE_TRY + 1 - t]")
    (auto simp: os_write_def)

definition pho_posix_write :: "posix_fd \<Rightarrow> byte list \<Rightarrow> rc \<times> posix_fd" where
  "pho_posix_write fd buf = posix_write_loop fd buf 0"

text \<open>
  Every call of \<open>read\<close> stores its bytes at the start of the caller's buffer, of which \<open>buf\<close> is
  the part stored so far.
\<close>

definition store_at_start :: "byte list \<Rightarrow> byte list \<Rightarrow> byte list" where
  "store_at_start buf bs = bs @ drop (length bs) buf"

function posix_read_loop :: "posix_fd \<Rightarrow> byte list \<Rightarrow> nat \<Rightarrow> nat \<Rightarrow> nat \<Rightarrow> (int \<times> byte list) \<times> posix_fd" where
  "posix_read_loop fd buf count nb_read_bytes nb_null_try =
     (if count = 0 then ((int nb_read_bytes, buf), fd)
      else
        (case os_read fd count of
           (Inl e, fd') \<Rightarrow> ((- int e, buf), fd')
         | (Inr bs, fd') \<Rightarrow>
             if bs = [] then
               if nb_null_try + 1 > MAX_NULL_READ_TRY then ((int nb_read_bytes, buf), fd')
               else posix_read_loop fd' buf count nb_read_bytes (nb_null_try + 1)
             else posix_read_loop fd' (store_at_start buf bs) (count - length bs) (nb_read_bytes + length bs) nb_null_try))"
  by auto
termination
  by (relation "measures [\<lambda>(fd, buf, c, r, t). c, \<lambda>(fd, buf, c, r, t). MAX_NULL_READ_TRY + 1 - t]")
    (auto simp: os_read_def Let_def split: sum.splits)

definition pho_posix_read :: "posix_fd \<Rightarrow> nat \<Rightarrow> (int \<times> byte list) \<times> posix_fd" where
  "pho_posix_read fd count = posix_read_loop fd [] count 0 0"

declare posix_write_loop.simps [simp del] posix_read_loop.simps [simp del]

subsection \<open>What the layouts rely on\<close>

locale io_writer =
  fixes io_write :: "'f \<Rightarrow> byte list \<Rightarrow> rc \<times> 'f"
    and written :: "'f \<Rightarrow> byte list"
    and writable :: "'f \<Rightarrow> bool"
  assumes write_writable: "writable f \<Longrightarrow> io_write f bs = (rc, f') \<Longrightarrow> writable f'"
    and write_rc: "writable f \<Longrightarrow> io_write f bs = (rc, f') \<Longrightarrow> rc \<le> 0"
    and write_appends: "writable f \<Longrightarrow> io_write f bs = (0, f') \<Longrightarrow> written f' = written f @ bs"

locale io_reader =
  fixes io_read :: "'f \<Rightarrow> nat \<Rightarrow> (int \<times> byte list) \<times> 'f"
    and unread :: "'f \<Rightarrow> byte list"
    and readable :: "'f \<Rightarrow> bool"
  assumes read_readable: "readable f \<Longrightarrow> io_read f n = ((r, bs), f') \<Longrightarrow> readable f'"
    and read_bounded: "readable f \<Longrightarrow> io_read f n = ((r, bs), f') \<Longrightarrow> length bs \<le> n"
    and read_next: "readable f \<Longrightarrow> io_read f n = ((r, bs), f') \<Longrightarrow> 0 \<le> r \<Longrightarrow>
      r = int (length bs) \<and> bs = take n (unread f) \<and> unread f' = drop n (unread f)"

text \<open>Positive error numbers, and a position at the end of the file: how extents are written.\<close>

definition posix_writable :: "posix_fd \<Rightarrow> bool" where
  "posix_writable fd \<longleftrightarrow> fd_pos fd = length (fd_data fd) \<and> (\<forall>i. fd_os fd i \<noteq> OsErr 0)"

text \<open>No partial read: a call that succeeds returns all that was asked up to the end of the file.\<close>

definition posix_readable :: "posix_fd \<Rightarrow> bool" where
  "posix_readable fd \<longleftrightarrow> (\<forall>i. fd_os fd i \<noteq> OsErr 0 \<and> (\<forall>m. fd_os fd i \<noteq> OsPart m))"

definition posix_unread :: "posix_fd \<Rightarrow> byte list" where
  "posix_unread fd = drop (fd_pos fd) (fd_data fd)"

lemma os_write_append:
  assumes "posix_writable fd" "os_write fd buf = (r, fd')"
  shows "posix_writable fd' \<and>
    (case r of Inl e \<Rightarrow> e \<noteq> 0 | Inr n \<Rightarrow> n \<le> length buf \<and> fd_data fd' = fd_data fd @ take n buf)"
  using assms
  by (auto simp: os_write_def os_grant_def posix_writable_def file_overlay_def split: os_res.splits sum.splits)
    (metis neq0_conv)

lemma posix_write_loop_spec:
  "posix_writable fd \<Longrightarrow> posix_write_loop fd buf t = (rc, fd') \<Longrightarrow>
     posix_writable fd' \<and> rc \<le> 0 \<and> (rc = 0 \<longrightarrow> fd_data fd' = fd_data fd @ buf)"
proof (induction fd buf t arbitrary: fd' rc rule: posix_write_loop.induct)
  case (1 fd buf t)
  show ?case
  proof (cases "buf = []")
    case True
    then show ?thesis using "1.prems" by (simp add: posix_write_loop.simps [of fd])
  next
    case False
    obtain r fd1 where w: "os_write fd buf = (r, fd1)" by (cases "os_write fd buf")
    note step = os_write_append [OF "1.prems"(1) w]
    show ?thesis
    proof (cases r)
      case (Inl e)
      with "1.prems"(2) False w have "rc = - int e" "fd' = fd1" by (simp_all add: posix_write_loop.simps [of fd])
      then show ?thesis using step Inl by simp
    next
      case (Inr n)
      note w = w [unfolded Inr]
      show ?thesis
      proof (cases "n = 0")
        case True
        then have rest: "fd_data fd1 = fd_data fd" "posix_writable fd1" using step Inr by simp_all
        show ?thesis
        proof (cases "t + 1 > MAX_NULL_WRITE_TRY")
          case full: True
          then have "rc = - EIO" "fd' = fd1"
            using "1.prems"(2) False w True by (simp_all add: posix_write_loop.simps [of fd])
          then show ?thesis using rest by simp
        next
          case again: False
          then have "posix_write_loop fd1 buf (t + 1) = (rc, fd')"
            using "1.prems"(2) False w True by (simp add: posix_write_loop.simps [of fd])
          then have "posix_writable fd' \<and> rc \<le> 0 \<and> (rc = 0 \<longrightarrow> fd_data fd' = fd_data fd1 @ buf)"
            by (intro "1.IH"(1) [OF False w [symmetric] refl True again rest(2)])
          then show ?thesis by (simp add: rest(1))
        qed
      next
        case n: False
        then have "posix_write_loop fd1 (drop n buf) t = (rc, fd')"
          using "1.prems"(2) False w by (simp add: posix_write_loop.simps [of fd])
        moreover have wr: "posix_writable fd1" "fd_data fd1 = fd_data fd @ take n buf" using step Inr by simp_all
        ultimately have "posix_writable fd' \<and> rc \<le> 0 \<and> (rc = 0 \<longrightarrow> fd_data fd' = fd_data fd1 @ drop n buf)"
          by (intro "1.IH"(2) [OF False w [symmetric] refl n])
        then show ?thesis by (simp add: wr(2))
      qed
    qed
  qed
qed

interpretation posix_w: io_writer pho_posix_write fd_data posix_writable
  by unfold_locales (unfold pho_posix_write_def, (drule (1) posix_write_loop_spec, simp)+)
lemma os_read_full:
  assumes "posix_readable fd" "os_read fd n = (r, fd')"
  shows "posix_readable fd' \<and>
    (case r of Inl e \<Rightarrow> e \<noteq> 0 | Inr bs \<Rightarrow> bs = take n (posix_unread fd) \<and> posix_unread fd' = drop n (posix_unread fd))"
  using assms
  by (auto simp: os_read_def os_grant_def posix_readable_def posix_unread_def Let_def min_def add.commute
      split: os_res.splits sum.splits) (metis neq0_conv)

text \<open>At the end of the file the loop gives up without storing anything more.\<close>

lemma posix_read_loop_eof:
  "posix_readable fd \<Longrightarrow> posix_unread fd = [] \<Longrightarrow> posix_read_loop fd buf n k t = ((r, bs), fd') \<Longrightarrow>
     posix_readable fd' \<and> (0 \<le> r \<longrightarrow> r = int k \<and> bs = buf \<and> posix_unread fd' = [])"
proof (induction fd buf n k t arbitrary: fd' r bs rule: posix_read_loop.induct)
  case (1 fd buf n k t)
  show ?case
  proof (cases "n = 0")
    case True
    then show ?thesis using "1.prems" by (simp add: posix_read_loop.simps [of fd])
  next
    case False
    obtain res fd1 where w: "os_read fd n = (res, fd1)" by (cases "os_read fd n")
    note step = os_read_full [OF "1.prems"(1) w]
    show ?thesis
    proof (cases res)
      case (Inl e)
      with "1.prems"(3) False w have "r = - int e" "fd' = fd1" by (simp_all add: posix_read_loop.simps [of fd])
      then show ?thesis using step Inl by simp
    next
      case (Inr bs')
      then have bs': "bs' = []" "posix_unread fd1 = []" "posix_readable fd1"
        using step "1.prems"(2) by simp_all
      note w = w [unfolded Inr]
      show ?thesis
      proof (cases "t + 1 > MAX_NULL_READ_TRY")
        case True
        then have "r = int k" "bs = buf" "fd' = fd1"
          using "1.prems"(3) False w bs' by (simp_all add: posix_read_loop.simps [of fd])
        then show ?thesis using bs' by simp
      next
        case again: False
        then have "posix_read_loop fd1 buf n k (t + 1) = ((r, bs), fd')"
          using "1.prems"(3) False w bs' by (simp add: posix_read_loop.simps [of fd])
        then show ?thesis by (intro "1.IH"(1) [OF False w [symmetric] refl bs'(1) again bs'(3,2)])
      qed
    qed
  qed
qed

lemma pho_posix_read_spec:
  assumes rd: "posix_readable fd" and run: "pho_posix_read fd n = ((r, bs), fd')"
  shows "posix_readable fd' \<and> (0 \<le> r \<longrightarrow>
     r = int (length bs) \<and> bs = take n (posix_unread fd) \<and> posix_unread fd' = drop n (posix_unread fd))"
proof (cases "n = 0 \<or> posix_unread fd = []")
  case True
  have loop: "posix_read_loop fd [] n 0 0 = ((r, bs), fd')" using run by (simp add: pho_posix_read_def)
  show ?thesis
  proof (cases "n = 0")
    case True
    with loop have "((r, bs), fd') = ((0, []), fd)" by (simp add: posix_read_loop.simps [of fd])
    then show ?thesis using rd True by simp
  next
    case False
    with True have eof: "posix_unread fd = []" by simp
    from posix_read_loop_eof [OF rd eof loop] show ?thesis by (simp add: eof)
  qed
next
  case False
  obtain res fd1 where w: "os_read fd n = (res, fd1)" by (cases "os_read fd n")
  note step = os_read_full [OF rd w]
  show ?thesis
  proof (cases res)
    case (Inl e)
    with run False w have "r = - int e" "fd' = fd1" by (simp_all add: pho_posix_read_def posix_read_loop.simps [of fd])
    then show ?thesis using step Inl by simp
  next
    case (Inr bs')
    then have bs': "bs' = take n (posix_unread fd)" "posix_unread fd1 = drop n (posix_unread fd)" "posix_readable fd1"
      using step by simp_all
    then have rest: "posix_read_loop fd1 bs' (n - length bs') (length bs') 0 = ((r, bs), fd')"
      using run False w Inr by (simp add: pho_posix_read_def posix_read_loop.simps [of fd] store_at_start_def)
    show ?thesis
    proof (cases "n \<le> length (posix_unread fd)")
      case True
      then have "((r, bs), fd') = ((int n, bs'), fd1)" using rest bs' by (simp add: posix_read_loop.simps [of fd1])
      then show ?thesis using bs' True by simp
    next
      case short: False
      then have "posix_unread fd1 = []" "drop n (posix_unread fd) = []" using bs' by simp_all
      with posix_read_loop_eof [OF bs'(3) _ rest] bs' show ?thesis by simp
    qed
  qed
qed

text \<open>The loop never stores past the end of the buffer, whatever the calls return.\<close>

lemma posix_read_loop_bounded:
  "posix_read_loop fd buf n k t = ((r, bs), fd') \<Longrightarrow> length bs \<le> max (length buf) n"
proof (induction fd buf n k t arbitrary: fd' r bs rule: posix_read_loop.induct)
  case (1 fd buf n k t)
  show ?case
  proof (cases "n = 0")
    case True
    then show ?thesis using "1.prems" by (simp add: posix_read_loop.simps [of fd])
  next
    case n: False
    obtain res fd1 where w: "os_read fd n = (res, fd1)" by (cases "os_read fd n")
    show ?thesis
    proof (cases res)
      case (Inl e)
      then show ?thesis using "1.prems" n w by (simp add: posix_read_loop.simps [of fd])
    next
      case (Inr got)
      note w = w [unfolded Inr]
      have got: "length got \<le> n"
        using w by (auto simp: os_read_def os_grant_def Let_def split: sum.splits os_res.splits)
      show ?thesis
      proof (cases "got = []")
        case empty: True
        show ?thesis
        proof (cases "t + 1 > MAX_NULL_READ_TRY")
          case True
          then show ?thesis using "1.prems" n w empty by (simp add: posix_read_loop.simps [of fd])
        next
          case again: False
          then have "posix_read_loop fd1 buf n k (t + 1) = ((r, bs), fd')"
            using "1.prems" n w empty by (simp add: posix_read_loop.simps [of fd])
          then show ?thesis by (rule "1.IH"(1) [OF n w [symmetric] refl empty again])
        qed
      next
        case False
        then have "posix_read_loop fd1 (store_at_start buf got) (n - length got) (k + length got) t = ((r, bs), fd')"
          using "1.prems" n w by (simp add: posix_read_loop.simps [of fd])
        from "1.IH"(2) [OF n w [symmetric] refl False this] got show ?thesis
          by (simp add: store_at_start_def)
      qed
    qed
  qed
qed

interpretation posix_r: io_reader pho_posix_read posix_unread posix_readable
proof
  fix f n r bs f' assume rd: "posix_readable f" and io: "pho_posix_read f n = ((r, bs), f')"
  show "posix_readable f'" using pho_posix_read_spec [OF rd io] by simp
  show "length bs \<le> n" using posix_read_loop_bounded [of f "[]" n 0 0] io by (simp add: pho_posix_read_def)
  show "r = int (length bs) \<and> bs = take n (posix_unread f) \<and> posix_unread f' = drop n (posix_unread f)" if "0 \<le> r"
    using pho_posix_read_spec [OF rd io] that by simp
qed

text \<open>
  C28. The write loop returns for every behaviour of the operating system, partial and empty
  writes included, and a return code of 0 means that the whole buffer was appended to the
  extent; any other return code is negative.
\<close>

theorem posix_write_complete:
  assumes "posix_writable fd"
  shows "\<exists>rc fd'. pho_posix_write fd buf = (rc, fd') \<and> rc \<le> 0 \<and> (rc = 0 \<longrightarrow> fd_data fd' = fd_data fd @ buf)"
  using posix_w.write_rc [OF assms] posix_w.write_appends [OF assms] by (metis surj_pair)

definition sample_fd :: "(nat \<Rightarrow> os_res) \<Rightarrow> byte list \<Rightarrow> nat \<Rightarrow> posix_fd" where
  "sample_fd os data pos = \<lparr>fd_data = data, fd_pos = pos, fd_os = os, fd_calls = 0\<rparr>"

theorem posix_write_complete_witness:
  "\<exists>rc fd'. pho_posix_write (sample_fd (\<lambda>i. OsPart i) [1] 1) [2, 3, 4] = (rc, fd') \<and> rc \<le> 0 \<and>
     (rc = 0 \<longrightarrow> fd_data fd' = [1, 2, 3, 4])"
  using posix_write_complete [of "sample_fd (\<lambda>i. OsPart i) [1] 1" "[2, 3, 4]"]
  by (simp add: sample_fd_def posix_writable_def)

text \<open>
  C29. As long as no call of \<open>read\<close> is partial, the read loop stores the next bytes of the
  extent, fewer than asked only at the end of the file.
\<close>

theorem posix_read_next_bytes:
  assumes "posix_readable fd" "pho_posix_read fd n = ((r, bs), fd')" "0 \<le> r"
  shows "bs = take n (posix_unread fd) \<and> r = int (length bs) \<and> posix_unread fd' = drop n (posix_unread fd)"
  using posix_r.read_next [OF assms] by simp

theorem posix_read_next_bytes_witness:
  "\<exists>fd'. pho_posix_read (sample_fd (\<lambda>i. OsFull) [1, 2, 3] 1) 1 = ((1, [2]), fd') \<and> posix_unread fd' = [3]"
proof -
  let ?fd = "sample_fd (\<lambda>i. OsFull) [1, 2, 3] 1"
  have "\<exists>fd'. pho_posix_read ?fd 1 = ((1, [2]), fd')"
    by (simp add: pho_posix_read_def posix_read_loop.simps os_read_def os_grant_def sample_fd_def store_at_start_def Let_def)
  then obtain fd' where run: "pho_posix_read ?fd 1 = ((1, [2]), fd')" by blast
  have "posix_readable ?fd" by (simp add: sample_fd_def posix_readable_def)
  from posix_read_next_bytes [OF this run] have "posix_unread fd' = [3]"
    by (simp add: posix_unread_def sample_fd_def)
  with run show ?thesis by blast
qed

lemma posix_read_one_call:
  assumes "fd_os fd (fd_calls fd) = OsFull" "0 < n" "n \<le> length (posix_unread fd)"
  shows "posix_read_loop fd buf n k t =
    ((int (k + n), store_at_start buf (take n (posix_unread fd))), fd\<lparr>fd_calls := fd_calls fd + 1, fd_pos := fd_pos fd + n\<rparr>)"
proof -
  have "posix_unread fd \<noteq> []" using assms(2,3) by auto
  then show ?thesis
    using assms by (simp add: posix_read_loop.simps os_read_def os_grant_def posix_unread_def Let_def min_def)
qed

text \<open>
  C38. A partial read corrupts the buffer: when the first call of \<open>read\<close> returns only \<open>m\<close> of the
  \<open>n\<close> bytes asked, the loop asks for the \<open>n - m\<close> missing bytes but passes the same buffer address.
  The function then reports \<open>n\<close> bytes read, although the buffer starts with the byte \<open>m\<close> of the
  extent and fewer than \<open>n\<close> of its bytes were stored.
\<close>

theorem posix_partial_read_overwrites:
  assumes part: "fd_os fd (fd_calls fd) = OsPart m" "fd_os fd (fd_calls fd + 1) = OsFull"
    and size: "0 < m" "m < n" "n \<le> length (posix_unread fd)"
  shows "\<exists>bs fd'. pho_posix_read fd n = ((int n, bs), fd') \<and> length bs < n \<and>
     take (n - m) bs = take (n - m) (drop m (posix_unread fd))"
proof -
  let ?u = "posix_unread fd" and ?fd = "fd\<lparr>fd_calls := fd_calls fd + 1, fd_pos := fd_pos fd + m\<rparr>"
  have u: "posix_unread ?fd = drop m ?u" by (simp add: posix_unread_def add.commute)
  have "?u \<noteq> []" "length (take m ?u) = m" using size by auto
  then have "pho_posix_read fd n = posix_read_loop ?fd (take m ?u) (n - m) m 0"
    using part(1) size
    by (simp add: pho_posix_read_def posix_read_loop.simps [of fd] os_read_def os_grant_def posix_unread_def
        Let_def min_def store_at_start_def)
  also have "\<dots> = ((int n, store_at_start (take m ?u) (take (n - m) (drop m ?u))),
      ?fd\<lparr>fd_calls := fd_calls ?fd + 1, fd_pos := fd_pos ?fd + (n - m)\<rparr>)"
    using posix_read_one_call [of ?fd "n - m" "take m ?u" m 0] part(2) size u by simp
  finally show ?thesis using size by (auto simp: store_at_start_def min_def)
qed

theorem posix_partial_read_overwrites_witness:
  "\<exists>bs fd'. pho_posix_read (sample_fd (\<lambda>i. if i = 0 then OsPart 2 else OsFull) [1, 2, 3, 4] 0) 4 = ((4, bs), fd') \<and>
     length bs < 4 \<and> take 2 bs = [3, 4]"
  using posix_partial_read_overwrites [of "sample_fd (\<lambda>i. if i = 0 then OsPart 2 else OsFull) [1, 2, 3, 4] 0" 2 4]
  by (simp add: sample_fd_def posix_unread_def)

end
