(* ===== verification/Io_Copy.thy ===== *)
theory Io_Copy
  imports Io_Adapter Pho_Types
begin

text \<open>
  Block sizes and the copy of an extent between two media, from \<^verbatim>\<open>src/io/io.c\<close>. The copy runs
  against any pair of adapters; its loop may not return, so that it is a partial function whose
  result \<open>None\<close> is a copy that never ends.
\<close>

subsection \<open>Block sizes\<close>


text \<open>Conversion of a signed value to \<open>size_t\<close>.\<close>

definition c_size :: "int \<Rightarrow> size_t" where
  "c_size v = nat (v mod 2 ^ 64)"

text \<open>\<open>cfg\<close> is what reading the parameter of the family in the configuration gives.\<close>

definition get_cfg_io_block_size :: "rc \<times> string \<Rightarrow> size_t \<Rightarrow> rc \<times> size_t" where
  "get_cfg_io_block_size cfg size0 =
     (let (rc, text) = cfg in
      if rc = 0 then
        let sz = str2int64 text in if sz < 0 then (- EINVAL, 0) else (0, c_size sz)
      else if rc = - ENODATA then (0, 0)
      else (rc, size0))"

text \<open>The test \<open>size < 0\<close> of the code compares the address of the result, it is never true.\<close>

definition get_cfg_fs_block_size :: "rc \<times> string \<Rightarrow> size_t \<Rightarrow> rc \<times> size_t" where
  "get_cfg_fs_block_size cfg size0 =
     (let (rc, text) = cfg in
      if rc = 0 then (0, c_size (str2int64 text))
      else if rc = - ENODATA then (0, 0)
      else (rc, size0))"

text \<open>\<open>preferred\<close> is the result of \<open>ioa_preferred_io_size\<close>, negative on failure.\<close>

definition update_io_size :: "int \<Rightarrow> size_t \<Rightarrow> size_t \<Rightarrow> size_t" where
  "update_io_size preferred page_size io_size =
     (if io_size \<noteq> 0 then io_size
      else let s = c_size preferred in if s \<le> 0 then page_size else s)"

definition get_preferred_io_block_size :: "rc \<times> string \<Rightarrow> int \<Rightarrow> size_t \<Rightarrow> size_t \<Rightarrow> size_t" where
  "get_preferred_io_block_size cfg preferred page_size size0 =
     (let io_size = snd (get_cfg_io_block_size cfg size0) in
      if io_size \<noteq> 0 then io_size
      else if preferred > 0 then c_size preferred
      else page_size)"

lemma c_size_nonneg: "0 \<le> v \<Longrightarrow> v < 2 ^ 64 \<Longrightarrow> c_size v = nat v"
  by (simp add: c_size_def)

lemma c_size_neg: "- (2 ^ 63) \<le> v \<Longrightarrow> v < 0 \<Longrightarrow> c_size v = nat (2 ^ 64 + v) \<and> c_size v \<ge> 2 ^ 63"
proof -
  assume v: "- (2 ^ 63) \<le> v" "v < 0"
  have "v mod 2 ^ 64 = (v + 2 ^ 64) mod 2 ^ 64" by simp
  also have "\<dots> = v + 2 ^ 64" using v by (intro mod_pos_pos_trivial) auto
  finally show ?thesis using v by (simp add: c_size_def add.commute le_nat_iff)
qed

text \<open>
  When the adapter cannot tell its preferred size, \<open>get_preferred_io_block_size\<close> falls back
  on the page size, but \<open>update_io_size\<close> does not: it stores the negative error in an unsigned
  size before testing it, and the block size becomes larger than any memory.
\<close>

theorem update_io_size_error_not_detected:
  assumes "- (2 ^ 63) \<le> err" "err < 0" "page_size > 0"
  shows "get_preferred_io_block_size (- ENODATA, text) err page_size s = page_size \<and>
         update_io_size err page_size 0 \<ge> 2 ^ 63"
  using c_size_neg [OF assms(1,2)] assms
  by (simp add: get_preferred_io_block_size_def get_cfg_io_block_size_def update_io_size_def Let_def)

theorem update_io_size_error_not_detected_witness: "update_io_size (- EINVAL) 4096 0 \<ge> 2 ^ 63"
  using update_io_size_error_not_detected [of "- EINVAL" 4096 "[]" 0] by simp

subsection \<open>Copy of an extent\<close>

text \<open>
  \<open>buffer\<close> is the content of the copy buffer. A failed read leaves the return code at 0, the value
  the last write gave it.
\<close>

partial_function (option) copy_loop ::
  "('s \<Rightarrow> nat \<Rightarrow> (int \<times> byte list) \<times> 's) \<Rightarrow> ('t \<Rightarrow> byte list \<Rightarrow> rc \<times> 't) \<Rightarrow> size_t \<Rightarrow> size_t \<Rightarrow> byte list \<Rightarrow>
   's \<Rightarrow> 't \<Rightarrow> (rc \<times> 's \<times> 't) option" where
  "copy_loop ioa_read ioa_write buf_size left_to_read buffer s t =
     (if left_to_read = 0 then Some (0, s, t)
      else
        let iter_size = (if buf_size < left_to_read then buf_size else left_to_read);
            ((nb_read_bytes, bs), s') = ioa_read s iter_size;
            buffer' = store_at_start buffer bs
        in if nb_read_bytes < 0 then Some (0, s', t)
           else
             let (rc, t') = ioa_write t (take (nat nb_read_bytes) buffer') in
             if rc \<noteq> 0 then Some (rc, s', t')
             else copy_loop ioa_read ioa_write buf_size (size_sub left_to_read (nat nb_read_bytes)) buffer' s' t')"

record 's copy_source =
  src_open :: "'s \<Rightarrow> rc \<times> 's"
  src_read :: "'s \<Rightarrow> nat \<Rightarrow> (int \<times> byte list) \<times> 's"
  src_close :: "'s \<Rightarrow> rc \<times> 's"

record 't copy_target =
  tgt_open :: "'t \<Rightarrow> rc \<times> 't"
  tgt_set_md :: "'t \<Rightarrow> rc \<times> 't"
  tgt_write :: "'t \<Rightarrow> byte list \<Rightarrow> rc \<times> 't"
  tgt_close :: "'t \<Rightarrow> rc \<times> 't"
  tgt_del :: "'t \<Rightarrow> rc \<times> 't"

definition copy_close_source :: "'s copy_source \<Rightarrow> rc \<Rightarrow> 's \<Rightarrow> 't \<Rightarrow> rc \<times> 's \<times> 't" where
  "copy_close_source src rc s t =
     (let (rc2, s') = src_close src s in (if rc = 0 \<and> rc2 \<noteq> 0 then rc2 else rc, s', t))"

definition copy_close :: "'s copy_source \<Rightarrow> 't copy_target \<Rightarrow> rc \<Rightarrow> 's \<Rightarrow> 't \<Rightarrow> rc \<times> 's \<times> 't" where
  "copy_close src tgt rc s t =
     (let (rc2, t') = tgt_close tgt t;
          (rc2', t'') = (if rc \<noteq> 0 then tgt_del tgt t' else (rc2, t'))
      in copy_close_source src (if rc = 0 \<and> rc2' \<noteq> 0 then rc2' else rc) s t'')"

definition copy_extent ::
  "'s copy_source \<Rightarrow> 't copy_target \<Rightarrow> size_t \<Rightarrow> size_t \<Rightarrow> 's \<Rightarrow> 't \<Rightarrow> (rc \<times> 's \<times> 't) option" where
  "copy_extent src tgt buf_size iod_size s t =
     (let (rc, s1) = src_open src s in
      if rc \<noteq> 0 then Some (rc, s1, t)
      else
        let (rc, t1) = tgt_open tgt t in
        if rc \<noteq> 0 then Some (copy_close_source src rc s1 t1)
        else
          let (rc, t2) = tgt_set_md tgt t1 in
          if rc \<noteq> 0 then Some (copy_close_source src rc s1 t2)
          else
            map_option (\<lambda>(rc, s', t'). copy_close src tgt rc s' t')
              (copy_loop (src_read src) (tgt_write tgt) buf_size iod_size (replicate buf_size 0) s1 t2))"

subsection \<open>Copying between any two adapters\<close>

text \<open>A reader that never fails, and the copy between such a reader and a writer.\<close>

locale io_reliable_reader = io_reader +
  assumes read_ok: "readable f \<Longrightarrow> io_read f n = ((r, bs), f') \<Longrightarrow> 0 \<le> r"

locale io_copy = src: io_reliable_reader io_read unread readable + tgt: io_writer io_write written writable
  for io_read :: "'s \<Rightarrow> nat \<Rightarrow> (int \<times> byte list) \<times> 's" and unread readable
    and io_write :: "'t \<Rightarrow> byte list \<Rightarrow> rc \<times> 't" and written writable
begin

lemma copy_loop_copies:
  "readable s \<Longrightarrow> writable t \<Longrightarrow> 0 < buf_size \<Longrightarrow> n \<le> length (unread s) \<Longrightarrow>
   \<exists>rc s' t'. copy_loop io_read io_write buf_size n buffer s t = Some (rc, s', t') \<and> readable s' \<and> writable t'
     \<and> rc \<le> 0 \<and> (rc = 0 \<longrightarrow> written t' = written t @ take n (unread s))"
proof (induction n arbitrary: buffer s t rule: less_induct)
  case (less n)
  show ?case
  proof (cases "n = 0")
    case True
    then show ?thesis using less.prems by (subst copy_loop.simps) simp
  next
    case False
    let ?k = "if buf_size < n then buf_size else n"
    obtain r bs s' where rd: "io_read s ?k = ((r, bs), s')" by (metis surj_pair)
    have r: "r = int ?k" "bs = take ?k (unread s)" "unread s' = drop ?k (unread s)" "readable s'"
      using src.read_next [OF less.prems(1) rd src.read_ok [OF less.prems(1) rd]] src.read_readable [OF less.prems(1) rd]
        less.prems(4) by (auto simp: min_def)
    obtain rc t' where wr: "io_write t bs = (rc, t')" by (cases "io_write t bs")
    have w: "writable t'" "rc \<le> 0" "rc = 0 \<Longrightarrow> written t' = written t @ bs"
      using tgt.write_writable [OF less.prems(2) wr] tgt.write_rc [OF less.prems(2) wr]
        tgt.write_appends [OF less.prems(2)] wr by auto
    have len: "length bs = ?k" using r(2) less.prems(4) by auto
    then have buf: "take (nat r) (store_at_start buffer bs) = bs" using r(1) by (simp add: store_at_start_def)
    have unfold: "copy_loop io_read io_write buf_size n buffer s t =
        (if rc \<noteq> 0 then Some (rc, s', t')
         else copy_loop io_read io_write buf_size (n - ?k) (store_at_start buffer bs) s' t')"
      using False rd wr buf r(1) by (subst copy_loop.simps) (simp add: Let_def size_sub_exact)
    show ?thesis
    proof (cases "rc = 0")
      case False
      then show ?thesis using unfold w r(4) by simp
    next
      case True
      have "\<exists>rc s'' t''. copy_loop io_read io_write buf_size (n - ?k) (store_at_start buffer bs) s' t' = Some (rc, s'', t'')
          \<and> readable s'' \<and> writable t'' \<and> rc \<le> 0 \<and> (rc = 0 \<longrightarrow> written t'' = written t' @ take (n - ?k) (unread s'))"
        using False less.prems(3,4) r(3,4) w(1) by (intro less.IH) auto
      moreover have "bs @ take (n - ?k) (unread s') = take n (unread s)"
        using r(2,3) by (simp add: take_append_take_drop)
      ultimately show ?thesis using unfold True w(3) by auto
    qed
  qed
qed

end

text \<open>POSIX files on which no call fails or is partial.\<close>

definition posix_reliable :: "posix_fd \<Rightarrow> bool" where
  "posix_reliable fd \<longleftrightarrow> (\<forall>i. fd_os fd i = OsFull)"

lemma posix_reliable_readable: "posix_reliable fd \<Longrightarrow> posix_readable fd"
  by (simp add: posix_reliable_def posix_readable_def)

lemma posix_read_loop_reliable:
  "posix_reliable fd \<Longrightarrow> posix_read_loop fd buf n k t = ((r, bs), fd') \<Longrightarrow> posix_reliable fd' \<and> 0 \<le> r"
proof (induction fd buf n k t arbitrary: fd' r bs rule: posix_read_loop.induct)
  case (1 fd buf n k t)
  define got where "got = take n (posix_unread fd)"
  define fd1 where "fd1 = fd\<lparr>fd_calls := fd_calls fd + 1, fd_pos := fd_pos fd + length got\<rparr>"
  have w: "os_read fd n = (Inr got, fd1)" and fd1: "posix_reliable fd1"
    using "1.prems"(1)
    by (simp_all add: os_read_def os_grant_def posix_reliable_def got_def fd1_def posix_unread_def Let_def)
  show ?case
  proof (cases "n = 0")
    case True
    then show ?thesis using "1.prems" by (simp add: posix_read_loop.simps [of fd])
  next
    case n: False
    show ?thesis
    proof (cases "got = []")
      case empty: True
      show ?thesis
      proof (cases "t + 1 > MAX_NULL_READ_TRY")
        case True
        then have "r = int k" "fd' = fd1" using "1.prems"(2) n w empty by (simp_all add: posix_read_loop.simps [of fd])
        then show ?thesis using fd1 by simp
      next
        case again: False
        then have "posix_read_loop fd1 buf n k (t + 1) = ((r, bs), fd')"
          using "1.prems"(2) n w empty by (simp add: posix_read_loop.simps [of fd])
        then show ?thesis by (rule "1.IH"(1) [OF n w [symmetric] refl empty again fd1])
      qed
    next
      case False
      then have "posix_read_loop fd1 (store_at_start buf got) (n - length got) (k + length got) t = ((r, bs), fd')"
        using "1.prems"(2) n w by (simp add: posix_read_loop.simps [of fd])
      then show ?thesis by (rule "1.IH"(2) [OF n w [symmetric] refl False fd1])
    qed
  qed
qed

interpretation posix_copy: io_copy pho_posix_read posix_unread posix_reliable pho_posix_write fd_data posix_writable
proof
  fix f n r bs f' assume *: "posix_reliable f" "pho_posix_read f n = ((r, bs), f')"
  then show "posix_reliable f'" "0 \<le> r"
    using posix_read_loop_reliable [of f "[]" n 0 0] by (simp_all add: pho_posix_read_def)
  show "length bs \<le> n" using posix_r.read_bounded [OF posix_reliable_readable [OF *(1)] *(2)] .
  show "r = int (length bs) \<and> bs = take n (posix_unread f) \<and> posix_unread f' = drop n (posix_unread f)"
    using posix_r.read_next [OF posix_reliable_readable [OF *(1)] *(2) \<open>0 \<le> r\<close>] .
qed

definition posix_source :: "posix_fd copy_source" where
  "posix_source = \<lparr>src_open = \<lambda>s. (0, s), src_read = pho_posix_read, src_close = \<lambda>s. (0, s)\<rparr>"

definition posix_target :: "rc \<Rightarrow> posix_fd copy_target" where
  "posix_target md_rc =
     \<lparr>tgt_open = \<lambda>t. (0, t), tgt_set_md = \<lambda>t. (md_rc, t), tgt_write = pho_posix_write,
      tgt_close = \<lambda>t. (0, t), tgt_del = \<lambda>t. (0, t\<lparr>fd_data := []\<rparr>)\<rparr>"

lemmas posix_copy_defs = posix_source_def posix_target_def copy_extent_def copy_close_def copy_close_source_def

text \<open>
  C27. From a source that holds at least the announced size and whose reads neither fail nor are
  partial, the copy of an extent returns, and a return code of 0 means that the target received
  exactly the announced bytes, for every behaviour of the target's writes and every positive
  buffer size.
\<close>

theorem copy_extent_correct:
  assumes "posix_reliable s" "posix_writable t" "0 < buf_size" "n \<le> length (posix_unread s)"
  shows "\<exists>rc s' t'. copy_extent posix_source (posix_target md_rc) buf_size n s t = Some (rc, s', t') \<and>
     (rc = 0 \<longrightarrow> md_rc = 0 \<and> fd_data t' = fd_data t @ take n (posix_unread s))"
proof (cases "md_rc = 0")
  case True
  obtain rc s' t' where loop: "copy_loop pho_posix_read pho_posix_write buf_size n (replicate buf_size 0) s t = Some (rc, s', t')"
    and ok: "rc = 0 \<longrightarrow> fd_data t' = fd_data t @ take n (posix_unread s)"
    using posix_copy.copy_loop_copies [OF assms, of "replicate buf_size 0"] by blast
  then have "copy_extent posix_source (posix_target md_rc) buf_size n s t =
      Some (rc, s', if rc = 0 then t' else t'\<lparr>fd_data := []\<rparr>)"
    using True by (simp add: posix_copy_defs)
  then show ?thesis using True ok by (cases "rc = 0") auto
next
  case False
  then show ?thesis by (simp add: posix_copy_defs)
qed

theorem copy_extent_correct_witness:
  "\<exists>rc s' t'. copy_extent posix_source (posix_target 0) 2 3 (sample_fd (\<lambda>i. OsFull) [1, 2, 3] 0)
       (sample_fd (\<lambda>i. OsPart 1) [] 0) = Some (rc, s', t') \<and>
     (rc = 0 \<longrightarrow> fd_data t' = [1, 2, 3])"
  using copy_extent_correct [of "sample_fd (\<lambda>i. OsFull) [1, 2, 3] 0" "sample_fd (\<lambda>i. OsPart 1) [] 0" 2 3 0]
  by (simp add: sample_fd_def posix_reliable_def posix_writable_def posix_unread_def)

lemma posix_write_reliable:
  assumes "posix_reliable t"
  shows "\<exists>t'. pho_posix_write t bs = (0, t') \<and> posix_reliable t'"
  using assms
  by (cases "bs = []")
    (auto simp: pho_posix_write_def posix_write_loop.simps os_write_def os_grant_def posix_reliable_def)

text \<open>A source whose first \<open>k\<close> calls of \<open>read\<close> are complete and whose next one fails.\<close>

definition fails_after :: "nat \<Rightarrow> nat \<Rightarrow> posix_fd \<Rightarrow> bool" where
  "fails_after k err s \<longleftrightarrow> (\<forall>i < k. fd_os s (fd_calls s + i) = OsFull) \<and> fd_os s (fd_calls s + k) = OsErr err"

lemma pho_posix_read_error:
  assumes "fails_after 0 err s" "0 < n"
  shows "pho_posix_read s n = ((- int err, []), s\<lparr>fd_calls := fd_calls s + 1\<rparr>)"
  using assms by (simp add: fails_after_def pho_posix_read_def posix_read_loop.simps os_read_def os_grant_def)

lemma pho_posix_read_full:
  assumes "fails_after (Suc k) err s" "0 < n" "n \<le> length (posix_unread s)"
  shows "\<exists>s'. pho_posix_read s n = ((int n, take n (posix_unread s)), s') \<and> fails_after k err s' \<and>
     posix_unread s' = drop n (posix_unread s)"
proof -
  have os: "fd_os s (fd_calls s + i) = OsFull" if "i < Suc k" for i using assms(1) that by (simp add: fails_after_def)
  have "fd_os s (fd_calls s) = OsFull" using os [of 0] by simp
  moreover have "\<forall>i < k. fd_os s (fd_calls s + Suc i) = OsFull" using os by blast
  ultimately show ?thesis
    using assms posix_read_one_call [of s n "[]" 0 0]
    by (simp add: pho_posix_read_def store_at_start_def fails_after_def posix_unread_def add.commute)
qed

lemma copy_loop_read_error:
  "fails_after k err s \<Longrightarrow> 0 < err \<Longrightarrow> posix_reliable t \<Longrightarrow> posix_writable t \<Longrightarrow> 0 < buf_size \<Longrightarrow>
   k * buf_size < n \<Longrightarrow> k * buf_size \<le> length (posix_unread s) \<Longrightarrow>
   \<exists>s' t'. copy_loop pho_posix_read pho_posix_write buf_size n buffer s t = Some (0, s', t') \<and>
     fd_data t' = fd_data t @ take (k * buf_size) (posix_unread s)"
proof (induction k arbitrary: s t n buffer)
  case 0
  have "pho_posix_read s (if buf_size < n then buf_size else n) = ((- int err, []), s\<lparr>fd_calls := fd_calls s + 1\<rparr>)"
    using 0 by (intro pho_posix_read_error) auto
  then show ?case using 0 by (subst copy_loop.simps) (simp add: Let_def)
next
  case (Suc k)
  obtain s' where rd: "pho_posix_read s buf_size = ((int buf_size, take buf_size (posix_unread s)), s')"
    and s': "fails_after k err s'" "posix_unread s' = drop buf_size (posix_unread s)"
    using pho_posix_read_full [OF Suc.prems(1,5)] Suc.prems(7) by auto
  let ?bs = "take buf_size (posix_unread s)"
  have len: "length ?bs = buf_size" using Suc.prems(7) by simp
  obtain t' where wr: "pho_posix_write t ?bs = (0, t')" and t': "posix_reliable t'"
    using posix_write_reliable [OF Suc.prems(3)] by blast
  have t'': "posix_writable t'" "fd_data t' = fd_data t @ ?bs"
    using posix_w.write_writable [OF Suc.prems(4) wr] posix_w.write_appends [OF Suc.prems(4) wr] by simp_all
  have lt: "\<not> n \<le> buf_size \<or> n = buf_size" "buf_size \<le> n" "n \<noteq> 0" using Suc.prems(6) by auto
  have iter: "(if buf_size < n then buf_size else n) = buf_size" using lt by auto
  have buf: "take buf_size (store_at_start buffer ?bs) = ?bs" using len by (simp add: store_at_start_def)
  have "copy_loop pho_posix_read pho_posix_write buf_size n buffer s t =
      copy_loop pho_posix_read pho_posix_write buf_size (n - buf_size) (store_at_start buffer ?bs) s' t'"
    using lt rd wr buf by (subst copy_loop.simps, unfold iter) (simp add: Let_def size_sub_exact)
  moreover have "\<exists>s'' t''. copy_loop pho_posix_read pho_posix_write buf_size (n - buf_size) (store_at_start buffer ?bs) s' t' =
      Some (0, s'', t'') \<and> fd_data t'' = fd_data t' @ take (k * buf_size) (posix_unread s')"
    using Suc.prems s' by (intro Suc.IH [OF s'(1) _ t' t''(1)]) auto
  ultimately show ?case using t''(2) s'(2) by (auto simp: take_add)
qed

text \<open>
  C39. A read error in the middle of a copy is reported as a success: when the source fails after
  \<open>k\<close> full buffers, before the announced size, the error code of the read is logged but never
  stored. The copy returns 0 and keeps a target that holds only these \<open>k\<close> buffers.
\<close>

theorem copy_extent_read_error_lost:
  assumes "fails_after k err s" "0 < err" "posix_reliable t" "posix_writable t" "0 < buf_size"
    and "k * buf_size < n" "n \<le> length (posix_unread s)"
  shows "\<exists>s' t'. copy_extent posix_source (posix_target 0) buf_size n s t = Some (0, s', t') \<and>
     fd_data t' = fd_data t @ take (k * buf_size) (posix_unread s) \<and> length (fd_data t') < length (fd_data t) + n"
proof -
  obtain s' t' where "copy_loop pho_posix_read pho_posix_write buf_size n (replicate buf_size 0) s t = Some (0, s', t')"
    "fd_data t' = fd_data t @ take (k * buf_size) (posix_unread s)"
    using copy_loop_read_error [OF assms(1-6)] assms(6,7) by fastforce
  then show ?thesis using assms(6) by (auto simp: posix_copy_defs)
qed

theorem copy_extent_read_error_lost_witness:
  "\<exists>s' t'. copy_extent posix_source (posix_target 0) 2 4
        (sample_fd (\<lambda>i. if i = 0 then OsFull else OsErr 5) [1, 2, 3, 4] 0) (sample_fd (\<lambda>i. OsFull) [] 0)
      = Some (0, s', t') \<and> fd_data t' = [1, 2]"
  using copy_extent_read_error_lost [of 1 5 "sample_fd (\<lambda>i. if i = 0 then OsFull else OsErr 5) [1, 2, 3, 4] 0"
      "sample_fd (\<lambda>i. OsFull) [] 0" 2 4]
  by (auto simp: fails_after_def sample_fd_def posix_reliable_def posix_writable_def posix_unread_def)

lemma copy_loop_returns_only_if_enough:
  assumes "copy_loop ioa_read ioa_write buf_size n buffer s t = Some res"
  shows "ioa_read = pho_posix_read \<Longrightarrow> ioa_write = pho_posix_write \<Longrightarrow> posix_reliable s \<Longrightarrow> posix_reliable t \<Longrightarrow>
    n < size_max \<Longrightarrow> n \<le> length (posix_unread s)"
  using assms
proof (induction rule: copy_loop.raw_induct [rotated 1, consumes 1])
  case (1 copy_loop ioa_read ioa_write buf_size n buffer s t res)
  show ?case
  proof (cases "n = 0")
    case False
    let ?k = "if buf_size < n then buf_size else n"
    obtain r bs s' where rd: "pho_posix_read s ?k = ((r, bs), s')" by (metis surj_pair)
    have r: "0 \<le> r" "posix_reliable s'"
      using posix_copy.src.read_ok [OF "1.prems"(3) rd] posix_copy.src.read_readable [OF "1.prems"(3) rd] by simp_all
    have bs: "r = int (length bs)" "bs = take ?k (posix_unread s)" "posix_unread s' = drop ?k (posix_unread s)"
      using posix_copy.src.read_next [OF "1.prems"(3) rd r(1)] by simp_all
    obtain t' where wr: "pho_posix_write t (take (nat r) (store_at_start buffer bs)) = (0, t')" "posix_reliable t'"
      using posix_write_reliable [OF "1.prems"(4)] by blast
    have le: "length bs \<le> n" using bs(2) by (auto simp: min_def)
    have "copy_loop ioa_read ioa_write buf_size (n - length bs) (store_at_start buffer bs) s' t' = Some res"
      using "1.hyps" False rd wr r "1.prems"(1,2) bs(1) le by (simp add: Let_def size_sub_exact)
    from "1.IH" [OF this "1.prems"(1,2) r(2) wr(2)] "1.prems"(5)
    have "n - length bs \<le> length (posix_unread s')" by simp
    then show ?thesis using bs(2,3) le by (auto simp: min_def split: if_splits)
  qed simp
qed

text \<open>
  C40. The copy of a source that ends before the announced size never returns: every read of the
  exhausted source gives 0 bytes, which the loop does not take for the end of the file.
\<close>

theorem copy_extent_short_source_diverges:
  assumes "posix_reliable s" "posix_reliable t" "length (posix_unread s) < n" "n < size_max"
  shows "copy_extent posix_source (posix_target 0) buf_size n s t = None"
proof -
  have "copy_loop pho_posix_read pho_posix_write buf_size n (replicate buf_size 0) s t = None"
    using copy_loop_returns_only_if_enough [OF _ refl refl assms(1,2,4)] assms(3)
    by (meson not_Some_eq not_less)
  then show ?thesis by (simp add: posix_copy_defs)
qed

theorem copy_extent_short_source_diverges_witness:
  "copy_extent posix_source (posix_target 0) 2 3 (sample_fd (\<lambda>i. OsFull) [1, 2] 0) (sample_fd (\<lambda>i. OsFull) [] 0) = None"
  by (rule copy_extent_short_source_diverges)
    (simp_all add: sample_fd_def posix_reliable_def posix_unread_def size_max_def)

end
