(* ===== verification/Pho_Attrs.thy ===== *)
theory Pho_Attrs
  imports Phobos_Prelude "HOL-Library.AList"
begin

text \<open>
  Attribute sets (\<^verbatim>\<open>src/core/common/attrs.c\<close>, \<^verbatim>\<open>src/include/pho_attrs.h\<close>): tables from strings to
  strings or NULL, with their conversion to and from JSON.

  A hash table is the list of its entries in the order an iteration visits them; the statements
  only depend on the lookups. The UTF-8 functions and the printer and parser of JSON text are
  those of GLib and jansson, parameters of the functions that use them.
\<close>

subsection \<open>Attribute sets\<close>

type_synonym attr_set = "(string \<times> string option) list"
type_synonym pho_attrs = "attr_set option"

definition pho_attrs_is_empty :: "pho_attrs \<Rightarrow> bool" where
  "pho_attrs_is_empty attrs \<longleftrightarrow> attrs = None"

definition pho_attrs_free :: "pho_attrs \<Rightarrow> pho_attrs" where
  "pho_attrs_free md = None"

definition pho_attr_remove :: "pho_attrs \<Rightarrow> string \<Rightarrow> pho_attrs" where
  "pho_attr_remove md key = map_option (AList.delete key) md"

definition pho_attr_get :: "pho_attrs \<Rightarrow> string \<Rightarrow> string option" where
  "pho_attr_get md key =
     (case md of
        None \<Rightarrow> None
      | Some attrs \<Rightarrow> (case map_of attrs key of None \<Rightarrow> None | Some v \<Rightarrow> v))"

definition pho_attr_set :: "pho_attrs \<Rightarrow> string \<Rightarrow> string option \<Rightarrow> pho_attrs" where
  "pho_attr_set md key v = Some (AList.update key v (case md of None \<Rightarrow> [] | Some attrs \<Rightarrow> attrs))"

definition pho_attrs_remove_null :: "pho_attrs \<Rightarrow> pho_attrs" where
  "pho_attrs_remove_null md = map_option (filter (\<lambda>(_, v). v \<noteq> None)) md"

text \<open>The loop of \<open>pho_attrs_foreach\<close>; \<open>udata\<close> is the state of the callback.\<close>

fun attrs_loop :: "(string \<Rightarrow> string option \<Rightarrow> 's \<Rightarrow> rc \<times> 's) \<Rightarrow> attr_set \<Rightarrow> 's \<Rightarrow> rc \<times> 's" where
  "attrs_loop cb [] udata = (0, udata)"
| "attrs_loop cb ((key, v) # attrs) udata =
     (let (rc, udata') = cb key v udata in if rc \<noteq> 0 then (rc, udata') else attrs_loop cb attrs udata')"

definition pho_attrs_foreach :: "pho_attrs \<Rightarrow> (string \<Rightarrow> string option \<Rightarrow> 's \<Rightarrow> rc \<times> 's) \<Rightarrow> 's \<Rightarrow> rc \<times> 's" where
  "pho_attrs_foreach md cb udata = (case md of None \<Rightarrow> (0, udata) | Some attrs \<Rightarrow> attrs_loop cb attrs udata)"

definition pho_attrs_make_valid ::
  "(string \<Rightarrow> bool) \<Rightarrow> (string \<Rightarrow> string) \<Rightarrow> pho_attrs \<Rightarrow> pho_attrs" where
  "pho_attrs_make_valid utf8_validate utf8_make_valid md =
     (case md of
        None \<Rightarrow> None
      | Some attrs \<Rightarrow>
          if list_all (\<lambda>(key, v). utf8_validate key \<and> (case v of None \<Rightarrow> True | Some s \<Rightarrow> utf8_validate s)) attrs
          then Some attrs
          else Some (fold (\<lambda>(key, v). AList.update (utf8_make_valid key) (map_option utf8_make_valid v)) attrs []))"

subsection \<open>JSON\<close>

datatype json = JNull | JBool bool | JInt int | JReal string | JStr string | JArr "json list" | JObj "(string \<times> json) list"

definition json_string_value :: "json \<Rightarrow> string option" where
  "json_string_value j = (case j of JStr s \<Rightarrow> Some s | _ \<Rightarrow> None)"

text \<open>\<open>json_string\<close> refuses NULL and invalid strings, \<open>json_object_set_new\<close> invalid keys and NULL values.\<close>

definition json_string :: "(string \<Rightarrow> bool) \<Rightarrow> string option \<Rightarrow> json option" where
  "json_string utf8 v = (case v of None \<Rightarrow> None | Some s \<Rightarrow> if utf8 s then Some (JStr s) else None)"

definition json_object_set_new ::
  "(string \<Rightarrow> bool) \<Rightarrow> (string \<times> json) list \<Rightarrow> string \<Rightarrow> json option \<Rightarrow> rc \<times> (string \<times> json) list" where
  "json_object_set_new utf8 obj key v =
     (case v of None \<Rightarrow> (- 1, obj) | Some j \<Rightarrow> if utf8 key then (0, AList.update key j obj) else (- 1, obj))"

definition attr_json_dump_cb ::
  "(string \<Rightarrow> bool) \<Rightarrow> string \<Rightarrow> string option \<Rightarrow> (string \<times> json) list \<Rightarrow> rc \<times> (string \<times> json) list" where
  "attr_json_dump_cb utf8 key v obj = json_object_set_new utf8 obj key (json_string utf8 v)"

definition pho_attrs_to_json_raw ::
  "(string \<Rightarrow> bool) \<Rightarrow> pho_attrs \<Rightarrow> (string \<times> json) list \<Rightarrow> rc \<times> (string \<times> json) list" where
  "pho_attrs_to_json_raw utf8 md obj = pho_attrs_foreach md (attr_json_dump_cb utf8) obj"

text \<open>\<open>dumps\<close> is \<open>json_dump_callback\<close> into a string, which may fail.\<close>

definition pho_attrs_to_json ::
  "(string \<Rightarrow> bool) \<Rightarrow> (json \<Rightarrow> string option) \<Rightarrow> pho_attrs \<Rightarrow> rc \<times> string" where
  "pho_attrs_to_json utf8 dumps md =
     (if md = None then (0, ''{}'')
      else
        let (rc, obj) = pho_attrs_to_json_raw utf8 md [] in
        if rc \<noteq> 0 then (- EINVAL, '''')
        else (case dumps (JObj obj) of None \<Rightarrow> (- EINVAL, '''') | Some s \<Rightarrow> (0, s)))"

text \<open>A value that is not an object has no entry to iterate on.\<close>

definition pho_json_raw_to_attrs :: "pho_attrs \<Rightarrow> json \<Rightarrow> pho_attrs" where
  "pho_json_raw_to_attrs md j =
     (case j of
        JObj kvs \<Rightarrow> fold (\<lambda>(key, val) md. pho_attr_set md key (json_string_value val)) kvs md
      | _ \<Rightarrow> md)"

definition pho_json_to_attrs :: "(string \<Rightarrow> json option) \<Rightarrow> pho_attrs \<Rightarrow> string option \<Rightarrow> rc \<times> pho_attrs" where
  "pho_json_to_attrs loads md str =
     (case str of
        None \<Rightarrow> (- EINVAL, md)
      | Some s \<Rightarrow> (case loads s of None \<Rightarrow> (- EINVAL, md) | Some j \<Rightarrow> (0, pho_json_raw_to_attrs md j)))"

definition pho_attrs_copy ::
  "(string \<Rightarrow> bool) \<Rightarrow> (json \<Rightarrow> string option) \<Rightarrow> (string \<Rightarrow> json option) \<Rightarrow> pho_attrs \<Rightarrow> pho_attrs \<Rightarrow> rc \<times> pho_attrs" where
  "pho_attrs_copy utf8 dumps loads src dst =
     (let (rc, attrs) = pho_attrs_to_json utf8 dumps src in
      if rc \<noteq> 0 then (rc, dst) else pho_json_to_attrs loads dst (Some attrs))"

subsection \<open>Lookups\<close>

lemma pho_attr_get_set: "pho_attr_get (pho_attr_set md key v) key' = (if key = key' then v else pho_attr_get md key')"
  by (cases md) (auto simp: pho_attr_get_def pho_attr_set_def update_conv')

lemma pho_attr_get_remove: "pho_attr_get (pho_attr_remove md key) key' = (if key = key' then None else pho_attr_get md key')"
  by (cases md) (auto simp: pho_attr_get_def pho_attr_remove_def delete_conv')

lemma map_of_filter_value:
  "distinct (map fst xs) \<Longrightarrow> map_of (filter (\<lambda>(_, v). P v) xs) k = (case map_of xs k of Some v \<Rightarrow> if P v then Some v else None | None \<Rightarrow> None)"
proof (induction xs)
  case (Cons x xs)
  obtain a v where x: "x = (a, v)" by (cases x)
  have "map_of xs a = None" using Cons.prems x by (simp add: map_of_eq_None_iff)
  then show ?case using Cons x by (auto split: option.splits)
qed simp

text \<open>
  The operations on attribute sets agree with a map: a lookup gives the last value set under
  the key, or nothing when the key was removed or never set, and removing the NULL values changes
  no lookup.
\<close>

theorem attrs_lookup:
  assumes "distinct (map fst (case md of None \<Rightarrow> [] | Some attrs \<Rightarrow> attrs))"
  shows "pho_attr_get (pho_attr_set md key v) key' = (if key = key' then v else pho_attr_get md key') \<and>
     pho_attr_get (pho_attr_remove md key) key' = (if key = key' then None else pho_attr_get md key') \<and>
     pho_attr_get (pho_attrs_remove_null md) key' = pho_attr_get md key' \<and> pho_attr_get (pho_attrs_free md) key' = None"
proof -
  have "pho_attr_get (pho_attrs_remove_null md) key' = pho_attr_get md key'"
    using assms by (cases md) (auto simp: pho_attr_get_def pho_attrs_remove_null_def map_of_filter_value split: option.splits)
  then show ?thesis
    by (simp add: pho_attr_get_set pho_attr_get_remove pho_attrs_free_def) (simp add: pho_attr_get_def)
qed

theorem attrs_lookup_witness:
  "pho_attr_get (pho_attr_set (Some [(''a'', None), (''b'', Some ''1'')]) ''b'' (Some ''2'')) ''b'' = Some ''2'' \<and>
   pho_attr_get (pho_attrs_remove_null (Some [(''a'', None), (''b'', Some ''1'')])) ''b'' = Some ''1''"
  using attrs_lookup [of "Some [(''a'', None), (''b'', Some ''1'')]" "''b''" "Some ''2''" "''b''"] by (simp add: pho_attr_get_def)

subsection \<open>Serialization\<close>

definition serializable :: "(string \<Rightarrow> bool) \<Rightarrow> attr_set \<Rightarrow> bool" where
  "serializable utf8 attrs \<longleftrightarrow> list_all (\<lambda>(key, v). utf8 key \<and> (\<exists>s. v = Some s \<and> utf8 s)) attrs"

lemma dump_cb_simps:
  "utf8 key \<Longrightarrow> utf8 s \<Longrightarrow> attr_json_dump_cb utf8 key (Some s) obj = (0, AList.update key (JStr s) obj)"
  "\<not> (utf8 key \<and> (\<exists>s. v = Some s \<and> utf8 s)) \<Longrightarrow> attr_json_dump_cb utf8 key v obj = (- 1, obj)"
  by (auto simp: attr_json_dump_cb_def json_string_def json_object_set_new_def split: option.splits)

lemma attrs_loop_json:
  assumes "attrs_loop (attr_json_dump_cb utf8) attrs obj = (rc, obj')"
  shows "(serializable utf8 attrs \<longrightarrow> rc = 0 \<and> (distinct (map fst attrs) \<longrightarrow>
            (\<forall>k. map_of obj' k = (case map_of attrs k of Some (Some s) \<Rightarrow> Some (JStr s) | _ \<Rightarrow> map_of obj k))))
     \<and> (\<not> serializable utf8 attrs \<longrightarrow> rc \<noteq> 0)"
  using assms
proof (induction attrs arbitrary: obj)
  case (Cons x attrs)
  obtain key v where x: "x = (key, v)" by (cases x)
  show ?case
  proof (cases "utf8 key \<and> (\<exists>s. v = Some s \<and> utf8 s)")
    case True
    then obtain s where s: "v = Some s" "utf8 s" "utf8 key" by blast
    then have "attrs_loop (attr_json_dump_cb utf8) attrs (AList.update key (JStr s) obj) = (rc, obj')"
      using Cons.prems x by (simp add: dump_cb_simps)
    from Cons.IH [OF this] show ?thesis
      using s x by (auto simp: serializable_def update_conv' map_of_eq_None_iff split: option.splits)
  next
    case False
    then have "rc \<noteq> 0"
      using Cons.prems x by (auto simp: dump_cb_simps(2))
    then show ?thesis using False x by (auto simp: serializable_def)
  qed
qed (simp add: serializable_def)

lemma raw_to_attrs_get:
  "distinct (map fst kvs) \<Longrightarrow> pho_attr_get (fold (\<lambda>(key, val) md. pho_attr_set md key (json_string_value val)) kvs md) k =
     (case map_of kvs k of None \<Rightarrow> pho_attr_get md k | Some j \<Rightarrow> json_string_value j)"
proof (induction kvs arbitrary: md)
  case (Cons x kvs)
  obtain key j where x: "x = (key, j)" by (cases x)
  have "map_of kvs key = None" using Cons.prems x by (simp add: map_of_eq_None_iff)
  then show ?case using Cons x by (auto simp: pho_attr_get_set split: option.split)
qed simp

text \<open>
  C30. When the JSON printer and parser give back the object they are handed, copying an attribute
  set fails, and leaves the destination as it was, exactly when a key or a value is NULL or not
  valid; otherwise every attribute of the source ends in the destination and the others are kept.
\<close>

theorem pho_attrs_copy_correct:
  assumes "distinct (map fst attrs)"
    and "dumps (JObj (snd (pho_attrs_to_json_raw utf8 (Some attrs) []))) = Some s" "loads s = Some (JObj kvs)"
    and "distinct (map fst kvs)" "map_of kvs = map_of (snd (pho_attrs_to_json_raw utf8 (Some attrs) []))"
  shows "if serializable utf8 attrs
     then \<exists>dst'. pho_attrs_copy utf8 dumps loads (Some attrs) dst = (0, dst') \<and>
       (\<forall>k. pho_attr_get dst' k = (if k \<in> fst ` set attrs then pho_attr_get (Some attrs) k else pho_attr_get dst k))
     else pho_attrs_copy utf8 dumps loads (Some attrs) dst = (- EINVAL, dst)"
proof -
  obtain rc obj where raw: "pho_attrs_to_json_raw utf8 (Some attrs) [] = (rc, obj)"
    by (cases "pho_attrs_to_json_raw utf8 (Some attrs) []")
  then have loop: "attrs_loop (attr_json_dump_cb utf8) attrs [] = (rc, obj)"
    by (simp add: pho_attrs_to_json_raw_def pho_attrs_foreach_def)
  note J = attrs_loop_json [OF loop]
  show ?thesis
  proof (cases "serializable utf8 attrs")
    case True
    then have rc: "rc = 0" and obj: "\<And>k. map_of obj k = (case map_of attrs k of Some (Some s) \<Rightarrow> Some (JStr s) | _ \<Rightarrow> None)"
      using J assms(1) by (auto split: option.splits)
    define dst' where "dst' = fold (\<lambda>(key, val) md. pho_attr_set md key (json_string_value val)) kvs dst"
    have "pho_attrs_copy utf8 dumps loads (Some attrs) dst = (0, dst')"
      using assms(2,3) raw rc
      by (simp add: pho_attrs_copy_def pho_attrs_to_json_def pho_json_to_attrs_def pho_json_raw_to_attrs_def dst'_def)
    moreover have "pho_attr_get dst' k = (if k \<in> fst ` set attrs then pho_attr_get (Some attrs) k else pho_attr_get dst k)" for k
    proof (cases "map_of attrs k")
      case None
      then have "k \<notin> fst ` set attrs" by (simp add: map_of_eq_None_iff)
      then show ?thesis
        using None obj [of k] assms(4,5) raw by (simp add: dst'_def raw_to_attrs_get)
    next
      case (Some v)
      then obtain t where "v = Some t" using True map_of_SomeD [OF Some] by (auto simp: serializable_def list_all_iff)
      moreover have "k \<in> fst ` set attrs" using map_of_SomeD [OF Some] by force
      moreover have "pho_attr_get (Some attrs) k = v" using Some by (simp add: pho_attr_get_def)
      moreover have "json_string_value (JStr t) = Some t" for t by (simp add: json_string_value_def)
      ultimately show ?thesis
        using obj [of k] assms(4,5) raw Some by (simp add: dst'_def raw_to_attrs_get)
    qed
    ultimately show ?thesis using True by simp
  next
    case False
    then show ?thesis using J raw by (simp add: pho_attrs_copy_def pho_attrs_to_json_def)
  qed
qed

theorem pho_attrs_copy_correct_witness:
  "\<exists>dst'. pho_attrs_copy (\<lambda>_. True) (\<lambda>_. Some ''t'') (\<lambda>_. Some (JObj [(''a'', JStr ''1'')])) (Some [(''a'', Some ''1'')])
       (Some [(''b'', Some ''2'')]) = (0, dst') \<and> pho_attr_get dst' ''a'' = Some ''1'' \<and> pho_attr_get dst' ''b'' = Some ''2''"
  using pho_attrs_copy_correct [of "[(''a'', Some ''1'')]" "\<lambda>_. Some ''t''" "\<lambda>_. True" "''t''"
      "\<lambda>_. Some (JObj [(''a'', JStr ''1'')])" "[(''a'', JStr ''1'')]" "Some [(''b'', Some ''2'')]"]
  by (auto simp: serializable_def pho_attrs_to_json_raw_def pho_attrs_foreach_def attr_json_dump_cb_def json_string_def
      json_object_set_new_def pho_attr_get_def)


end
