(* ===== verification/Data_Processor.thy ===== *)
theory Data_Processor
  imports Io_Copy Pho_Attrs
begin

text \<open>
  The data processor that moves an object between a reader and a writer through one buffer
  (\<^verbatim>\<open>src/include/pho_layout.h\<close>, \<^verbatim>\<open>src/layout/layout.c\<close>), and the reader and writer of plain
  files (\<^verbatim>\<open>src/layout/posix_layout.c\<close>).

  The operations are written against the read and write functions of an arbitrary adapter and
  their lemmas are proved in the locales \<open>io_reader\<close> and \<open>io_writer\<close>. An access outside the
  buffer has no result.
\<close>

subsection \<open>State\<close>

datatype processor_type = PHO_PROC_ENCODER | PHO_PROC_DECODER | PHO_PROC_ERASER | PHO_PROC_COPIER | PHO_PROC_REBUILDER

record data_processor =
  dp_type :: processor_type
  dp_done :: bool
  dp_current_target :: nat
  dp_object_size :: size_t
  dp_reader_offset :: size_t
  dp_reader_stripe_size :: size_t
  dp_writer_offset :: size_t
  dp_writer_stripe_size :: size_t
  dp_buff :: "byte list"
  dp_buffer_offset :: size_t
  dp_io_block_size :: size_t
  dp_xd_rc :: rc
  dp_xt_rc :: "rc list"

record 'f pho_io_descr =
  iod_ctx :: 'f
  iod_size :: size_t
  iod_attrs :: pho_attrs

definition is_decoder :: "data_processor \<Rightarrow> bool" where
  "is_decoder proc \<longleftrightarrow> dp_type proc = PHO_PROC_DECODER"

definition is_rebuilder :: "data_processor \<Rightarrow> bool" where
  "is_rebuilder proc \<longleftrightarrow> dp_type proc = PHO_PROC_REBUILDER"

definition target_rc :: "data_processor \<Rightarrow> rc" where
  "target_rc proc = (if dp_current_target proc < length (dp_xt_rc proc) then dp_xt_rc proc ! dp_current_target proc else 0)"

text \<open>The \<open>out_err\<close> label of both functions of \<^verbatim>\<open>layout.c\<close>.\<close>

definition set_error :: "rc \<Rightarrow> data_processor \<Rightarrow> data_processor" where
  "set_error rc proc =
     proc\<lparr>dp_xd_rc := (if dp_xd_rc proc = 0 then rc else dp_xd_rc proc),
          dp_xt_rc := (dp_xt_rc proc)[dp_current_target proc := rc]\<rparr>"

subsection \<open>Filling and emptying the buffer\<close>

definition data_processor_read_into_buff ::
  "('f \<Rightarrow> nat \<Rightarrow> (int \<times> byte list) \<times> 'f) \<Rightarrow> data_processor \<Rightarrow> 'f pho_io_descr \<Rightarrow> size_t \<Rightarrow>
   (rc \<times> data_processor \<times> 'f pho_io_descr) option" where
  "data_processor_read_into_buff ioa_read proc iod sz =
     (let pos = size_sub (dp_reader_offset proc) (dp_buffer_offset proc);
          ((read_size, bs), ctx) = ioa_read (iod_ctx iod) sz
      in if pos + sz \<le> length (dp_buff proc) then
           (case buf_put (dp_buff proc) pos bs of
              None \<Rightarrow> None
            | Some buff \<Rightarrow>
                let proc1 = proc\<lparr>dp_buff := buff\<rparr>; iod1 = iod\<lparr>iod_ctx := ctx\<rparr> in
                if read_size < 0 then Some (read_size, set_error read_size proc1, iod1)
                else
                  let proc2 = proc1\<lparr>dp_reader_offset := size_add (dp_reader_offset proc) (nat read_size)\<rparr>;
                      iod2 = iod1\<lparr>iod_size := size_add (iod_size iod) (nat read_size)\<rparr>
                  in if nat read_size < sz then Some (- EIO, set_error (- EIO) proc2, iod2)
                     else Some (0, proc2, iod2))
         else None)"

definition data_processor_write_from_buff ::
  "('f \<Rightarrow> byte list \<Rightarrow> rc \<times> 'f) \<Rightarrow> data_processor \<Rightarrow> 'f pho_io_descr \<Rightarrow> size_t \<Rightarrow> size_t \<Rightarrow>
   (rc \<times> data_processor \<times> 'f pho_io_descr) option" where
  "data_processor_write_from_buff ioa_write proc iod sz offset =
     (case buf_get (dp_buff proc) (size_sub (dp_writer_offset proc) (dp_buffer_offset proc) + offset) sz of
        None \<Rightarrow> None
      | Some start \<Rightarrow>
          let (written_size, ctx) = ioa_write (iod_ctx iod) start; iod1 = iod\<lparr>iod_ctx := ctx\<rparr> in
          if written_size < 0 then Some (written_size, set_error written_size proc, iod1)
          else Some (0, proc, iod1\<lparr>iod_size := size_add (iod_size iod) (nat written_size)\<rparr>))"

subsection \<open>Plain files\<close>

definition posix_reader_step ::
  "('f \<Rightarrow> nat \<Rightarrow> (int \<times> byte list) \<times> 'f) \<Rightarrow> int \<Rightarrow> size_t \<Rightarrow> data_processor \<Rightarrow> 'f pho_io_descr \<Rightarrow>
   (rc \<times> data_processor \<times> 'f pho_io_descr) option" where
  "posix_reader_step ioa_read preferred page_size proc iod =
     (if length (dp_buff proc) = 0 then
        Some (0, proc\<lparr>dp_reader_stripe_size := update_io_size preferred page_size (dp_io_block_size proc)\<rparr>, iod)
      else if target_rc proc \<noteq> 0 then Some (target_rc proc, proc, iod)
      else
        let to_read = min (size_sub (dp_object_size proc) (dp_reader_offset proc))
                          (size_sub (length (dp_buff proc)) (size_sub (dp_reader_offset proc) (dp_buffer_offset proc)))
        in data_processor_read_into_buff ioa_read proc iod to_read)"

definition posix_writer_step ::
  "('f \<Rightarrow> byte list \<Rightarrow> rc \<times> 'f) \<Rightarrow> int \<Rightarrow> size_t \<Rightarrow> data_processor \<Rightarrow> 'f pho_io_descr \<Rightarrow>
   (rc \<times> data_processor \<times> 'f pho_io_descr) option" where
  "posix_writer_step ioa_write preferred page_size proc iod =
     (let to_write = size_sub (dp_reader_offset proc) (dp_writer_offset proc) in
      if length (dp_buff proc) = 0 then
        Some (0, proc\<lparr>dp_writer_stripe_size := update_io_size preferred page_size (dp_io_block_size proc)\<rparr>, iod)
      else if target_rc proc \<noteq> 0 then Some (target_rc proc, proc, iod)
      else
        (case data_processor_write_from_buff ioa_write proc iod to_write 0 of
           None \<Rightarrow> None
         | Some (rc, proc1, iod1) \<Rightarrow>
             if rc \<noteq> 0 then Some (rc, proc1, iod1)
             else
               let w = size_add (dp_writer_offset proc1) to_write;
                   proc2 = proc1\<lparr>dp_writer_offset := w,
                                 dp_buffer_offset := (if w = dp_reader_offset proc1 then w else dp_buffer_offset proc1)\<rparr>
               in if w = dp_object_size proc2 then
                    let proc3 = proc2\<lparr>dp_current_target := dp_current_target proc2 + 1, dp_buffer_offset := 0,
                                      dp_reader_offset := 0, dp_writer_offset := 0\<rparr>
                    in if dp_current_target proc3 = length (dp_xt_rc proc3)
                       then Some (0, proc3\<lparr>dp_done := True\<rparr>, iod1) else None
                  else Some (0, proc2, iod1)))"

subsection \<open>What the buffer holds\<close>

text \<open>The offsets are ordered as the header of the structure says, and fit the buffer.\<close>

definition offsets_ok :: "data_processor \<Rightarrow> bool" where
  "offsets_ok proc \<longleftrightarrow>
     dp_buffer_offset proc \<le> dp_writer_offset proc \<and> dp_writer_offset proc \<le> dp_reader_offset proc \<and>
     dp_reader_offset proc \<le> dp_object_size proc \<and> dp_object_size proc < size_max \<and>
     dp_reader_offset proc - dp_buffer_offset proc \<le> length (dp_buff proc)"

text \<open>The buffer holds the bytes of the object between the buffer and the reader offsets.\<close>

definition buff_holds :: "byte list \<Rightarrow> data_processor \<Rightarrow> bool" where
  "buff_holds obj proc \<longleftrightarrow> (let n = dp_reader_offset proc - dp_buffer_offset proc in
     take n (dp_buff proc) = take n (drop (dp_buffer_offset proc) obj))"

definition dp_inv :: "byte list \<Rightarrow> data_processor \<Rightarrow> bool" where
  "dp_inv obj proc \<longleftrightarrow> offsets_ok proc \<and> buff_holds obj proc \<and> dp_object_size proc = length obj"

lemma set_error_simps [simp]:
  "dp_buff (set_error rc proc) = dp_buff proc" "dp_reader_offset (set_error rc proc) = dp_reader_offset proc"
  "dp_buffer_offset (set_error rc proc) = dp_buffer_offset proc"
  "dp_writer_offset (set_error rc proc) = dp_writer_offset proc"
  "dp_object_size (set_error rc proc) = dp_object_size proc"
  by (simp_all add: set_error_def)

lemma buff_holds_segment:
  assumes "buff_holds obj proc" "offsets_ok proc" "dp_buffer_offset proc \<le> off" "off + n \<le> dp_reader_offset proc"
  shows "take n (drop (off - dp_buffer_offset proc) (dp_buff proc)) = take n (drop off obj)"
proof -
  let ?b = "dp_buffer_offset proc" and ?m = "dp_reader_offset proc - dp_buffer_offset proc"
  have "take n (drop (off - ?b) (take ?m (dp_buff proc))) = take n (drop (off - ?b) (take ?m (drop ?b obj)))"
    using assms(1) by (simp add: buff_holds_def Let_def)
  moreover have "n \<le> dp_reader_offset proc - off" using assms(4) by simp
  ultimately show ?thesis
    using assms(3) by (simp add: drop_take min_def)
qed

lemma buff_holds_extend:
  assumes "buff_holds obj proc" "offsets_ok proc" "bs = take n (drop (dp_reader_offset proc) obj)"
    "dp_reader_offset proc - dp_buffer_offset proc + length bs \<le> length (dp_buff proc)"
    "buf_put (dp_buff proc) (dp_reader_offset proc - dp_buffer_offset proc) bs = Some buff"
    "p = proc\<lparr>dp_buff := buff, dp_reader_offset := dp_reader_offset proc + length bs\<rparr>"
  shows "buff_holds obj p"
proof -
  let ?b = "dp_buffer_offset proc" and ?m = "dp_reader_offset proc - dp_buffer_offset proc"
  have buff: "buff = take ?m (dp_buff proc) @ bs @ drop (?m + length bs) (dp_buff proc)"
    using assms(4,5) by (simp add: buf_put_in)
  have bs: "bs = take (length bs) (drop (?b + ?m) obj)"
    using assms(2,3) by (simp add: offsets_ok_def min_def)
  have "take (?m + length bs) buff = take ?m (dp_buff proc) @ bs"
    using assms(4) by (simp add: buff)
  also have "\<dots> = take ?m (drop ?b obj) @ take (length bs) (drop (?b + ?m) obj)"
    using assms(1) bs by (simp add: buff_holds_def Let_def)
  also have "\<dots> = take (?m + length bs) (drop ?b obj)" by (rule take_add_drop)
  finally show ?thesis
    using assms(2) by (simp add: assms(6) buff_holds_def Let_def offsets_ok_def)
qed

subsection \<open>The operations on any adapter\<close>

context io_reader
begin

lemma read_into_buff_spec:
  assumes rd: "readable (iod_ctx iod)" and order: "dp_buffer_offset proc \<le> dp_reader_offset proc"
    and fits: "dp_reader_offset proc - dp_buffer_offset proc + n \<le> length (dp_buff proc)"
    and small: "dp_reader_offset proc + n < size_max" "iod_size iod + n < size_max"
  shows "\<exists>rc p iod'. data_processor_read_into_buff io_read proc iod n = Some (rc, p, iod') \<and> rc \<le> 0 \<and>
     readable (iod_ctx iod') \<and>
     (rc = 0 \<longrightarrow> n \<le> length (unread (iod_ctx iod)) \<and>
        p = proc\<lparr>dp_buff := take (dp_reader_offset proc - dp_buffer_offset proc) (dp_buff proc) @ take n (unread (iod_ctx iod))
                   @ drop (dp_reader_offset proc - dp_buffer_offset proc + n) (dp_buff proc),
                 dp_reader_offset := dp_reader_offset proc + n\<rparr> \<and>
        iod_size iod' = iod_size iod + n \<and> unread (iod_ctx iod') = drop n (unread (iod_ctx iod)))"
proof -
  obtain r bs ctx where io: "io_read (iod_ctx iod) n = ((r, bs), ctx)" by (metis surj_pair)
  have rd': "readable ctx" using read_readable [OF rd io] .
  have len: "length bs \<le> n" using read_bounded [OF rd io] .
  let ?pos = "dp_reader_offset proc - dp_buffer_offset proc"
  have run: "data_processor_read_into_buff io_read proc iod n =
     (let proc1 = proc\<lparr>dp_buff := take ?pos (dp_buff proc) @ bs @ drop (?pos + length bs) (dp_buff proc)\<rparr>;
          iod1 = iod\<lparr>iod_ctx := ctx\<rparr>
      in if r < 0 then Some (r, set_error r proc1, iod1)
         else let proc2 = proc1\<lparr>dp_reader_offset := size_add (dp_reader_offset proc) (nat r)\<rparr>;
                  iod2 = iod1\<lparr>iod_size := size_add (iod_size iod) (nat r)\<rparr>
              in if nat r < n then Some (- EIO, set_error (- EIO) proc2, iod2) else Some (0, proc2, iod2))"
    using io fits len order
    by (simp add: data_processor_read_into_buff_def size_sub_exact buf_put_in Let_def)
  show ?thesis
  proof (cases "r < 0")
    case True
    then show ?thesis using run rd' by (simp add: Let_def)
  next
    case False
    have r: "r = int (length bs)" "bs = take n (unread (iod_ctx iod))" "unread ctx = drop n (unread (iod_ctx iod))"
      using read_next [OF rd io] False by simp_all
    show ?thesis
    proof (cases "length bs < n")
      case True
      then show ?thesis using run rd' False r(1) by (simp add: Let_def)
    next
      case full: False
      then have "length bs = n" "n \<le> length (unread (iod_ctx iod))" using len r(2) by auto
      then show ?thesis using run rd' False r small by (simp add: Let_def size_add_exact)
    qed
  qed
qed

end

context io_writer
begin

lemma write_from_buff_spec:
  assumes wr: "writable (iod_ctx iod)" and order: "dp_buffer_offset proc \<le> dp_writer_offset proc"
    and fits: "dp_writer_offset proc - dp_buffer_offset proc + off + n \<le> length (dp_buff proc)"
    and small: "iod_size iod < size_max"
  shows "\<exists>rc p iod'. data_processor_write_from_buff io_write proc iod n off = Some (rc, p, iod') \<and> rc \<le> 0 \<and>
     writable (iod_ctx iod') \<and>
     (rc = 0 \<longrightarrow> p = proc \<and> iod_size iod' = iod_size iod \<and>
        written (iod_ctx iod') =
          written (iod_ctx iod) @ take n (drop (dp_writer_offset proc - dp_buffer_offset proc + off) (dp_buff proc)))"
proof -
  let ?bs = "take n (drop (dp_writer_offset proc - dp_buffer_offset proc + off) (dp_buff proc))"
  obtain rc ctx where io: "io_write (iod_ctx iod) ?bs = (rc, ctx)" by (cases "io_write (iod_ctx iod) ?bs")
  have w: "writable ctx" "rc \<le> 0" "rc = 0 \<Longrightarrow> written ctx = written (iod_ctx iod) @ ?bs"
    using write_writable [OF wr io] write_rc [OF wr io] write_appends [OF wr] io by auto
  have run: "data_processor_write_from_buff io_write proc iod n off =
      (if rc < 0 then Some (rc, set_error rc proc, iod\<lparr>iod_ctx := ctx\<rparr>)
       else Some (0, proc, iod\<lparr>iod_ctx := ctx, iod_size := size_add (iod_size iod) (nat rc)\<rparr>))"
    using io order fits
    by (simp add: data_processor_write_from_buff_def size_sub_exact buf_get_in)
  show ?thesis
  proof (cases "rc = 0")
    case True
    then show ?thesis using run w small by (simp add: size_add_exact)
  next
    case False
    with w(2) have "rc < 0" by simp
    then show ?thesis using run w by simp
  qed
qed

end

end
