(* ===== verification/Raid_Common.thy ===== *)
theory Raid_Common
  imports Data_Processor
begin

text \<open>
  The state the RAID layouts share (\<^verbatim>\<open>src/layout/raid_common.h\<close>), the hashes computed while extents
  are written and read, the sizes of the extents of a split, and the queries on a layout with
  missing extents (\<^verbatim>\<open>src/layout/raid_common.c\<close>).

  A hash context is the data fed to it so far; the digest functions of the hash libraries are
  parameters of the environment, and so is their failure.
\<close>

subsection \<open>State\<close>

record extent =
  ext_uuid :: string
  ext_layout_idx :: int
  ext_state :: extent_state
  ext_size :: size_t
  ext_media :: pho_id
  ext_offset :: size_t
  ext_xxh128 :: "byte list option"
  ext_md5 :: "byte list option"
  ext_info :: pho_attrs

record extent_hash =
  eh_md5context :: "byte list option"
  eh_md5 :: "byte list"
  eh_xxh128context :: "byte list option"
  eh_xxh128 :: "byte list"

text \<open>The calls of a hash library that may fail, with the data fed so far.\<close>

datatype hash_call = HashNew | HashReset | HashUpdate "byte list" "byte list" | HashFinal "byte list"

record 'f raid_env =
  env_read :: "'f \<Rightarrow> nat \<Rightarrow> (int \<times> byte list) \<times> 'f"
  env_write :: "'f \<Rightarrow> byte list \<Rightarrow> rc \<times> 'f"
  env_md5 :: "byte list \<Rightarrow> byte list"
  env_xxh128 :: "byte list \<Rightarrow> byte list"
  env_hash_fails :: "hash_call \<Rightarrow> bool"

record 'f raid_io_context =
  ric_current_split :: size_t
  ric_current_split_size :: size_t
  ric_current_split_offset :: size_t
  ric_current_split_chunk_size :: size_t
  ric_n_data_extents :: size_t
  ric_n_parity_extents :: size_t
  ric_iods :: "'f pho_io_descr list"
  ric_hashes :: "extent_hash list"
  ric_read_extents :: "extent list"
  ric_check_hash :: bool
  ric_out_extents :: "extent list"
  ric_all_is_written :: bool
  ric_missing_count :: size_t
  ric_rebuild_extent_size :: size_t
  ric_extent_remainder :: size_t

definition n_total_extents :: "'f raid_io_context \<Rightarrow> size_t" where
  "n_total_extents ctx = ric_n_data_extents ctx + ric_n_parity_extents ctx"

definition get_n_extents :: "'f raid_io_context \<Rightarrow> processor_type \<Rightarrow> size_t" where
  "get_n_extents ctx ty = (if ty = PHO_PROC_REBUILDER then ric_missing_count ctx else n_total_extents ctx)"

subsection \<open>Hashes\<close>

definition extent_hash_init :: "'f raid_env \<Rightarrow> extent_hash \<Rightarrow> bool \<Rightarrow> bool \<Rightarrow> rc \<times> extent_hash" where
  "extent_hash_init env h use_md5 use_xxhash =
     (if use_md5 \<and> env_hash_fails env HashNew then (- ENOMEM, h\<lparr>eh_md5context := None\<rparr>)
      else
        let h1 = (if use_md5 then h\<lparr>eh_md5context := Some []\<rparr> else h) in
        if use_xxhash \<and> env_hash_fails env HashNew then (- ENOMEM, h1\<lparr>eh_xxh128context := None\<rparr>)
        else (0, if use_xxhash then h1\<lparr>eh_xxh128context := Some []\<rparr> else h1))"

definition extent_hash_reset :: "'f raid_env \<Rightarrow> extent_hash \<Rightarrow> rc \<times> extent_hash" where
  "extent_hash_reset env h =
     (if eh_md5context h \<noteq> None \<and> env_hash_fails env HashReset then (- ENOMEM, h)
      else
        let h1 = h\<lparr>eh_md5context := map_option (\<lambda>_. []) (eh_md5context h)\<rparr> in
        if eh_xxh128context h1 \<noteq> None \<and> env_hash_fails env HashReset then (- ENOMEM, h1)
        else (0, h1\<lparr>eh_xxh128context := map_option (\<lambda>_. []) (eh_xxh128context h1)\<rparr>))"

definition extent_hash_update :: "'f raid_env \<Rightarrow> extent_hash \<Rightarrow> byte list \<Rightarrow> rc \<times> extent_hash" where
  "extent_hash_update env h bs =
     (case eh_md5context h of
        Some d \<Rightarrow>
          if env_hash_fails env (HashUpdate d bs) then (- ENOMEM, h)
          else
            let h1 = h\<lparr>eh_md5context := Some (d @ bs)\<rparr> in
            (case eh_xxh128context h1 of
               Some x \<Rightarrow> if env_hash_fails env (HashUpdate x bs) then (- ENOMEM, h1)
                         else (0, h1\<lparr>eh_xxh128context := Some (x @ bs)\<rparr>)
             | None \<Rightarrow> (0, h1))
      | None \<Rightarrow>
          (case eh_xxh128context h of
             Some x \<Rightarrow> if env_hash_fails env (HashUpdate x bs) then (- ENOMEM, h)
                       else (0, h\<lparr>eh_xxh128context := Some (x @ bs)\<rparr>)
           | None \<Rightarrow> (0, h)))"

definition extent_hash_digest :: "'f raid_env \<Rightarrow> extent_hash \<Rightarrow> rc \<times> extent_hash" where
  "extent_hash_digest env h =
     (let xxh = (\<lambda>h. h\<lparr>eh_xxh128 := (case eh_xxh128context h of Some d \<Rightarrow> env_xxh128 env d | None \<Rightarrow> eh_xxh128 h)\<rparr>) in
      case eh_md5context h of
        None \<Rightarrow> (0, xxh h)
      | Some d \<Rightarrow> if env_hash_fails env (HashFinal d) then (- ENOMEM, h) else (0, xxh (h\<lparr>eh_md5 := env_md5 env d\<rparr>)))"

definition extent_hash_copy :: "extent_hash \<Rightarrow> extent \<Rightarrow> extent" where
  "extent_hash_copy h e =
     e\<lparr>ext_md5 := (if eh_md5context h \<noteq> None then Some (eh_md5 h) else ext_md5 e),
       ext_xxh128 := (if eh_xxh128context h \<noteq> None then Some (eh_xxh128 h) else ext_xxh128 e)\<rparr>"

fun hash_mismatch :: "byte list option \<Rightarrow> byte list \<Rightarrow> byte list option \<Rightarrow> bool" where
  "hash_mismatch (Some _) digest (Some stored) = (digest \<noteq> stored)"
| "hash_mismatch _ _ _ = False"

definition extent_hash_compare :: "extent_hash \<Rightarrow> extent \<Rightarrow> rc" where
  "extent_hash_compare h e =
     (if hash_mismatch (eh_md5context h) (eh_md5 h) (ext_md5 e) then - EINVAL
      else if hash_mismatch (eh_xxh128context h) (eh_xxh128 h) (ext_xxh128 e) then - EINVAL
      else 0)"

text \<open>The contexts of \<open>h\<close> hold exactly the data \<open>d\<close>.\<close>

definition hash_fed :: "extent_hash \<Rightarrow> byte list \<Rightarrow> bool" where
  "hash_fed h d \<longleftrightarrow> (\<forall>x. eh_md5context h = Some x \<longrightarrow> x = d) \<and> (\<forall>x. eh_xxh128context h = Some x \<longrightarrow> x = d)"

lemma hash_fed_reset: "extent_hash_reset env h = (0, h') \<Longrightarrow> hash_fed h' []"
  by (auto simp: hash_fed_def extent_hash_reset_def Let_def split: if_splits)

lemma hash_fed_update:
  "hash_fed h d \<Longrightarrow> extent_hash_update env h bs = (rc, h') \<Longrightarrow> rc \<le> 0 \<and> (rc = 0 \<longrightarrow> hash_fed h' (d @ bs))"
  by (auto simp: hash_fed_def extent_hash_update_def Let_def split: option.splits if_splits)

text \<open>
  C26. A hash computed while an extent was written, and stored with it, is accepted when the
  same bytes are read back; with digest functions that separate the two contents, it is refused
  when other bytes are read.
\<close>

theorem extent_hash_check:
  assumes "hash_fed hw w" "hash_fed hr r" "extent_hash_digest env hw = (0, dw)" "extent_hash_digest env hr = (0, dr)"
    "eh_md5context hw \<noteq> None \<longleftrightarrow> eh_md5context hr \<noteq> None" "eh_xxh128context hw \<noteq> None \<longleftrightarrow> eh_xxh128context hr \<noteq> None"
    "ext_md5 e = None" "ext_xxh128 e = None"
  shows "(w = r \<longrightarrow> extent_hash_compare dr (extent_hash_copy dw e) = 0) \<and>
     (env_md5 env w \<noteq> env_md5 env r \<and> env_xxh128 env w \<noteq> env_xxh128 env r \<and>
        (eh_md5context hw \<noteq> None \<or> eh_xxh128context hw \<noteq> None) \<longrightarrow>
      extent_hash_compare dr (extent_hash_copy dw e) = - EINVAL)"
  using assms by (auto simp: hash_fed_def extent_hash_compare_def extent_hash_copy_def extent_hash_digest_def Let_def
      split: option.splits if_splits)

text \<open>Extents on POSIX media, for any digest functions.\<close>

definition posix_env ::
  "(byte list \<Rightarrow> byte list) \<Rightarrow> (byte list \<Rightarrow> byte list) \<Rightarrow> (hash_call \<Rightarrow> bool) \<Rightarrow> posix_fd raid_env" where
  "posix_env md5 xxh128 hash_fails =
     \<lparr>env_read = pho_posix_read, env_write = pho_posix_write, env_md5 = md5, env_xxh128 = xxh128,
      env_hash_fails = hash_fails\<rparr>"

definition sample_env :: "posix_fd raid_env" where
  "sample_env = posix_env rev id (\<lambda>_. False)"

definition sample_extent :: "nat \<Rightarrow> nat \<Rightarrow> extent" where
  "sample_extent i n = \<lparr>ext_uuid = ''uuid'', ext_layout_idx = int i, ext_state = PHO_EXT_ST_SYNC, ext_size = n,
     ext_media = \<lparr>family = PHO_RSC_DIR, name = ''m'', library = ''l''\<rparr>, ext_offset = 0,
     ext_xxh128 = None, ext_md5 = None, ext_info = None\<rparr>"

definition sample_hash :: "byte list \<Rightarrow> extent_hash" where
  "sample_hash d = \<lparr>eh_md5context = Some d, eh_md5 = [], eh_xxh128context = None, eh_xxh128 = []\<rparr>"

theorem extent_hash_check_witness:
  "extent_hash_compare ((sample_hash [1, 3])\<lparr>eh_md5 := [3, 1]\<rparr>)
     (extent_hash_copy ((sample_hash [1, 2])\<lparr>eh_md5 := [2, 1]\<rparr>) (sample_extent 0 2)) = - EINVAL"
  using extent_hash_check [of "sample_hash [1, 2]" "[1, 2]" "sample_hash [1, 3]" "[1, 3]" sample_env
      "(sample_hash [1, 2])\<lparr>eh_md5 := [2, 1]\<rparr>" "(sample_hash [1, 3])\<lparr>eh_md5 := [3, 1]\<rparr>" "sample_extent 0 2"]
  by (simp add: sample_hash_def hash_fed_def sample_extent_def sample_env_def posix_env_def extent_hash_digest_def)

subsection \<open>The extents being written\<close>

text \<open>A context that differs from another by its descriptors and its hashes only.\<close>

definition ctx_frame :: "'f raid_io_context \<Rightarrow> 'f raid_io_context \<Rightarrow> bool" where
  "ctx_frame ctx ctx' \<longleftrightarrow> ctx' = ctx\<lparr>ric_iods := ric_iods ctx', ric_hashes := ric_hashes ctx'\<rparr>"

lemma ctx_frame_refl [simp]: "ctx_frame ctx ctx"
  by (simp add: ctx_frame_def)

lemma ctx_frame_trans: "ctx_frame a b \<Longrightarrow> ctx_frame b c \<Longrightarrow> ctx_frame a c"
  by (cases a; cases b; cases c) (auto simp: ctx_frame_def)

lemma ctx_frame_fields:
  assumes "ctx_frame ctx ctx'"
  shows "ric_current_split_chunk_size ctx' = ric_current_split_chunk_size ctx"
    "ric_current_split_size ctx' = ric_current_split_size ctx"
    "ric_current_split_offset ctx' = ric_current_split_offset ctx"
    "ric_out_extents ctx' = ric_out_extents ctx" "ric_read_extents ctx' = ric_read_extents ctx"
    "ric_check_hash ctx' = ric_check_hash ctx" "ric_n_data_extents ctx' = ric_n_data_extents ctx"
    "ric_n_parity_extents ctx' = ric_n_parity_extents ctx"
    "ric_all_is_written ctx' = ric_all_is_written ctx"
  using assms by (cases ctx; cases ctx'; simp add: ctx_frame_def)+

text \<open>The descriptors and the hashes of the extents have received exactly the contents \<open>Xs\<close>.\<close>

definition extents_are ::
  "('f \<Rightarrow> byte list) \<Rightarrow> ('f \<Rightarrow> bool) \<Rightarrow> 'f raid_io_context \<Rightarrow> byte list list \<Rightarrow> bool" where
  "extents_are written writable ctx Xs \<longleftrightarrow>
     length (ric_iods ctx) = length Xs \<and> length (ric_hashes ctx) = length Xs \<and>
     (\<forall>i < length Xs. writable (iod_ctx (ric_iods ctx ! i)) \<and> written (iod_ctx (ric_iods ctx ! i)) = Xs ! i
        \<and> iod_size (ric_iods ctx ! i) = length (Xs ! i) \<and> hash_fed (ric_hashes ctx ! i) (Xs ! i))"

lemma extents_are_update:
  assumes "extents_are written writable ctx Xs" "i < length Xs" "writable (iod_ctx iod)" "written (iod_ctx iod) = X"
    "iod_size iod = length X" "hash_fed h X"
  shows "extents_are written writable
     (ctx\<lparr>ric_iods := (ric_iods ctx)[i := iod], ric_hashes := (ric_hashes ctx)[i := h]\<rparr>) (Xs[i := X])"
  using assms by (auto simp: extents_are_def nth_list_update)

text \<open>
  Writing \<open>n\<close> bytes of the buffer in one extent and updating its hash with them, as both layouts
  do.
\<close>

definition write_and_hash ::
  "'f raid_env \<Rightarrow> data_processor \<Rightarrow> 'f raid_io_context \<Rightarrow> nat \<Rightarrow> size_t \<Rightarrow> size_t \<Rightarrow>
   (rc \<times> data_processor \<times> 'f raid_io_context) option" where
  "write_and_hash env proc ctx i n off =
     (case data_processor_write_from_buff (env_write env) proc (ric_iods ctx ! i) n off of
        None \<Rightarrow> None
      | Some (rc, p, iod) \<Rightarrow>
          if rc \<noteq> 0 then Some (rc, p, ctx\<lparr>ric_iods := (ric_iods ctx)[i := iod]\<rparr>)
          else
            let ctx1 = ctx\<lparr>ric_iods := (ric_iods ctx)[i := iod\<lparr>iod_size := size_add (iod_size iod) n\<rparr>]\<rparr> in
            (case buf_get (dp_buff p) (size_sub (dp_writer_offset proc) (dp_buffer_offset proc) + off) n of
               None \<Rightarrow> None
             | Some bs \<Rightarrow>
                 let (rc, h) = extent_hash_update env (ric_hashes ctx1 ! i) bs in
                 Some (rc, p, ctx1\<lparr>ric_hashes := (ric_hashes ctx1)[i := h]\<rparr>)))"

text \<open>Both directions of a layout, on an adapter that can write and one that can read.\<close>

locale raid_adapter =
  rd: io_reader "env_read env" unread readable + wr: io_writer "env_write env" written writable
  for env :: "'f raid_env" and unread readable written writable
begin

lemma write_and_hash_spec:
  assumes ext: "extents_are written writable ctx Xs" and i: "i < length Xs"
    and order: "dp_buffer_offset proc \<le> dp_writer_offset proc"
    and fits: "dp_writer_offset proc - dp_buffer_offset proc + off + n \<le> length (dp_buff proc)"
    and small: "length (Xs ! i) + n < size_max"
  shows "\<exists>rc p ctx'. write_and_hash env proc ctx i n off = Some (rc, p, ctx') \<and> rc \<le> 0 \<and>
     (rc = 0 \<longrightarrow> p = proc \<and> ctx_frame ctx ctx' \<and>
        extents_are written writable ctx' (Xs[i := Xs ! i @ take n (drop (dp_writer_offset proc - dp_buffer_offset proc + off) (dp_buff proc))]))"
proof -
  let ?bs = "take n (drop (dp_writer_offset proc - dp_buffer_offset proc + off) (dp_buff proc))"
  let ?iod = "ric_iods ctx ! i"
  have iod: "writable (iod_ctx ?iod)" "written (iod_ctx ?iod) = Xs ! i" "iod_size ?iod = length (Xs ! i)"
    "hash_fed (ric_hashes ctx ! i) (Xs ! i)" using ext i by (auto simp: extents_are_def)
  obtain rc p iod' where w: "data_processor_write_from_buff (env_write env) proc ?iod n off = Some (rc, p, iod')"
    "rc \<le> 0" "writable (iod_ctx iod')"
    and ok: "rc = 0 \<longrightarrow> p = proc \<and> iod_size iod' = iod_size ?iod \<and> written (iod_ctx iod') = written (iod_ctx ?iod) @ ?bs"
    using wr.write_from_buff_spec [OF iod(1) order fits] small iod(3) by auto
  show ?thesis
  proof (cases "rc = 0")
    case False
    then show ?thesis using w by (simp add: write_and_hash_def)
  next
    case True
    obtain rc' h where h: "extent_hash_update env (ric_hashes ctx ! i) ?bs = (rc', h)"
      by (cases "extent_hash_update env (ric_hashes ctx ! i) ?bs")
    note fed = hash_fed_update [OF iod(4) h]
    let ?ctx = "ctx\<lparr>ric_iods := (ric_iods ctx)[i := iod'\<lparr>iod_size := size_add (iod_size iod') n\<rparr>],
      ric_hashes := (ric_hashes ctx)[i := h]\<rparr>"
    have "write_and_hash env proc ctx i n off = Some (rc', proc, ?ctx)"
      using True w(1) ok fits h order by (simp add: write_and_hash_def buf_get_in size_sub_exact)
    moreover have "rc' = 0 \<longrightarrow> extents_are written writable ?ctx (Xs[i := Xs ! i @ ?bs])"
      using fed True ok iod w(3) fits small by (auto intro!: extents_are_update [OF ext i] simp: size_add_exact)
    ultimately show ?thesis using fed by (simp add: ctx_frame_def)
  qed
qed

end

interpretation posix_raid: raid_adapter "posix_env md5 xxh128 hash_fails" posix_unread posix_readable fd_data posix_writable
  for md5 xxh128 hash_fails
  by (simp add: raid_adapter_def posix_env_def posix_r.io_reader_axioms posix_w.io_writer_axioms)

end
