(* ===== verification/Raid_Io.thy ===== *)
theory Raid_Io
  imports Raid_Common
begin

text \<open>
  What the reads and writes of the RAID layouts share: the sequencing of return codes, one read
  of an extent into the buffer with its hash, and the state of the extents being read.
\<close>

subsection \<open>Return codes\<close>

type_synonym 'f raid_res = "(rc \<times> data_processor \<times> 'f raid_io_context) option"

text \<open>Sequencing: a non-zero return code ends the function.\<close>

definition seq_res :: "'f raid_res \<Rightarrow> (data_processor \<Rightarrow> 'f raid_io_context \<Rightarrow> 'f raid_res) \<Rightarrow> 'f raid_res" where
  "seq_res r k = (case r of None \<Rightarrow> None | Some (rc, p, ctx) \<Rightarrow> if rc \<noteq> 0 then Some (rc, p, ctx) else k p ctx)"

lemma seq_resI:
  assumes "r = Some (rc, p, ctx)" "rc \<le> 0" "rc = 0 \<Longrightarrow> P p ctx"
    and "\<And>p ctx. P p ctx \<Longrightarrow> \<exists>rc' p' ctx'. k p ctx = Some (rc', p', ctx') \<and> rc' \<le> 0 \<and> (rc' = 0 \<longrightarrow> Q p' ctx')"
  shows "\<exists>rc' p' ctx'. seq_res r k = Some (rc', p', ctx') \<and> rc' \<le> 0 \<and> (rc' = 0 \<longrightarrow> Q p' ctx')"
  using assms by (cases "rc = 0") (auto simp: seq_res_def)

lemma seq_res_bind:
  assumes "\<exists>rc p k. r = Some (rc, p, k) \<and> rc \<le> 0 \<and> (rc = 0 \<longrightarrow> P p k)"
    and "\<And>p k. P p k \<Longrightarrow> \<exists>rc p' k'. f p k = Some (rc, p', k') \<and> rc \<le> 0 \<and> (rc = 0 \<longrightarrow> Q p' k')"
  shows "\<exists>rc p' k'. seq_res r f = Some (rc, p', k') \<and> rc \<le> 0 \<and> (rc = 0 \<longrightarrow> Q p' k')"
  using assms(1) by (elim exE conjE) (auto intro: seq_resI [where P = P] assms(2))

lemma seq_res_assoc: "seq_res (seq_res r f) g = seq_res r (\<lambda>p k. seq_res (f p k) g)"
  by (auto simp: seq_res_def split: option.splits)

subsection \<open>Reading an extent\<close>

text \<open>Reading \<open>n\<close> bytes of the extent at index \<open>ei\<close> at the end of the data of the buffer.\<close>

definition read_chunk ::
  "'f raid_env \<Rightarrow> nat \<Rightarrow> size_t \<Rightarrow> data_processor \<Rightarrow> 'f raid_io_context \<Rightarrow> 'f raid_res" where
  "read_chunk env ei n proc ctx =
     (case data_processor_read_into_buff (env_read env) proc (ric_iods ctx ! ei) n of
        None \<Rightarrow> None
      | Some (rc, p, iod) \<Rightarrow>
          let ctx1 = ctx\<lparr>ric_iods := (ric_iods ctx)[ei := iod]\<rparr> in
          if rc \<noteq> 0 then Some (rc, p, ctx1)
          else if ric_check_hash ctx then
            (case buf_get (dp_buff p) (size_sub (dp_reader_offset proc) (dp_buffer_offset proc)) n of
               None \<Rightarrow> None
             | Some bs \<Rightarrow>
                 let (rc, h) = extent_hash_update env (ric_hashes ctx1 ! ei) bs in
                 Some (rc, p, ctx1\<lparr>ric_hashes := (ric_hashes ctx1)[ei := h]\<rparr>))
          else Some (0, p, ctx1))"

text \<open>
  The extents being read have the contents \<open>Us\<close> left, and have given the contents \<open>Cs\<close>, which is
  also what the hashes received when they are checked.
\<close>

definition extents_left ::
  "('f \<Rightarrow> byte list) \<Rightarrow> ('f \<Rightarrow> bool) \<Rightarrow> 'f raid_io_context \<Rightarrow> byte list list \<Rightarrow> byte list list \<Rightarrow> bool" where
  "extents_left unread readable ctx Us Cs \<longleftrightarrow>
     length (ric_iods ctx) = length Us \<and> length Cs = length Us \<and> (ric_check_hash ctx \<longrightarrow> length (ric_hashes ctx) = length Us) \<and>
     (\<forall>j < length Us. readable (iod_ctx (ric_iods ctx ! j)) \<and> unread (iod_ctx (ric_iods ctx ! j)) = Us ! j
        \<and> iod_size (ric_iods ctx ! j) = length (Cs ! j) \<and> (ric_check_hash ctx \<longrightarrow> hash_fed (ric_hashes ctx ! j) (Cs ! j)))"

lemma extents_left_update:
  assumes "extents_left unread readable ctx Us Cs" "j < length Us" "readable (iod_ctx iod)" "unread (iod_ctx iod) = U"
    "iod_size iod = length C" "ric_check_hash ctx \<Longrightarrow> hs = (ric_hashes ctx)[j := h] \<and> hash_fed h C"
  shows "extents_left unread readable (ctx\<lparr>ric_iods := (ric_iods ctx)[j := iod], ric_hashes := hs\<rparr>) (Us[j := U]) (Cs[j := C])"
  using assms by (auto simp: extents_left_def nth_list_update)

lemma ctx_frame_update: "ctx_frame a b \<Longrightarrow> ctx_frame a (b\<lparr>ric_iods := x, ric_hashes := y\<rparr>)"
  by (rule ctx_frame_trans) (auto simp: ctx_frame_def)

text \<open>The buffer after \<open>bs\<close> was stored at \<open>pos\<close>.\<close>

definition buff_with :: "byte list \<Rightarrow> nat \<Rightarrow> byte list \<Rightarrow> byte list" where
  "buff_with buff pos bs = take pos buff @ bs @ drop (pos + length bs) buff"

lemma length_buff_with [simp]: "pos + length bs \<le> length buff \<Longrightarrow> length (buff_with buff pos bs) = length buff"
  by (simp add: buff_with_def)

lemma buff_with_append:
  "pos + length a + length b \<le> length buff \<Longrightarrow> buff_with (buff_with buff pos a) (pos + length a) b = buff_with buff pos (a @ b)"
  by (simp add: buff_with_def add.commute add.left_commute)

lemma buff_with_Nil [simp]: "buff_with buff pos [] = buff"
  by (simp add: buff_with_def)

text \<open>The bytes of the extents of a split are those already read and those left.\<close>

definition sizes_agree :: "'f raid_io_context \<Rightarrow> byte list list \<Rightarrow> byte list list \<Rightarrow> bool" where
  "sizes_agree ctx Us Cs \<longleftrightarrow>
     (\<forall>j < length Us. ext_size (ric_read_extents ctx ! j) = length (Cs ! j) + length (Us ! j)
        \<and> length (Cs ! j) + length (Us ! j) < size_max)"

text \<open>Where a reader that has the bytes \<open>U\<close> of its split left stands in the buffer and in the split.\<close>

definition reads_at :: "data_processor \<Rightarrow> 'f raid_io_context \<Rightarrow> byte list \<Rightarrow> nat \<Rightarrow> bool" where
  "reads_at proc ctx U pos \<longleftrightarrow>
     dp_buffer_offset proc \<le> dp_reader_offset proc \<and> pos = dp_reader_offset proc - dp_buffer_offset proc \<and>
     ric_current_split_offset ctx \<le> dp_reader_offset proc \<and>
     dp_reader_offset proc + length U = ric_current_split_offset ctx + ric_current_split_size ctx \<and>
     dp_reader_offset proc + length U < size_max"

context raid_adapter
begin

lemma read_chunk_spec:
  assumes ext: "extents_left unread readable ctx Us Cs" and j: "j < length Us"
    and order: "dp_buffer_offset proc \<le> dp_reader_offset proc" and pos: "pos = dp_reader_offset proc - dp_buffer_offset proc"
    and fits: "pos + n \<le> length (dp_buff proc)"
    and small: "dp_reader_offset proc + n < size_max" "length (Cs ! j) + n < size_max"
    and frame: "ctx_frame ctx0 ctx"
  shows "\<exists>rc p ctx'. read_chunk env j n proc ctx = Some (rc, p, ctx') \<and> rc \<le> 0 \<and>
     (rc = 0 \<longrightarrow> n \<le> length (Us ! j) \<and> ctx_frame ctx0 ctx' \<and>
        p = proc\<lparr>dp_buff := buff_with (dp_buff proc) pos (take n (Us ! j)), dp_reader_offset := dp_reader_offset proc + n\<rparr> \<and>
        extents_left unread readable ctx' (Us[j := drop n (Us ! j)]) (Cs[j := Cs ! j @ take n (Us ! j)]))"
proof -
  let ?iod = "ric_iods ctx ! j" and ?bs = "take n (Us ! j)"
  have iod: "readable (iod_ctx ?iod)" "unread (iod_ctx ?iod) = Us ! j" "iod_size ?iod = length (Cs ! j)"
    using ext j by (auto simp: extents_left_def)
  obtain rc p iod' where r: "data_processor_read_into_buff (env_read env) proc ?iod n = Some (rc, p, iod')" "rc \<le> 0"
      "readable (iod_ctx iod')"
    and ok: "rc = 0 \<Longrightarrow> n \<le> length (Us ! j) \<and>
      p = proc\<lparr>dp_buff := take pos (dp_buff proc) @ ?bs @ drop (pos + n) (dp_buff proc), dp_reader_offset := dp_reader_offset proc + n\<rparr> \<and>
      iod_size iod' = length (Cs ! j) + n \<and> unread (iod_ctx iod') = drop n (Us ! j)"
    using rd.read_into_buff_spec [OF iod(1) order, of n] fits small iod(2,3) pos by auto
  show ?thesis
  proof (cases "rc = 0")
    case False
    then show ?thesis using r by (simp add: read_chunk_def)
  next
    case True
    note ok = ok [OF True]
    have n: "length ?bs = n" using ok by simp
    have p: "p = proc\<lparr>dp_buff := buff_with (dp_buff proc) pos ?bs, dp_reader_offset := dp_reader_offset proc + n\<rparr>"
      using ok n by (simp add: buff_with_def)
    show ?thesis
    proof (cases "ric_check_hash ctx")
      case False
      let ?ctx = "ctx\<lparr>ric_iods := (ric_iods ctx)[j := iod'], ric_hashes := ric_hashes ctx\<rparr>"
      have "read_chunk env j n proc ctx = Some (0, p, ?ctx)" using True r(1) False by (simp add: read_chunk_def)
      moreover have "extents_left unread readable ?ctx (Us[j := drop n (Us ! j)]) (Cs[j := Cs ! j @ ?bs])"
        using ok r(3) n False by (intro extents_left_update [OF ext j]) auto
      moreover have "ctx_frame ctx0 ?ctx" by (rule ctx_frame_update [OF frame])
      ultimately show ?thesis using ok p by blast
    next
      case hash: True
      obtain rc' h where h: "extent_hash_update env (ric_hashes ctx ! j) ?bs = (rc', h)"
        by (cases "extent_hash_update env (ric_hashes ctx ! j) ?bs")
      have fed: "hash_fed (ric_hashes ctx ! j) (Cs ! j)" using ext j hash by (auto simp: extents_left_def)
      let ?ctx = "ctx\<lparr>ric_iods := (ric_iods ctx)[j := iod'], ric_hashes := (ric_hashes ctx)[j := h]\<rparr>"
      have "take n (drop pos (dp_buff p)) = ?bs" using n fits by (simp add: p buff_with_def)
      then have "read_chunk env j n proc ctx = Some (rc', p, ?ctx)"
        using True r(1) hash h fits n order pos by (simp add: read_chunk_def buf_get_in p size_sub_exact)
      moreover have "rc' = 0 \<longrightarrow> extents_left unread readable ?ctx (Us[j := drop n (Us ! j)]) (Cs[j := Cs ! j @ ?bs])"
        using ok r(3) n hash_fed_update [OF fed h] by (auto intro!: extents_left_update [OF ext j])
      moreover have "ctx_frame ctx0 ?ctx" by (rule ctx_frame_update [OF frame])
      moreover have "rc' \<le> 0" using hash_fed_update [OF fed h] by simp
      ultimately show ?thesis using ok p by blast
    qed
  qed
qed

end

subsection \<open>Bytes read and not yet written\<close>

text \<open>The bytes of the object \<open>D\<close> that are read and not written yet are in the buffer.\<close>

definition pending :: "byte list \<Rightarrow> data_processor \<Rightarrow> bool" where
  "pending D proc \<longleftrightarrow> (let n = dp_reader_offset proc - dp_writer_offset proc in
     take n (drop (dp_writer_offset proc - dp_buffer_offset proc) (dp_buff proc)) = take n (drop (dp_writer_offset proc) D))"

definition offsets_order :: "byte list \<Rightarrow> data_processor \<Rightarrow> bool" where
  "offsets_order D proc \<longleftrightarrow>
     dp_buffer_offset proc \<le> dp_writer_offset proc \<and> dp_writer_offset proc \<le> dp_reader_offset proc \<and>
     dp_reader_offset proc \<le> length D \<and> dp_reader_offset proc - dp_buffer_offset proc \<le> length (dp_buff proc) \<and>
     dp_object_size proc = length D \<and> 2 * length D + 2 < size_max"

lemma pending_take:
  assumes "pending D proc" "k \<le> dp_reader_offset proc - dp_writer_offset proc"
  shows "take k (drop (dp_writer_offset proc - dp_buffer_offset proc) (dp_buff proc)) = take k (drop (dp_writer_offset proc) D)"
  using assms arg_cong [where f = "take k", OF assms(1) [unfolded pending_def Let_def]] by (simp add: min_def)

lemma pending_advance:
  assumes "pending D proc" "k \<le> dp_reader_offset proc - dp_writer_offset proc"
    "dp_buffer_offset proc \<le> dp_writer_offset proc" "dp_writer_offset proc \<le> dp_reader_offset proc"
    and "drop (dp_writer_offset proc - dp_buffer_offset proc + k) buff =
         drop (dp_writer_offset proc - dp_buffer_offset proc + k) (dp_buff proc)"
  shows "pending D (proc\<lparr>dp_buff := buff, dp_writer_offset := dp_writer_offset proc + k\<rparr>)"
proof -
  define w s m where "w = dp_writer_offset proc" and "s = dp_writer_offset proc - dp_buffer_offset proc"
    and "m = dp_reader_offset proc - dp_writer_offset proc"
  have "drop k (take m (drop s (dp_buff proc))) = drop k (take m (drop w D))"
    using assms(1) by (simp add: pending_def Let_def w_def s_def m_def)
  then have "take (m - k) (drop (s + k) buff) = take (m - k) (drop (w + k) D)"
    using assms(5) [folded s_def] by (simp add: drop_take add.commute)
  moreover have "w + k - dp_buffer_offset proc = s + k" "dp_reader_offset proc - (w + k) = m - k"
    using assms(3) by (simp_all add: w_def s_def m_def)
  ultimately show ?thesis by (simp add: pending_def w_def [symmetric])
qed

subsection \<open>Sample states\<close>

definition sample_ctx :: "byte list list \<Rightarrow> extent list \<Rightarrow> nat \<Rightarrow> nat \<Rightarrow> posix_fd raid_io_context" where
  "sample_ctx files exts c L =
     \<lparr>ric_current_split = 0, ric_current_split_size = L, ric_current_split_offset = 0, ric_current_split_chunk_size = c,
      ric_n_data_extents = 2, ric_n_parity_extents = 1,
      ric_iods = map (\<lambda>d. \<lparr>iod_ctx = sample_fd (\<lambda>_. OsFull) d 0, iod_size = 0, iod_attrs = None\<rparr>) files,
      ric_hashes = map (\<lambda>_. sample_hash []) files,
      ric_read_extents = exts, ric_check_hash = True, ric_out_extents = exts,
      ric_all_is_written = False, ric_missing_count = 0, ric_rebuild_extent_size = 0, ric_extent_remainder = 0\<rparr>"

definition sample_proc :: "byte list \<Rightarrow> nat \<Rightarrow> nat \<Rightarrow> data_processor" where
  "sample_proc buff n r =
     \<lparr>dp_type = PHO_PROC_ENCODER, dp_done = False, dp_current_target = 0, dp_object_size = n, dp_reader_offset = r,
      dp_reader_stripe_size = 2, dp_writer_offset = 0, dp_writer_stripe_size = 2, dp_buff = buff, dp_buffer_offset = 0,
      dp_io_block_size = 2, dp_xd_rc = 0, dp_xt_rc = []\<rparr>"

lemmas sample_base = sample_ctx_def sample_proc_def sample_env_def sample_extent_def sample_fd_def posix_env_def sample_hash_def

text \<open>A system that grants every request.\<close>

lemma posix_write_full [simp]:
  "pos = length d \<Longrightarrow> pho_posix_write \<lparr>fd_data = d, fd_pos = pos, fd_os = \<lambda>_. OsFull, fd_calls = n\<rparr> bs =
     (0, \<lparr>fd_data = d @ bs, fd_pos = pos + length bs, fd_os = \<lambda>_. OsFull, fd_calls = (if bs = [] then n else n + 1)\<rparr>)"
  unfolding pho_posix_write_def
  by (subst posix_write_loop.simps, cases "bs = []")
    (simp_all add: os_write_def os_grant_def file_overlay_def posix_write_loop.simps [of _ "[]"])

lemma posix_read_full [simp]:
  assumes "n + pos \<le> length d"
  shows "pho_posix_read \<lparr>fd_data = d, fd_pos = pos, fd_os = \<lambda>_. OsFull, fd_calls = k\<rparr> n =
     ((int n, take n (drop pos d)), \<lparr>fd_data = d, fd_pos = pos + n, fd_os = \<lambda>_. OsFull, fd_calls = (if n = 0 then k else k + 1)\<rparr>)"
  using assms unfolding pho_posix_read_def
  by (subst posix_read_loop.simps, cases "n = 0")
    (auto simp: os_read_def os_grant_def store_at_start_def posix_read_loop.simps [of _ _ 0] Let_def)

end
