(* ===== verification/Raid4_Writer.thy ===== *)
theory Raid4_Writer
  imports Raid4
begin

text \<open>
  A RAID4 writer inside a split: the invariant that keeps the stripes aligned with the buffer,
  and what one call of \<open>raid4_write_from_buff\<close> does to the extents.
\<close>

subsection \<open>The invariant of a writer inside a split\<close>

text \<open>
  The stripes stay aligned: the buffer holds whole stripes, the writer is at a multiple of the
  stripe size in the buffer and in the split, the reader filled the buffer or reached the end of
  the object, and the split is a number of whole stripes unless it is the last one.
\<close>

definition stripes_aligned :: "byte list \<Rightarrow> data_processor \<Rightarrow> 'f raid_io_context \<Rightarrow> bool" where
  "stripes_aligned D proc ctx \<longleftrightarrow>
     (let s = 2 * ric_current_split_chunk_size ctx; off = ric_current_split_offset ctx; L = ric_current_split_size ctx;
          w = dp_writer_offset proc
      in 0 < s \<and> s dvd length (dp_buff proc) \<and> s dvd (w - dp_buffer_offset proc) \<and>
         (s dvd (w - off) \<or> w = off + L) \<and> (s dvd L \<or> off + L = length D) \<and>
         (dp_reader_offset proc = dp_buffer_offset proc + length (dp_buff proc) \<or> dp_reader_offset proc = length D
          \<or> dp_reader_offset proc = w))"

definition r4_writer_inv ::
  "('f \<Rightarrow> byte list) \<Rightarrow> ('f \<Rightarrow> bool) \<Rightarrow> byte list \<Rightarrow> data_processor \<Rightarrow> 'f raid_io_context \<Rightarrow> bool" where
  "r4_writer_inv written writable D proc ctx \<longleftrightarrow>
     (let c = ric_current_split_chunk_size ctx; off = ric_current_split_offset ctx; L = ric_current_split_size ctx;
          sofar = take (dp_writer_offset proc - off) (drop off D)
      in \<not> is_rebuilder proc \<and> offsets_order D proc \<and> pending D proc \<and> stripes_aligned D proc ctx \<and>
         off + L \<le> length D \<and> off \<le> dp_writer_offset proc \<and> dp_writer_offset proc \<le> off + L \<and>
         1 < length (ric_out_extents ctx) \<and> ext_size (ric_out_extents ctx ! 0) = (L + 1) div 2 \<and>
         ext_size (ric_out_extents ctx ! 1) = L div 2 \<and>
         extents_are written writable ctx [r4_ext0 c sofar, r4_ext1 c sofar, r4_parity c sofar])"

text \<open>The arithmetic of a write step of \<open>k\<close> bytes.\<close>

lemma step_aligned:
  assumes "stripes_aligned D proc ctx" "offsets_order D proc"
    and "c = ric_current_split_chunk_size ctx" "off = ric_current_split_offset ctx" "L = ric_current_split_size ctx"
    and "off + L \<le> length D" "off \<le> w" "w \<le> off + L" "w = dp_writer_offset proc" "r = dp_reader_offset proc"
    and "n = off + L - w" "k = min n (r - w)" "start = w - dp_buffer_offset proc"
  shows "0 < c" "aligned c k n" "start + padded k \<le> length (dp_buff proc)" "2 * c dvd (w - off) \<or> n = 0"
    "k < r - w \<Longrightarrow> 2 * c dvd k \<and> k = n" "2 * c dvd start"
proof -
  let ?s = "2 * c" and ?b = "dp_buffer_offset proc" and ?len = "length (dp_buff proc)"
  have al: "0 < ?s" "?s dvd ?len" "?s dvd start" "?s dvd (w - off) \<or> w = off + L" "?s dvd L \<or> off + L = length D"
    "r = ?b + ?len \<or> r = length D \<or> r = w"
    using assms(1) by (simp_all add: stripes_aligned_def Let_def assms(3-5,9,10,13))
  have ord: "?b \<le> w" "w \<le> r" "r \<le> length D" "r - ?b \<le> ?len"
    using assms(2) by (simp_all add: offsets_order_def assms(9,10))
  show "0 < c" using al(1) by simp
  show "2 * c dvd start" by (rule al(3))
  show w0: "2 * c dvd (w - off) \<or> n = 0" using al(4) by (auto simp: assms(11))
  have kn: "k = n \<or> k = r - w \<and> k < n" by (auto simp: assms(12) min_def)
  have short: "?s dvd k" if "k = r - w" "k < n"
  proof -
    have "r < length D" using that assms(6,11) by simp
    then consider "r = ?b + ?len" | "r = w" using al(6) by auto
    then show ?thesis
    proof cases
      case 1
      then have "k = ?len - start" using that(1) ord(1) by (simp add: assms(13))
      then show ?thesis using al(2,3) by (simp add: dvd_diff_nat)
    next
      case 2
      then show ?thesis using that by simp
    qed
  qed
  show a: "aligned c k n" using kn short by (auto simp: aligned_def)
  show "k < r - w \<Longrightarrow> 2 * c dvd k \<and> k = n"
  proof -
    assume k: "k < r - w"
    then have n: "k = n" using kn by auto
    then have "off + L \<noteq> length D" using k ord(3) assms(8,11) by auto
    then have "?s dvd L" using al(5) by simp
    moreover have "n = L - (w - off)" using assms(7,8,11) by simp
    ultimately have "?s dvd n" using w0 by (auto simp: dvd_diff_nat)
    then show ?thesis using n by simp
  qed
  have "start + k \<le> ?len" using ord assms(12,13) by auto
  moreover have "even start" "even ?len" using al(2,3) by (auto dest: dvd_mult_left)
  ultimately show "start + padded k \<le> ?len" unfolding padded_def by presburger
qed

lemma half_split:
  assumes "even a \<or> n = 0"
  shows "(a + n + 1) div 2 = (a + 1) div 2 + (n + 1) div 2 \<and> (a + n) div 2 = a div 2 + n div (2 :: nat)"
proof (cases "n = 0")
  case False
  then obtain b where "a = 2 * b" using assms by (auto elim: evenE)
  then show ?thesis by simp
qed simp

lemma extents_are_all_written [simp]:
  "extents_are written writable (ctx\<lparr>ric_all_is_written := b\<rparr>) Xs = extents_are written writable ctx Xs"
  by (simp add: extents_are_def)

context raid_adapter
begin

lemma r4_write_step:
  assumes inv: "r4_writer_inv written writable D proc ctx"
  shows "\<exists>rc p ctx'. raid4_write_from_buff env proc ctx = Some (rc, p, ctx') \<and> rc \<le> 0 \<and>
     (rc = 0 \<longrightarrow> r4_writer_inv written writable D p ctx' \<and>
        dp_writer_offset p = min (ric_current_split_offset ctx + ric_current_split_size ctx) (dp_reader_offset proc) \<and>
        dp_reader_offset p = dp_reader_offset proc \<and>
        (dp_writer_offset p = length D \<longrightarrow> ric_all_is_written ctx'))"
proof -
  define c off L w r where "c = ric_current_split_chunk_size ctx" and "off = ric_current_split_offset ctx"
    and "L = ric_current_split_size ctx" and "w = dp_writer_offset proc" and "r = dp_reader_offset proc"
  define n k start where "n = off + L - w" and "k = min n (r - w)" and "start = w - dp_buffer_offset proc"
  define sofar R where "sofar = take (w - off) (drop off D)" and "R = take n (drop w D)"
  note names = c_def off_def L_def w_def r_def
  have I: "\<not> is_rebuilder proc" "offsets_order D proc" "pending D proc" "stripes_aligned D proc ctx"
    "off + L \<le> length D" "off \<le> w" "w \<le> off + L" "1 < length (ric_out_extents ctx)"
    "ext_size (ric_out_extents ctx ! 0) = (L + 1) div 2" "ext_size (ric_out_extents ctx ! 1) = L div 2"
    "extents_are written writable ctx [r4_ext0 c sofar, r4_ext1 c sofar, r4_parity c sofar]"
    using inv by (simp_all add: r4_writer_inv_def Let_def names [symmetric] sofar_def)
  note A = step_aligned [OF I(4,2) c_def off_def L_def I(5-7) w_def r_def n_def k_def start_def]
  have O: "dp_buffer_offset proc \<le> w" "w \<le> r" "r \<le> length D" "2 * length D + 2 < size_max" "dp_object_size proc = length D"
    using I(2) by (simp_all add: offsets_order_def names)
  have lens: "length R = n" "length sofar = w - off" using I(5-7) by (auto simp: R_def sofar_def n_def)
  have "\<exists>rc p ctx'. raid4_stripes_loop env None ((L + 1) div 2) (L div 2) k proc ctx = Some (rc, p, ctx') \<and> rc \<le> 0 \<and>
     (rc = 0 \<longrightarrow> stripes_written written writable c (take k R) [r4_ext0 c sofar, r4_ext1 c sofar, r4_parity c sofar] proc ctx p ctx')"
  proof (rule write_loop_spec [OF A(1) _ I(11,1) c_def [symmetric] _ _ A(3)])
    show "aligned c k (length R)" using A(2) lens by simp
    show "dp_buffer_offset proc \<le> dp_writer_offset proc" "start = dp_writer_offset proc - dp_buffer_offset proc"
      using O(1) by (simp_all add: w_def start_def)
    show "take k (drop start (dp_buff proc)) = take k R"
      using pending_take [OF I(3), of k] by (simp add: R_def names [symmetric] start_def k_def)
    have "w - off \<le> length D" "n \<le> length D" "w + n \<le> length D" using I(5-7) by (auto simp: n_def)
    then show "dp_writer_offset proc + length R + 1 < size_max" "length (r4_ext0 c sofar) + length R < size_max"
      "length (r4_ext1 c sofar) + length R < size_max" "length (r4_parity c sofar) + length R < size_max"
      using O(4) lens by (auto simp: w_def [symmetric] r4_lengths [OF A(1)])
    have L: "L = (w - off) + n" using I(6,7) by (simp add: n_def)
    have "even (w - off) \<or> n = 0" using A(4) dvd_mult_left by blast
    from half_split [OF this] show "(L + 1) div 2 = length (r4_ext0 c sofar) + (length R + 1) div 2"
      "L div 2 = length (r4_ext1 c sofar) + length R div 2"
      by (simp_all only: r4_lengths [OF A(1)] L lens)
  qed
  then obtain rc p ctx' where loop: "raid4_stripes_loop env None ((L + 1) div 2) (L div 2) k proc ctx = Some (rc, p, ctx')" "rc \<le> 0"
    and post: "rc = 0 \<Longrightarrow>
      stripes_written written writable c (take k R) [r4_ext0 c sofar, r4_ext1 c sofar, r4_parity c sofar] proc ctx p ctx'"
    by blast
  define p' where "p' = (if dp_writer_offset p = dp_reader_offset p then p\<lparr>dp_buffer_offset := dp_writer_offset p\<rparr> else p)"
  define ctx'' where "ctx'' = (if dp_writer_offset p' \<ge> dp_object_size p' then ctx'\<lparr>ric_all_is_written := True\<rparr> else ctx')"
  have run: "raid4_write_from_buff env proc ctx = Some (if rc = 0 then (0, p', ctx'') else (rc, p, ctx'))"
  proof -
    have "size_sub (dp_writer_offset proc) (ric_current_split_offset ctx) = w - off"
      "size_sub L (w - off) = n" "size_sub (dp_reader_offset proc) (dp_writer_offset proc) = r - w"
      using I(6,7) O(2) by (simp_all add: names [symmetric] size_sub_exact n_def)
    then show ?thesis
      using I(8-10) loop(1)
      by (simp add: raid4_write_from_buff_def raid4_write_stripes_from_buff_def seq_res_def names [symmetric] k_def [symmetric]
          p'_def ctx''_def)
  qed
  show ?thesis
  proof (cases "rc = 0")
    case False
    then show ?thesis using run loop(2) by simp
  next
    case True
    have k: "k \<le> n" "k \<le> r - w" "length (take k R) = k" using lens by (auto simp: k_def)
    have P: "ctx_frame ctx ctx'" "extents_are written writable ctx'
        [r4_ext0 c sofar @ r4_ext0 c (take k R), r4_ext1 c sofar @ r4_ext1 c (take k R), r4_parity c sofar @ r4_parity c (take k R)]"
      "p = proc\<lparr>dp_buff := dp_buff p, dp_writer_offset := w + k\<rparr>" "length (dp_buff p) = length (dp_buff proc)"
      "drop (start + padded k) (dp_buff p) = drop (start + padded k) (dp_buff proc)"
      using post [OF True] k(3) by (simp_all add: stripes_written_def Let_def w_def start_def)
    have p: "dp_writer_offset p = w + k" "dp_reader_offset p = r" "dp_buffer_offset p = dp_buffer_offset proc"
      "dp_object_size p = length D" "dp_type p = dp_type proc"
      using O(5) by (subst P(3), simp add: names)+
    have glue: "sofar @ take k R = take (w + k - off) (drop off D)"
      using take_add_drop [of "w - off" off D k] I(6) k(1) by (simp add: sofar_def R_def min_def)
    have ext: "extents_are written writable ctx' [r4_ext0 c (take (w + k - off) (drop off D)),
        r4_ext1 c (take (w + k - off) (drop off D)), r4_parity c (take (w + k - off) (drop off D))]"
    proof (cases "n = 0")
      case True
      then have "k = 0" using k(1) by simp
      then show ?thesis using P(2) by (simp add: r4_ext0_def r4_ext1_def r4_parity_def sofar_def)
    next
      case False
      then have "2 * c dvd length sofar" using A(4) lens by simp
      from r4_append [OF A(1) this, of "take k R"] P(2) glue show ?thesis by simp
    qed
    have frame: "ric_current_split_chunk_size ctx' = c" "ric_current_split_offset ctx' = off" "ric_current_split_size ctx' = L"
      "ric_out_extents ctx' = ric_out_extents ctx"
      using ctx_frame_fields [OF P(1)] by (simp_all add: names)
    have al0: "2 * c dvd length (dp_buff proc)" "2 * c dvd L \<or> off + L = length D"
      "r = dp_buffer_offset proc + length (dp_buff proc) \<or> r = length D \<or> r = w"
      using I(4) by (simp_all add: stripes_aligned_def Let_def names)
    have pos: "2 * c dvd (w + k - off) \<or> w + k = off + L"
    proof (cases "k = n")
      case False
      then have "2 * c dvd k" "2 * c dvd (w - off)" using A(2,4) k(1) by (auto simp: aligned_def)
      then have "2 * c dvd (w - off) + k" by (rule dvd_add [rotated])
      then show ?thesis using I(6) by simp
    qed (use I(7) in \<open>simp add: n_def\<close>)
    have "pending D p' \<and> stripes_aligned D p' ctx' \<and> offsets_order D p'"
    proof (cases "w + k = r")
      case True
      then have "p' = p\<lparr>dp_buffer_offset := r\<rparr>" using p by (simp add: p'_def)
      then show ?thesis
        using p P(4) O True al0 A(1) pos by (simp add: pending_def stripes_aligned_def offsets_order_def frame Let_def)
    next
      case False
      then have p': "p' = p" and k2: "2 * c dvd k" "k = n" "k < r - w" using p A(5) k(2) O(2) by (auto simp: p'_def)
      have "padded k = k" using k2(1) by (auto simp: padded_def elim!: dvdE)
      then have "pending D (proc\<lparr>dp_buff := dp_buff p, dp_writer_offset := dp_writer_offset proc + k\<rparr>)"
        using P(5) k(2) O by (intro pending_advance [OF I(3)]) (simp_all add: names start_def)
      then have "pending D p" by (subst P(3)) (simp add: w_def)
      moreover have "2 * c dvd (w + k - dp_buffer_offset proc)"
        using dvd_add [OF A(6) k2(1)] O(1) by (simp add: start_def)
      moreover have "w + k = off + L" using k2(2) I(7) by (simp add: n_def)
      ultimately show ?thesis
        using p P(4) O k2 al0 A(1) I(2) p' by (auto simp: stripes_aligned_def offsets_order_def frame Let_def w_def r_def)
    qed
    moreover have "dp_writer_offset p' = w + k" "dp_reader_offset p' = r" "dp_type p' = dp_type proc" "dp_object_size p' = length D"
      using p by (simp_all add: p'_def)
    moreover have "w + k \<le> off + L" "off \<le> w + k" using k(1) I(6,7) by (auto simp: n_def)
    moreover have f2: "ric_current_split_chunk_size ctx'' = c" "ric_current_split_offset ctx'' = off"
      "ric_current_split_size ctx'' = L" "ric_out_extents ctx'' = ric_out_extents ctx"
      using frame by (simp_all add: ctx''_def)
    moreover have "extents_are written writable ctx'' Xs = extents_are written writable ctx' Xs" for Xs
      by (simp add: ctx''_def)
    moreover have "stripes_aligned D p' ctx'' = stripes_aligned D p' ctx'"
      using frame f2 by (simp add: stripes_aligned_def)
    ultimately have "r4_writer_inv written writable D p' ctx''"
      using I(1,5,8,9,10) ext by (simp add: r4_writer_inv_def Let_def is_rebuilder_def)
    moreover have "w + k = min (off + L) r" using O(2) I(7) by (auto simp: k_def n_def)
    moreover have "dp_writer_offset p' = w + k" "dp_reader_offset p' = r" "dp_object_size p' = length D"
      using p by (simp_all add: p'_def)
    moreover have "dp_writer_offset p' = length D \<longrightarrow> ric_all_is_written ctx''"
      using p by (simp add: ctx''_def p'_def)
    ultimately show ?thesis using run True by (simp add: names)
  qed
qed

end

end
