(* ===== verification/Raid4_Reader.thy ===== *)
theory Raid4_Reader
  imports Raid4
begin

text \<open>
  Reading a RAID4 split from two of its three extents (\<^verbatim>\<open>src/layout-modules/raid4/read.c\<close>). The
  read extents are sorted by layout index, so that they are the extents (0, 1), (0, 2) or (1, 2)
  of the split.
\<close>

subsection \<open>The read loop\<close>

definition read_extra_parity_byte :: "'f raid_env \<Rightarrow> data_processor \<Rightarrow> 'f raid_io_context \<Rightarrow> 'f raid_res" where
  "read_extra_parity_byte env proc ctx =
     (let iod = ric_iods ctx ! 1;
          ((read_size, bs), f) = env_read env (iod_ctx iod) 1;
          ctx1 = ctx\<lparr>ric_iods := (ric_iods ctx)[1 := iod\<lparr>iod_ctx := f\<rparr>]\<rparr>
      in if read_size < 0 then Some (read_size, proc, ctx1)
         else if read_size = 0 then Some (- EIO, proc, ctx1)
         else
           let ctx2 = ctx\<lparr>ric_iods := (ric_iods ctx)[1 := iod\<lparr>iod_ctx := f, iod_size := size_add (iod_size iod) 1\<rparr>]\<rparr>;
               (rc, h) = extent_hash_update env (ric_hashes ctx ! 1) bs
           in Some (rc, proc, ctx2\<lparr>ric_hashes := (ric_hashes ctx)[1 := h]\<rparr>))"

text \<open>
  One turn of the inner loop, where \<open>left\<close> bytes are still to be read after it: the chunk, then
  the extra parity byte at the end of the split.
\<close>

definition raid4_read_half ::
  "'f raid_env \<Rightarrow> bool \<Rightarrow> nat \<Rightarrow> size_t \<Rightarrow> size_t \<Rightarrow> data_processor \<Rightarrow> 'f raid_io_context \<Rightarrow> 'f raid_res" where
  "raid4_read_half env with_xor ei n left proc ctx =
     seq_res (if n = 0 then Some (0, proc, ctx) else read_chunk env ei n proc ctx)
       (\<lambda>p ctx.
          let sz = ext_size (ric_read_extents ctx ! ei); read = iod_size (ric_iods ctx ! ei) in
          if ric_check_hash ctx \<and> with_xor \<and> ei = 1 \<and> left = 0 \<and>
             size_sub (dp_reader_offset p) (ric_current_split_offset ctx) = ric_current_split_size ctx \<and> sz > read
          then if sz - read = 1 then read_extra_parity_byte env p ctx else None
          else Some (0, p, ctx))"

text \<open>The parity computation at the end of a turn of the outer loop.\<close>

definition raid4_rebuild_chunk ::
  "bool \<Rightarrow> bool \<Rightarrow> nat \<Rightarrow> size_t \<Rightarrow> size_t \<Rightarrow> data_processor \<Rightarrow> data_processor option" where
  "raid4_rebuild_chunk with_xor parity_first pos n0 n1 proc =
     (let parity_count = (if parity_first then n0 else n1);
          parity = (if parity_first then pos else pos + n0);
          data = (if parity_first then pos + n0 else pos)
      in if with_xor \<and> parity_count > 0 then
           (case (if parity_count > n1 then memset_zero (dp_buff proc) (data + n1) (parity_count - n1)
                  else Some (dp_buff proc)) of
              None \<Rightarrow> None
            | Some b1 \<Rightarrow> map_option (\<lambda>b2. proc\<lparr>dp_buff := b2\<rparr>) (xor_in_place b1 data parity parity_count))
         else Some proc)"

definition raid4_read_stripe ::
  "'f raid_env \<Rightarrow> bool \<Rightarrow> bool \<Rightarrow> size_t \<Rightarrow> size_t \<Rightarrow> size_t \<Rightarrow> data_processor \<Rightarrow> 'f raid_io_context \<Rightarrow> 'f raid_res" where
  "raid4_read_stripe env with_xor parity_first to_read n0 n1 proc ctx =
     (let pos = size_sub (dp_reader_offset proc) (dp_buffer_offset proc); ei = (if parity_first then 1 else 0) in
      seq_res (raid4_read_half env with_xor ei n0 (size_sub to_read n0) proc ctx)
        (\<lambda>p ctx. seq_res (raid4_read_half env with_xor ((ei + 1) mod 2) n1 (size_sub (size_sub to_read n0) n1) p ctx)
           (\<lambda>p ctx. case raid4_rebuild_chunk with_xor parity_first pos n0 n1 p of
                      None \<Rightarrow> None
                    | Some p' \<Rightarrow> Some (0, p', ctx))))"

partial_function (option) raid4_read_loop ::
  "'f raid_env \<Rightarrow> bool \<Rightarrow> bool \<Rightarrow> size_t \<Rightarrow> data_processor \<Rightarrow> 'f raid_io_context \<Rightarrow> 'f raid_res" where
  "raid4_read_loop env with_xor parity_first to_read proc ctx =
     (if to_read = 0 then Some (0, proc, ctx)
      else
        let ei = (if parity_first then 1 else 0);
            n0 = min (min to_read (size_sub (ext_size (ric_read_extents ctx ! ei)) (iod_size (ric_iods ctx ! ei))))
                     (ric_current_split_chunk_size ctx);
            n1 = min n0 (size_sub to_read n0)
        in Option.bind (raid4_read_stripe env with_xor parity_first to_read n0 n1 proc ctx)
             (\<lambda>(rc, p, ctx').
                if rc \<noteq> 0 then Some (rc, p, ctx')
                else raid4_read_loop env with_xor parity_first (size_sub (size_sub to_read n0) n1) p ctx'))"

definition raid4_read_into_buff :: "'f raid_env \<Rightarrow> data_processor \<Rightarrow> 'f raid_io_context \<Rightarrow> 'f raid_res" where
  "raid4_read_into_buff env proc ctx =
     (if length (ric_read_extents ctx) < 2 \<or> length (ric_iods ctx) < 2 \<or>
         ric_check_hash ctx \<and> length (ric_hashes ctx) < 2 then None
      else
        let buffer_offset = size_sub (dp_reader_offset proc) (dp_buffer_offset proc);
            inside_split_offset = size_sub (dp_reader_offset proc) (ric_current_split_offset ctx);
            with_extent_0 = (ext_layout_idx (ric_read_extents ctx ! 0) smod 3 = 0);
            with_xor = (ext_layout_idx (ric_read_extents ctx ! 1) smod 3 = 2);
            to_read = min (min (size_sub (dp_object_size proc) (dp_reader_offset proc))
                               (size_sub (ric_current_split_size ctx) inside_split_offset))
                          (size_sub (length (dp_buff proc)) buffer_offset)
        in raid4_read_loop env with_xor (with_xor \<and> \<not> with_extent_0) to_read proc ctx)"

subsection \<open>Chunks\<close>

context raid_adapter
begin

lemma read_extra_spec:
  assumes ext: "extents_left unread readable ctx [U0, [x]] [C0, C1]" and hash: "ric_check_hash ctx"
    and small: "length C1 + 1 < size_max" and frame: "ctx_frame ctx0 ctx"
  shows "\<exists>rc p ctx'. read_extra_parity_byte env proc ctx = Some (rc, p, ctx') \<and> rc \<le> 0 \<and>
     (rc = 0 \<longrightarrow> ctx_frame ctx0 ctx' \<and> p = proc \<and> extents_left unread readable ctx' [U0, []] [C0, C1 @ [x]])"
proof -
  let ?iod = "ric_iods ctx ! 1"
  have iod: "readable (iod_ctx ?iod)" "unread (iod_ctx ?iod) = [x]" "iod_size ?iod = length C1" "hash_fed (ric_hashes ctx ! 1) C1"
    using ext hash by (auto simp: extents_left_def dest: spec [of _ 1])
  obtain r bs f where io: "env_read env (iod_ctx ?iod) 1 = ((r, bs), f)" by (metis surj_pair)
  have f: "readable f" using rd.read_readable [OF iod(1) io] .
  show ?thesis
  proof (cases "r \<le> 0")
    case True
    then show ?thesis using io by (simp add: read_extra_parity_byte_def Let_def)
  next
    case False
    then have r: "r = 1" "bs = [x]" "unread f = []" using rd.read_next [OF iod(1) io] iod(2) by simp_all
    obtain rc h where h: "extent_hash_update env (ric_hashes ctx ! 1) [x] = (rc, h)"
      by (cases "extent_hash_update env (ric_hashes ctx ! 1) [x]")
    note fed = hash_fed_update [OF iod(4) h]
    let ?ctx = "ctx\<lparr>ric_iods := (ric_iods ctx)[1 := ?iod\<lparr>iod_ctx := f, iod_size := size_add (iod_size ?iod) 1\<rparr>],
      ric_hashes := (ric_hashes ctx)[1 := h]\<rparr>"
    have "read_extra_parity_byte env proc ctx = Some (rc, proc, ?ctx)"
      using io r h by (simp add: read_extra_parity_byte_def Let_def)
    moreover have "rc = 0 \<longrightarrow> extents_left unread readable ?ctx ([U0, [x]][1 := []]) ([C0, C1][1 := C1 @ [x]])"
      using f r fed iod small by (intro impI extents_left_update [OF ext]) (auto simp: size_add_exact)
    moreover have "ctx_frame ctx0 ?ctx" by (rule ctx_frame_update [OF frame])
    ultimately show ?thesis using fed by simp
  qed
qed

end

text \<open>The last parity byte is read for the hash only.\<close>

definition extra_parity :: "bool \<Rightarrow> nat \<Rightarrow> nat \<Rightarrow> nat \<Rightarrow> 'f raid_io_context \<Rightarrow> bool" where
  "extra_parity with_xor ei left reader ctx \<longleftrightarrow>
     ric_check_hash ctx \<and> with_xor \<and> ei = 1 \<and> left = 0 \<and>
     size_sub reader (ric_current_split_offset ctx) = ric_current_split_size ctx"

lemma extra_parity_frame: "ctx_frame ctx ctx' \<Longrightarrow> extra_parity wx ei left reader ctx' = extra_parity wx ei left reader ctx"
  using ctx_frame_fields [of ctx ctx'] by (simp add: extra_parity_def)

context raid_adapter
begin

lemma read_half_spec:
  assumes ext: "extents_left unread readable ctx Us Cs" and ei: "ei < 2" "length Us = 2"
    and order: "dp_buffer_offset proc \<le> dp_reader_offset proc" and pos: "pos = dp_reader_offset proc - dp_buffer_offset proc"
    and fits: "pos + n \<le> length (dp_buff proc)" and small: "dp_reader_offset proc + n < size_max"
    and sizes: "sizes_agree ctx Us Cs" and n: "n \<le> length (Us ! ei)"
    and extra: "extra_parity wx ei left (dp_reader_offset proc + n) ctx \<Longrightarrow> length (Us ! ei) \<le> n + 1"
    and frame: "ctx_frame ctx0 ctx"
    and m: "m = (if extra_parity wx ei left (dp_reader_offset proc + n) ctx then length (Us ! ei) else n)"
  shows "\<exists>rc p ctx'. raid4_read_half env wx ei n left proc ctx = Some (rc, p, ctx') \<and> rc \<le> 0 \<and>
     (rc = 0 \<longrightarrow> ctx_frame ctx0 ctx' \<and>
        p = proc\<lparr>dp_buff := buff_with (dp_buff proc) pos (take n (Us ! ei)), dp_reader_offset := dp_reader_offset proc + n\<rparr> \<and>
        extents_left unread readable ctx' (Us[ei := drop m (Us ! ei)]) (Cs[ei := Cs ! ei @ take m (Us ! ei)]))"
proof -
  have tot: "length (Cs ! ei) + length (Us ! ei) < size_max" "length Cs = 2" "ext_size (ric_read_extents ctx ! ei) = length (Cs ! ei) + length (Us ! ei)"
    using sizes ei ext by (auto simp: sizes_agree_def extents_left_def)
  define p1 where "p1 = proc\<lparr>dp_buff := buff_with (dp_buff proc) pos (take n (Us ! ei)), dp_reader_offset := dp_reader_offset proc + n\<rparr>"
  let ?U = "Us[ei := drop n (Us ! ei)]" and ?C = "Cs[ei := Cs ! ei @ take n (Us ! ei)]"
  have first: "\<exists>rc p k. (if n = 0 then Some (0, proc, ctx) else read_chunk env ei n proc ctx) = Some (rc, p, k) \<and> rc \<le> 0 \<and>
      (rc = 0 \<longrightarrow> p = p1 \<and> ctx_frame ctx k \<and> extents_left unread readable k ?U ?C)"
    using read_chunk_spec [OF ext _ order pos fits small _ ctx_frame_refl, of ei] ei tot n ext
    by (cases "n = 0") (auto simp: p1_def)
  show ?thesis
    unfolding raid4_read_half_def
  proof (rule seq_res_bind [where P = "\<lambda>p k. p = p1 \<and> ctx_frame ctx k \<and> extents_left unread readable k ?U ?C", OF first])
    fix p k assume k: "p = p1 \<and> ctx_frame ctx k \<and> extents_left unread readable k ?U ?C"
    then have frames: "ctx_frame ctx0 k" using ctx_frame_trans [OF frame] by blast
    have read: "iod_size (ric_iods k ! ei) = length (Cs ! ei) + n" "ext_size (ric_read_extents k ! ei) = length (Cs ! ei) + length (Us ! ei)"
      using k ei tot n ctx_frame_fields [of ctx k] by (auto simp: extents_left_def)
    have cond: "(ric_check_hash k \<and> wx \<and> ei = 1 \<and> left = 0 \<and>
        size_sub (dp_reader_offset p) (ric_current_split_offset k) = ric_current_split_size k \<and> length (Us ! ei) > n)
      = (extra_parity wx ei left (dp_reader_offset proc + n) ctx \<and> length (Us ! ei) > n)"
      using k extra_parity_frame [of ctx k] by (auto simp: extra_parity_def p1_def)
    show "\<exists>rc' p' ctx'. (let sz = ext_size (ric_read_extents k ! ei); read = iod_size (ric_iods k ! ei) in
          if ric_check_hash k \<and> wx \<and> ei = 1 \<and> left = 0 \<and>
             size_sub (dp_reader_offset p) (ric_current_split_offset k) = ric_current_split_size k \<and> read < sz
          then if sz - read = 1 then read_extra_parity_byte env p k else None
          else Some (0, p, k)) = Some (rc', p', ctx') \<and> rc' \<le> 0 \<and>
        (rc' = 0 \<longrightarrow> ctx_frame ctx0 ctx' \<and>
          p' = proc\<lparr>dp_buff := buff_with (dp_buff proc) pos (take n (Us ! ei)), dp_reader_offset := dp_reader_offset proc + n\<rparr> \<and>
          extents_left unread readable ctx' (Us[ei := drop m (Us ! ei)]) (Cs[ei := Cs ! ei @ take m (Us ! ei)]))"
    proof (cases "extra_parity wx ei left (dp_reader_offset proc + n) ctx \<and> length (Us ! ei) > n")
      case True
      then have e: "ei = 1" "length (Us ! 1) = n + 1" "ric_check_hash k" "m = length (Us ! 1)"
        using extra m cond by (auto simp: extra_parity_def)
      then obtain x where x: "drop n (Us ! 1) = [x]" by (cases "drop n (Us ! 1)") (auto dest: arg_cong [of _ _ length])
      have xs: "Us ! 1 = take n (Us ! 1) @ [x]" using x by (metis append_take_drop_id)
      have lists: "Us = [Us ! 0, Us ! 1]" "Cs = [Cs ! 0, Cs ! 1]"
        using ei tot by (auto intro!: nth_equalityI simp: less_2_cases_iff)
      have "extents_left unread readable k [Us ! 0, [x]] [Cs ! 0, Cs ! 1 @ take n (Us ! 1)]"
        using k e x lists by (metis list_update_code(2,3) One_nat_def)
      from read_extra_spec [OF this e(3) _ frames, of p] obtain rc q k' where
        "read_extra_parity_byte env p k = Some (rc, q, k')" "rc \<le> 0"
        "rc = 0 \<longrightarrow> ctx_frame ctx0 k' \<and> q = p \<and> extents_left unread readable k' [Us ! 0, []] [Cs ! 0, (Cs ! 1 @ take n (Us ! 1)) @ [x]]"
        using tot e by auto
      moreover have "Us[1 := []] = [Us ! 0, []]" "Cs[1 := Cs ! 1 @ Us ! 1] = [Cs ! 0, Cs ! 1 @ Us ! 1]"
        using lists by (metis list_update_code(2,3) One_nat_def)+
      ultimately show ?thesis using True cond read e k xs by (auto simp: p1_def simp del: take_append)
    next
      case False
      then have "drop m (Us ! ei) = drop n (Us ! ei) \<and> take m (Us ! ei) = take n (Us ! ei)" using m n by auto
      then show ?thesis using False cond read k frames n by (auto simp: p1_def)
    qed
  qed
qed

end

subsection \<open>Stripes\<close>

text \<open>What is read of a stripe, in the order of the reads, from the two extents at hand.\<close>

definition read_first :: "bool \<Rightarrow> byte list \<Rightarrow> byte list \<Rightarrow> byte list" where
  "read_first parity_first c0 c1 = (if parity_first then parity_chunk c0 c1 else c0)"

definition read_second :: "bool \<Rightarrow> bool \<Rightarrow> byte list \<Rightarrow> byte list \<Rightarrow> byte list" where
  "read_second with_xor parity_first c0 c1 =
     (if with_xor \<and> \<not> parity_first then take (length c1) (parity_chunk c0 c1) else c1)"

lemma length_read [simp]:
  "length c1 \<le> length c0 \<Longrightarrow> length (read_first pf c0 c1) = length c0"
  "length c1 \<le> length c0 \<Longrightarrow> length (read_second wx pf c0 c1) = length c1"
  by (simp_all add: read_first_def read_second_def)

lemma take_xor_bytes: "take n (xor_bytes a b) = xor_bytes (take n a) (take n b)"
  by (induction a b arbitrary: n rule: xor_bytes.induct) (auto simp: take_Cons split: nat.splits)

lemma rebuild_second:
  "length c1 \<le> length c0 \<Longrightarrow> xor_bytes (take (length c1) (parity_chunk c0 c1)) (take (length c1) c0) = c1"
  by (simp add: parity_chunk_def take_xor_bytes xor_bytes_cancel)

lemma rebuild_first:
  assumes "length c1 \<le> length c0"
  shows "xor_bytes (parity_chunk c0 c1) (c1 @ replicate (length c0 - length c1) 0) = c0"
  using assms by (subst parity_chunk_def, subst xor_bytes_commute [of _ c0]) (simp add: xor_bytes_cancel)

lemma rebuild_chunk_spec:
  assumes "pf \<Longrightarrow> wx" and len: "length c1 \<le> length c0" and fits: "pos + length c0 + length (if pf then c0 else c1) \<le> length buff"
    and buff: "dp_buff proc = buff_with buff pos (read_first pf c0 c1 @ read_second wx pf c0 c1)"
  shows "\<exists>b. raid4_rebuild_chunk wx pf pos (length c0) (length c1) proc = Some (proc\<lparr>dp_buff := b\<rparr>) \<and>
     length b = length buff \<and> take (pos + length c0 + length c1) b = take pos buff @ c0 @ c1"
proof -
  let ?A = "take pos buff" and ?x = "drop (pos + length c0 + length c1) buff"
  have A: "length ?A = pos" using fits by simp
  consider "\<not> wx" "\<not> pf" | "wx" "\<not> pf" | "wx" "pf" using assms(1) by blast
  then show ?thesis
  proof cases
    case 1
    then have "dp_buff proc = ?A @ c0 @ c1 @ ?x"
      using buff by (simp add: buff_with_def read_first_def read_second_def add.assoc)
    then show ?thesis using 1 A fits by (intro exI [of _ "dp_buff proc"]) (simp add: raid4_rebuild_chunk_def)
  next
    case 2
    let ?p = "take (length c1) (parity_chunk c0 c1)"
    have b: "dp_buff proc = ?A @ c0 @ ?p @ ?x"
      using 2 buff len by (simp add: buff_with_def read_first_def read_second_def add.assoc)
    have "xor_in_place (dp_buff proc) pos (pos + length c0) (length c1) = Some (?A @ c0 @ c1 @ ?x)"
      using b A len fits 2 by (simp add: xor_in_place_def buf_get_in buf_put_in rebuild_second)
    moreover have "dp_buff proc = ?A @ c0 @ c1 @ ?x" if "c1 = []" using b that by simp
    ultimately show ?thesis
      using 2 A fits by (intro exI [of _ "?A @ c0 @ c1 @ ?x"]) (cases "c1 = []"; auto simp: raid4_rebuild_chunk_def Let_def)
  next
    case 3
    let ?z = "replicate (length c0 - length c1) 0 :: byte list" and ?P = "parity_chunk c0 c1"
    let ?y = "drop (pos + 2 * length c0) buff"
    have b: "dp_buff proc = ?A @ ?P @ c1 @ ?x"
      using 3 buff len by (simp add: buff_with_def read_first_def read_second_def add.assoc)
    have y: "drop (length c0 - length c1) ?x = ?y" using len by (simp add: mult_2 add.commute add.left_commute)
    have "(if length c1 < length c0 then memset_zero (dp_buff proc) (pos + length c0 + length c1) (length c0 - length c1)
        else Some (dp_buff proc)) = Some (?A @ ?P @ c1 @ ?z @ ?y)"
      using b A len fits 3 y by (auto simp: memset_zero_def buf_put_in mult_2 not_less le_antisym add.assoc)
    moreover have "xor_in_place (?A @ ?P @ c1 @ ?z @ ?y) (pos + length c0) pos (length c0) = Some (?A @ c0 @ c1 @ ?z @ ?y)"
      using A len fits 3 rebuild_first [OF len] by (simp add: xor_in_place_def buf_get_in buf_put_in mult_2)
    moreover have "dp_buff proc = ?A @ c0 @ c1 @ ?z @ ?y" if "c0 = []" using b len that y by (simp add: parity_chunk_def)
    ultimately show ?thesis
      using 3 A fits len by (intro exI [of _ "?A @ c0 @ c1 @ ?z @ ?y"]) (cases "c0 = []"; auto simp: raid4_rebuild_chunk_def Let_def)
  qed
qed


text \<open>The two extents at hand, when the bytes \<open>U\<close> of the split are still to be read.\<close>

definition share_0 :: "bool \<Rightarrow> nat \<Rightarrow> byte list \<Rightarrow> byte list" where
  "share_0 parity_first c U = (if parity_first then r4_ext1 c U else r4_ext0 c U)"

definition share_1 :: "bool \<Rightarrow> nat \<Rightarrow> byte list \<Rightarrow> byte list" where
  "share_1 with_xor c U = (if with_xor then r4_parity c U else r4_ext1 c U)"

lemma shares_step:
  assumes "0 < c" "U \<noteq> []"
  defines "t0 \<equiv> stripe_0 c (length U)" and "t1 \<equiv> stripe_1 c (length U)"
  defines "c0 \<equiv> take t0 U" and "c1 \<equiv> take t1 (drop t0 U)"
  shows "share_0 pf c U = (if pf then c1 else c0) @ share_0 pf c (drop (t0 + t1) U)"
    "share_1 wx c U = (if wx then parity_chunk c0 c1 else c1) @ share_1 wx c (drop (t0 + t1) U)"
  using r4_stripes_step [OF assms(1,2)]
  by (simp_all add: share_0_def share_1_def r4_ext0_def r4_ext1_def r4_parity_def c0_def c1_def t0_def t1_def)

lemma shares_Nil [simp]: "share_0 pf c [] = []" "share_1 wx c [] = []"
  by (simp_all add: share_0_def share_1_def r4_ext0_def r4_ext1_def r4_parity_def)

lemma stripe_aligned:
  assumes "aligned c k n" "0 < c" "0 < k"
  shows "stripe_0 c k = stripe_0 c n \<and> stripe_1 c k = stripe_1 c n \<and> (stripe_0 c k = stripe_1 c k \<or> stripe_0 c k + stripe_1 c k = n)"
proof -
  have "k \<le> n" using assms(1) by (simp add: aligned_def)
  then show ?thesis by (rule_tac aligned_cases [OF assms]) (auto simp: stripe_0_def stripe_1_def)
qed

text \<open>
  The state of the reads inside a split whose two extents hold \<open>F0\<close> and \<open>F1\<close>, when \<open>U\<close> is
  still to be read. At the end of the split, everything was read when the hashes are checked.
\<close>

definition r4_reading ::
  "('f \<Rightarrow> byte list) \<Rightarrow> ('f \<Rightarrow> bool) \<Rightarrow> bool \<Rightarrow> bool \<Rightarrow> 'f raid_io_context \<Rightarrow> byte list \<Rightarrow> byte list \<Rightarrow> byte list \<Rightarrow> bool" where
  "r4_reading unread readable wx pf ctx U F0 F1 \<longleftrightarrow>
     (\<exists>V0 V1 C0 C1. extents_left unread readable ctx [V0, V1] [C0, C1] \<and> sizes_agree ctx [V0, V1] [C0, C1] \<and>
        C0 @ V0 = F0 \<and> C1 @ V1 = F1 \<and>
        (U \<noteq> [] \<longrightarrow> V0 = share_0 pf (ric_current_split_chunk_size ctx) U \<and> V1 = share_1 wx (ric_current_split_chunk_size ctx) U) \<and>
        (U = [] \<and> ric_check_hash ctx \<longrightarrow> V0 = [] \<and> V1 = []))"

lemma sizes_agree_pair:
  "sizes_agree ctx [V0, V1] [C0, C1] \<longleftrightarrow>
     ext_size (ric_read_extents ctx ! 0) = length (C0 @ V0) \<and> length (C0 @ V0) < size_max \<and>
     ext_size (ric_read_extents ctx ! 1) = length (C1 @ V1) \<and> length (C1 @ V1) < size_max"
  by (auto simp: sizes_agree_def All_less_Suc)

lemma sizes_agree_move:
  assumes "sizes_agree ctx [V0, V1] [C0, C1]" "ctx_frame ctx ctx'" "C0' @ V0' = C0 @ V0" "C1' @ V1' = C1 @ V1"
  shows "sizes_agree ctx' [V0', V1'] [C0', C1']"
  using assms(1) unfolding sizes_agree_pair assms(3,4) ctx_frame_fields [OF assms(2)] .

lemma r4_readingI:
  assumes "sizes_agree ctx [V0, V1] [C0, C1]" "ctx_frame ctx ctx'"
    "extents_left unread readable ctx' [drop m0 V0, drop m1 V1] [C0 @ take m0 V0, C1 @ take m1 V1]"
    "U \<noteq> [] \<Longrightarrow> drop m0 V0 = share_0 pf (ric_current_split_chunk_size ctx) U \<and> drop m1 V1 = share_1 wx (ric_current_split_chunk_size ctx) U"
    "U = [] \<Longrightarrow> ric_check_hash ctx \<Longrightarrow> length V0 \<le> m0 \<and> length V1 \<le> m1"
  shows "r4_reading unread readable wx pf ctx' U (C0 @ V0) (C1 @ V1)"
  unfolding r4_reading_def
proof (intro exI conjI)
  show "sizes_agree ctx' [drop m0 V0, drop m1 V1] [C0 @ take m0 V0, C1 @ take m1 V1]"
    by (rule sizes_agree_move [OF assms(1,2)]) simp_all
qed (use assms(3-5) ctx_frame_fields [OF assms(2)] in auto)


lemma list2_update [simp]: "[a, b][Suc 0 := x] = [a, x]" "[a, b][0 := x] = [x, b]"
  by simp_all

context raid_adapter
begin

lemma read_halves:
  assumes ext: "extents_left unread readable ctx [V0, V1] [C0, C1]" and sizes: "sizes_agree ctx [V0, V1] [C0, C1]"
    and ei: "ei = 0 \<or> ei = 1" and A: "A = [V0, V1] ! ei" and B: "B = [V0, V1] ! (1 - ei)"
    and order: "dp_buffer_offset proc \<le> dp_reader_offset proc" and pos: "pos = dp_reader_offset proc - dp_buffer_offset proc"
    and fits: "pos + n0 + n1 \<le> length (dp_buff proc)" and small: "dp_reader_offset proc + n0 + n1 < size_max"
    and n: "n0 \<le> length A" "n1 \<le> length B"
    and x0: "extra_parity wx ei l0 (dp_reader_offset proc + n0) ctx \<Longrightarrow> length A = n0"
    and x1: "extra_parity wx (1 - ei) l1 (dp_reader_offset proc + n0 + n1) ctx \<Longrightarrow> length B \<le> n1 + 1"
    and m1: "m1 = (if extra_parity wx (1 - ei) l1 (dp_reader_offset proc + n0 + n1) ctx then length B else n1)"
  shows "\<exists>rc p ctx'. seq_res (raid4_read_half env wx ei n0 l0 proc ctx) (\<lambda>p k. raid4_read_half env wx (1 - ei) n1 l1 p k)
       = Some (rc, p, ctx') \<and> rc \<le> 0 \<and>
     (rc = 0 \<longrightarrow> ctx_frame ctx ctx' \<and>
        p = proc\<lparr>dp_buff := buff_with (dp_buff proc) pos (take n0 A @ take n1 B), dp_reader_offset := dp_reader_offset proc + (n0 + n1)\<rparr> \<and>
        (let m = (if ei = 0 then (n0, m1) else (m1, n0)) in
         extents_left unread readable ctx' [drop (fst m) V0, drop (snd m) V1] [C0 @ take (fst m) V0, C1 @ take (snd m) V1]))"
proof -
  define p1 where "p1 = proc\<lparr>dp_buff := buff_with (dp_buff proc) pos (take n0 A), dp_reader_offset := dp_reader_offset proc + n0\<rparr>"
  let ?U = "[V0, V1][ei := drop n0 A]" and ?C = "[C0, C1][ei := [C0, C1] ! ei @ take n0 A]"
  have r0: "\<exists>rc p k. raid4_read_half env wx ei n0 l0 proc ctx = Some (rc, p, k) \<and> rc \<le> 0 \<and>
      (rc = 0 \<longrightarrow> ctx_frame ctx k \<and> p = p1 \<and> extents_left unread readable k ?U ?C)"
    unfolding A p1_def
    by (rule read_half_spec [OF ext _ _ order pos _ _ sizes])
      (use ei fits small n x0 A in \<open>auto split: if_splits\<close>)
  show ?thesis
  proof (rule seq_res_bind [OF r0])
    fix p k assume k: "ctx_frame ctx k \<and> p = p1 \<and> extents_left unread readable k ?U ?C"
    have x: "extra_parity wx (1 - ei) l1 (dp_reader_offset p1 + n1) k = extra_parity wx (1 - ei) l1 (dp_reader_offset proc + n0 + n1) ctx"
      by (simp add: p1_def extra_parity_frame [OF conjunct1 [OF k]])
    have B': "?U ! (1 - ei) = B" "?C ! (1 - ei) = [C0, C1] ! (1 - ei)" using ei B by auto
    have sz: "sizes_agree k ?U ?C"
      using ei by (elim disjE) (auto simp: A intro!: sizes_agree_move [OF sizes] conjunct1 [OF k])
    have pos1: "pos + n0 = dp_reader_offset p1 - dp_buffer_offset p1" using order pos by (simp add: p1_def)
    have len: "length (take n0 A) = n0" "length (take n1 B) = n1" using n by simp_all
    have "\<exists>rc p' k'. raid4_read_half env wx (1 - ei) n1 l1 p1 k = Some (rc, p', k') \<and> rc \<le> 0 \<and>
      (rc = 0 \<longrightarrow> ctx_frame ctx k' \<and>
        p' = p1\<lparr>dp_buff := buff_with (dp_buff p1) (pos + n0) (take n1 (?U ! (1 - ei))), dp_reader_offset := dp_reader_offset p1 + n1\<rparr> \<and>
        extents_left unread readable k' (?U[1 - ei := drop m1 (?U ! (1 - ei))])
          (?C[1 - ei := ?C ! (1 - ei) @ take m1 (?U ! (1 - ei))]))"
      by (rule read_half_spec [OF conjunct2 [OF conjunct2 [OF k]] _ _ _ pos1 _ _ sz])
        (use ei fits small n x1 x k m1 order len B' in \<open>auto simp: p1_def\<close>)
    moreover have "buff_with (dp_buff p1) (pos + n0) (take n1 B) = buff_with (dp_buff proc) pos (take n0 A @ take n1 B)"
      using buff_with_append [of pos "take n0 A" "take n1 B" "dp_buff proc"] fits len by (simp add: p1_def)
    ultimately show "\<exists>rc p' k'. raid4_read_half env wx (1 - ei) n1 l1 p k = Some (rc, p', k') \<and> rc \<le> 0 \<and>
      (rc = 0 \<longrightarrow> ctx_frame ctx k' \<and>
        p' = proc\<lparr>dp_buff := buff_with (dp_buff proc) pos (take n0 A @ take n1 B), dp_reader_offset := dp_reader_offset proc + (n0 + n1)\<rparr> \<and>
        (let m = (if ei = 0 then (n0, m1) else (m1, n0)) in
         extents_left unread readable k' [drop (fst m) V0, drop (snd m) V1] [C0 @ take (fst m) V0, C1 @ take (snd m) V1]))"
      unfolding B' conjunct1 [OF conjunct2 [OF k]]
      using ei A B by (elim disjE) (auto simp: p1_def add.assoc)
  qed
qed

end

lemma stripe_near: "stripe_0 c n \<le> stripe_1 c n + 1"
  by (auto simp: stripe_0_def stripe_1_def)

lemma aligned_le: "aligned c k n \<Longrightarrow> k \<le> n"
  by (simp add: aligned_def)

lemma extra_parity_at:
  assumes "reads_at proc ctx U pos" "k \<le> length U"
  shows "extra_parity wx ei left (dp_reader_offset proc + k) ctx \<longleftrightarrow> ric_check_hash ctx \<and> wx \<and> ei = 1 \<and> left = 0 \<and> k = length U"
  using assms by (auto simp: extra_parity_def reads_at_def size_sub_exact)

context raid_adapter
begin

lemma read_stripe_spec:
  assumes rd: "r4_reading unread readable wx pf ctx U F0 F1" and pf: "pf \<Longrightarrow> wx"
    and at: "reads_at proc ctx U pos" and k: "aligned (ric_current_split_chunk_size ctx) k (length U)" "0 < k" "0 < ric_current_split_chunk_size ctx"
    and t0: "t0 = stripe_0 (ric_current_split_chunk_size ctx) k" and t1: "t1 = stripe_1 (ric_current_split_chunk_size ctx) k"
    and fits: "pos + 2 * t0 \<le> length (dp_buff proc)"
  shows "\<exists>rc p ctx'. raid4_read_stripe env wx pf k t0 t1 proc ctx = Some (rc, p, ctx') \<and> rc \<le> 0 \<and>
     (rc = 0 \<longrightarrow> ctx_frame ctx ctx' \<and> r4_reading unread readable wx pf ctx' (drop (t0 + t1) U) F0 F1 \<and>
        (\<exists>b. p = proc\<lparr>dp_buff := b, dp_reader_offset := dp_reader_offset proc + (t0 + t1)\<rparr> \<and>
           length b = length (dp_buff proc) \<and> take (pos + (t0 + t1)) b = take pos (dp_buff proc) @ take (t0 + t1) U))"
proof -
  let ?c = "ric_current_split_chunk_size ctx"
  define c0 where "c0 = take t0 U"
  define c1 where "c1 = take t1 (drop t0 U)"
  define U' where "U' = drop (t0 + t1) U"
  have U: "U \<noteq> []" using k by (auto simp: aligned_def)
  have t: "t1 \<le> t0" "t0 + t1 \<le> k" "k \<le> length U" "t0 = t1 \<or> t0 + t1 = length U" "t0 \<le> t1 + 1 \<or> t0 = t1"
    "t0 = stripe_0 ?c (length U)" "t1 = stripe_1 ?c (length U)"
    using stripe_aligned [OF k(1,3,2)] stripe_le [of ?c k] stripe_near [of ?c k] aligned_le [OF k(1)]
    unfolding t0 t1 by blast+
  have len: "length c0 = t0" "length c1 = t1" using t by (simp_all add: c0_def c1_def)
  obtain V0 V1 C0 C1 where v: "extents_left unread readable ctx [V0, V1] [C0, C1]" "sizes_agree ctx [V0, V1] [C0, C1]"
      "C0 @ V0 = F0" "C1 @ V1 = F1" "V0 = share_0 pf ?c U" "V1 = share_1 wx ?c U"
    using rd U by (auto simp: r4_reading_def)
  have V: "V0 = (if pf then c1 else c0) @ share_0 pf ?c U'" "V1 = (if wx then parity_chunk c0 c1 else c1) @ share_1 wx ?c U'"
    using shares_step(1) [OF k(3) U, of pf] shares_step(2) [OF k(3) U, of wx] v(5,6) t(6,7) by (simp_all add: c0_def c1_def U'_def)
  let ?ei = "if pf then 1 else 0 :: nat" and ?A = "if pf then V1 else V0" and ?B = "if pf then V0 else V1"
  have U'0: "U' = [] \<longleftrightarrow> t0 + t1 = length U" using t by (auto simp: U'_def)
  have ab: "take t0 ?A = read_first pf c0 c1" "take t1 ?B = read_second wx pf c0 c1"
    using V len t(1) pf by (auto simp: read_first_def read_second_def)
  have lens: "t0 \<le> length ?A" "t1 \<le> length ?B" using V len t(1) pf by auto
  have x0: "length ?A = t0" if "extra_parity wx ?ei (k - t0) (dp_reader_offset proc + t0) ctx"
    using that extra_parity_at [OF at, of t0] t V len U'0 by (auto split: if_splits)
  define x where "x = extra_parity wx (1 - ?ei) (k - t0 - t1) (dp_reader_offset proc + t0 + t1) ctx"
  have x: "x \<longleftrightarrow> ric_check_hash ctx \<and> wx \<and> \<not> pf \<and> U' = []"
    using extra_parity_at [OF at, of "t0 + t1"] t U'0 unfolding x_def by (auto simp: add.assoc)
  have x1: "length ?B \<le> t1 + 1" if x using that V len t x by (auto split: if_splits)
  define m1 where "m1 = (if x then length ?B else t1)"
  let ?m = "if ?ei = 0 then (t0, m1) else (m1, t0)"
  have run: "raid4_read_stripe env wx pf k t0 t1 proc ctx =
     seq_res (seq_res (raid4_read_half env wx ?ei t0 (k - t0) proc ctx) (\<lambda>p k'. raid4_read_half env wx (1 - ?ei) t1 (k - t0 - t1) p k'))
       (\<lambda>p k'. case raid4_rebuild_chunk wx pf pos t0 t1 p of None \<Rightarrow> None | Some p' \<Rightarrow> Some (0, p', k'))"
    using at t by (simp add: raid4_read_stripe_def Let_def seq_res_assoc reads_at_def size_sub_exact)
  have halves: "\<exists>rc p ctx'. seq_res (raid4_read_half env wx ?ei t0 (k - t0) proc ctx) (\<lambda>p k'. raid4_read_half env wx (1 - ?ei) t1 (k - t0 - t1) p k')
       = Some (rc, p, ctx') \<and> rc \<le> 0 \<and>
     (rc = 0 \<longrightarrow> ctx_frame ctx ctx' \<and>
        p = proc\<lparr>dp_buff := buff_with (dp_buff proc) pos (take t0 ?A @ take t1 ?B), dp_reader_offset := dp_reader_offset proc + (t0 + t1)\<rparr> \<and>
        (let m = ?m in
         extents_left unread readable ctx' [drop (fst m) V0, drop (snd m) V1] [C0 @ take (fst m) V0, C1 @ take (snd m) V1]))"
    by (rule read_halves [OF v(1,2)])
      (use at fits t lens x0 x1 in \<open>auto simp: reads_at_def m1_def x_def\<close>)
  show ?thesis
    unfolding run
  proof (rule seq_res_bind [OF halves])
    fix p ctx'
    assume p: "ctx_frame ctx ctx' \<and>
        p = proc\<lparr>dp_buff := buff_with (dp_buff proc) pos (take t0 ?A @ take t1 ?B), dp_reader_offset := dp_reader_offset proc + (t0 + t1)\<rparr> \<and>
        (let m = ?m in
         extents_left unread readable ctx' [drop (fst m) V0, drop (snd m) V1] [C0 @ take (fst m) V0, C1 @ take (snd m) V1])"
    have "r4_reading unread readable wx pf ctx' U' (C0 @ V0) (C1 @ V1)"
    proof (rule r4_readingI [OF v(2), of _ _ _ "fst ?m" "snd ?m"])
      show "drop (fst ?m) V0 = share_0 pf ?c U' \<and> drop (snd ?m) V1 = share_1 wx ?c U'" if "U' \<noteq> []"
        using V len t(1,4) U'0 x that pf by (auto simp: m1_def)
      show "length V0 \<le> fst ?m \<and> length V1 \<le> snd ?m" if "U' = []" "ric_check_hash ctx"
        using V len t(1) x that pf by (auto simp: m1_def)
    qed (use p in \<open>auto simp: Let_def\<close>)
    moreover have "pos + length c0 + length (if pf then c0 else c1) \<le> length (dp_buff proc)" using fits len t(1) by auto
    then obtain b where "raid4_rebuild_chunk wx pf pos t0 t1 p = Some (p\<lparr>dp_buff := b\<rparr>)" "length b = length (dp_buff proc)"
        "take (pos + t0 + t1) b = take pos (dp_buff proc) @ c0 @ c1"
      using rebuild_chunk_spec [of pf wx c1 c0 pos "dp_buff proc" p] pf len t(1) p ab by auto
    moreover have "c0 @ c1 = take (t0 + t1) U" by (simp add: c0_def c1_def take_add)
    moreover have "p\<lparr>dp_buff := b\<rparr> = proc\<lparr>dp_buff := b, dp_reader_offset := dp_reader_offset proc + (t0 + t1)\<rparr>"
      using p by (cases proc) simp
    ultimately show "\<exists>rc p' k'. (case raid4_rebuild_chunk wx pf pos t0 t1 p of None \<Rightarrow> None | Some p' \<Rightarrow> Some (0 :: int, p', ctx')) = Some (rc, p', k') \<and>
        rc \<le> 0 \<and> (rc = 0 \<longrightarrow> ctx_frame ctx k' \<and> r4_reading unread readable wx pf k' (drop (t0 + t1) U) F0 F1 \<and>
        (\<exists>b. p' = proc\<lparr>dp_buff := b, dp_reader_offset := dp_reader_offset proc + (t0 + t1)\<rparr> \<and>
           length b = length (dp_buff proc) \<and> take (pos + (t0 + t1)) b = take pos (dp_buff proc) @ take (t0 + t1) U))"
      using conjunct1 [OF p] v(3,4) by (simp add: U'_def add.assoc) blast
  qed
qed

end

lemma first_left:
  assumes "r4_reading unread readable wx pf ctx U F0 F1" "U \<noteq> []" "pf \<Longrightarrow> wx" "0 < ric_current_split_chunk_size ctx"
  defines "ei \<equiv> if pf then 1 else 0"
  shows "size_sub (ext_size (ric_read_extents ctx ! ei)) (iod_size (ric_iods ctx ! ei)) = (length U + 1) div 2"
proof -
  let ?c = "ric_current_split_chunk_size ctx"
  obtain C0 C1 where v: "extents_left unread readable ctx [share_0 pf ?c U, share_1 wx ?c U] [C0, C1]"
      "sizes_agree ctx [share_0 pf ?c U, share_1 wx ?c U] [C0, C1]"
    using assms(1,2) by (auto simp: r4_reading_def)
  have "iod_size (ric_iods ctx ! 0) = length C0" "iod_size (ric_iods ctx ! 1) = length C1"
    using v(1) by (auto simp: extents_left_def All_less_Suc)
  then show ?thesis
    using v(2) assms(3) r4_lengths [OF assms(4), of U]
    by (simp add: sizes_agree_pair ei_def share_0_def share_1_def size_sub_exact)
qed

lemma bind_seq_res: "Option.bind r (\<lambda>(rc, p, c). if rc \<noteq> 0 then Some (rc, p, c) else f p c) = seq_res r f"
  by (cases r) (auto simp: seq_res_def)

lemma second_size:
  assumes "aligned c k n" "0 < c" "0 < k"
  shows "min (stripe_0 c k) (k - stripe_0 c k) = stripe_1 c k"
  using assms by (rule_tac aligned_cases [OF assms]) (auto simp: stripe_0_def stripe_1_def)

context raid_adapter
begin

lemma read_loop_spec:
  assumes "r4_reading unread readable wx pf ctx U F0 F1" and "reads_at proc ctx U pos"
    and "ric_current_split_chunk_size ctx = c" and "aligned c k (length U)"
    and "pos + padded k \<le> length (dp_buff proc)" and c: "0 < c" and pf: "pf \<Longrightarrow> wx"
  shows "\<exists>rc p ctx'. raid4_read_loop env wx pf k proc ctx = Some (rc, p, ctx') \<and> rc \<le> 0 \<and>
     (rc = 0 \<longrightarrow> ctx_frame ctx ctx' \<and> r4_reading unread readable wx pf ctx' (drop k U) F0 F1 \<and>
        (\<exists>b. p = proc\<lparr>dp_buff := b, dp_reader_offset := dp_reader_offset proc + k\<rparr> \<and>
           length b = length (dp_buff proc) \<and> take (pos + k) b = take pos (dp_buff proc) @ take k U))"
  using assms(1-5)
proof (induction k arbitrary: U proc ctx pos rule: less_induct)
  case (less k)
  show ?case
  proof (cases "k = 0")
    case True
    then show ?thesis
      using less.prems by (subst raid4_read_loop.simps) (auto intro!: exI [of _ "dp_buff proc"])
  next
    case False
    define t0 t1 where "t0 = stripe_0 c k" and "t1 = stripe_1 c k"
    have kpos: "0 < k" using False by simp
    have kU: "k \<le> length U" "U \<noteq> []" using aligned_le [OF less.prems(4)] kpos by auto
    note sz = stripe_sizes [OF less.prems(4) c kpos, folded t0_def t1_def]
      padded_rest [OF less.prems(4) c kpos, folded t0_def t1_def] padded_stripe [of c k, folded t0_def]
    let ?Q = "\<lambda>p k1. ctx_frame ctx k1 \<and> r4_reading unread readable wx pf k1 (drop (t0 + t1) U) F0 F1 \<and>
        (\<exists>b. p = proc\<lparr>dp_buff := b, dp_reader_offset := dp_reader_offset proc + (t0 + t1)\<rparr> \<and>
           length b = length (dp_buff proc) \<and> take (pos + (t0 + t1)) b = take pos (dp_buff proc) @ take (t0 + t1) U)"
    have stripe: "\<exists>rc p k1. raid4_read_stripe env wx pf k t0 t1 proc ctx = Some (rc, p, k1) \<and> rc \<le> 0 \<and> (rc = 0 \<longrightarrow> ?Q p k1)"
      by (rule read_stripe_spec [OF less.prems(1) _ less.prems(2)])
        (use pf less.prems(3,4,5) kpos c sz(10) in \<open>auto simp: t0_def t1_def\<close>)
    have n0: "min (min k (size_sub (ext_size (ric_read_extents ctx ! (if pf then 1 else 0)))
        (iod_size (ric_iods ctx ! (if pf then 1 else 0))))) (ric_current_split_chunk_size ctx) = t0"
      using first_left [OF less.prems(1) kU(2)] pf c sz(1) less.prems(3) by simp
    have n1: "min t0 (k - t0) = t1" using second_size [OF less.prems(4) c kpos] by (simp add: t0_def t1_def)
    have small: "length U < size_max" using less.prems(2) by (simp add: reads_at_def)
    have ss: "size_sub k t0 = k - t0" "size_sub (k - t0) t1 = k - (t0 + t1)"
      using sz(7) small kU by (simp_all add: size_sub_exact)
    have run: "raid4_read_loop env wx pf k proc ctx =
        seq_res (raid4_read_stripe env wx pf k t0 t1 proc ctx) (raid4_read_loop env wx pf (k - (t0 + t1)))"
      by (subst raid4_read_loop.simps) (simp only: Let_def n0 ss n1 False if_False bind_seq_res)
    show ?thesis
      unfolding run
    proof (rule seq_res_bind [OF stripe])
      fix p k1 assume "?Q p k1"
      then obtain b where p: "p = proc\<lparr>dp_buff := b, dp_reader_offset := dp_reader_offset proc + (t0 + t1)\<rparr>"
          "length b = length (dp_buff proc)" "take (pos + (t0 + t1)) b = take pos (dp_buff proc) @ take (t0 + t1) U"
        and k1: "ctx_frame ctx k1" "r4_reading unread readable wx pf k1 (drop (t0 + t1) U) F0 F1"
        by blast
      let ?k = "k - (t0 + t1)"
      have "\<exists>rc p' k'. raid4_read_loop env wx pf ?k p k1 = Some (rc, p', k') \<and> rc \<le> 0 \<and>
         (rc = 0 \<longrightarrow> ctx_frame k1 k' \<and> r4_reading unread readable wx pf k' (drop ?k (drop (t0 + t1) U)) F0 F1 \<and>
           (\<exists>b. p' = p\<lparr>dp_buff := b, dp_reader_offset := dp_reader_offset p + ?k\<rparr> \<and>
             length b = length (dp_buff p) \<and> take (pos + (t0 + t1) + ?k) b = take (pos + (t0 + t1)) (dp_buff p) @ take ?k (drop (t0 + t1) U)))"
      proof (rule less.IH [OF _ k1(2)])
        show "?k < k" using sz(6,7) by linarith
        show "reads_at p k1 (drop (t0 + t1) U) (pos + (t0 + t1))"
          using less.prems(2) sz(7) kU ctx_frame_fields [OF k1(1)] by (auto simp: reads_at_def p)
        show "ric_current_split_chunk_size k1 = c" using less.prems(3) ctx_frame_fields [OF k1(1)] by simp
        show "aligned c ?k (length (drop (t0 + t1) U))" using sz(5) by simp
        show "pos + (t0 + t1) + padded ?k \<le> length (dp_buff p)" using less.prems(5) sz(8) p by simp
      qed
      then obtain rc p' k' where loop: "raid4_read_loop env wx pf ?k p k1 = Some (rc, p', k')" "rc \<le> 0"
        and post: "rc = 0 \<Longrightarrow> ctx_frame k1 k' \<and> r4_reading unread readable wx pf k' (drop ?k (drop (t0 + t1) U)) F0 F1 \<and>
           (\<exists>b. p' = p\<lparr>dp_buff := b, dp_reader_offset := dp_reader_offset p + ?k\<rparr> \<and>
             length b = length (dp_buff p) \<and> take (pos + (t0 + t1) + ?k) b = take (pos + (t0 + t1)) (dp_buff p) @ take ?k (drop (t0 + t1) U))"
        by blast
      have eqs: "take (t0 + t1) U @ take ?k (drop (t0 + t1) U) = take k U"
        "pos + (t0 + t1) + ?k = pos + k" "dp_reader_offset p + ?k = dp_reader_offset proc + k" "drop ?k (drop (t0 + t1) U) = drop k U"
        using sz(7) by (simp_all add: p add.commute take_add [symmetric])
      have "ctx_frame ctx k' \<and> r4_reading unread readable wx pf k' (drop k U) F0 F1 \<and>
           (\<exists>b. p' = proc\<lparr>dp_buff := b, dp_reader_offset := dp_reader_offset proc + k\<rparr> \<and>
             length b = length (dp_buff proc) \<and> take (pos + k) b = take pos (dp_buff proc) @ take k U)" if rc0: "rc = 0"
      proof -
        obtain b' where b': "p' = p\<lparr>dp_buff := b', dp_reader_offset := dp_reader_offset p + ?k\<rparr>" "length b' = length (dp_buff p)"
            "take (pos + k) b' = take (pos + (t0 + t1)) (dp_buff p) @ take ?k (drop (t0 + t1) U)"
          using post [OF rc0] unfolding eqs(2) by blast
        have "p' = proc\<lparr>dp_buff := b', dp_reader_offset := dp_reader_offset proc + k\<rparr>"
          using b'(1) eqs(3) by (simp add: p(1))
        moreover have "take (pos + k) b' = take pos (dp_buff proc) @ take k U"
          using b'(3) p(1,3) eqs(1) by simp
        ultimately show ?thesis
          using post [OF rc0] ctx_frame_trans [OF k1(1)] b'(2) p(1,2) eqs(4) by auto
      qed
      then show "\<exists>rc p' k'. raid4_read_loop env wx pf ?k p k1 = Some (rc, p', k') \<and> rc \<le> 0 \<and>
         (rc = 0 \<longrightarrow> ctx_frame ctx k' \<and> r4_reading unread readable wx pf k' (drop k U) F0 F1 \<and>
           (\<exists>b. p' = proc\<lparr>dp_buff := b, dp_reader_offset := dp_reader_offset proc + k\<rparr> \<and>
             length b = length (dp_buff proc) \<and> take (pos + k) b = take pos (dp_buff proc) @ take k U))"
        using loop by blast
    qed
  qed
qed

end

subsection \<open>Reading a split\<close>

text \<open>The three extents of a split, by their index in the split.\<close>

definition r4_extent :: "nat \<Rightarrow> byte list \<Rightarrow> nat \<Rightarrow> byte list" where
  "r4_extent c S i = [r4_ext0 c S, r4_ext1 c S, r4_parity c S] ! i"

text \<open>The read extents are those of indices \<open>i < j\<close> of the split number \<open>s\<close>.\<close>

definition extents_at :: "'f raid_io_context \<Rightarrow> nat \<Rightarrow> nat \<Rightarrow> nat \<Rightarrow> bool" where
  "extents_at ctx s i j \<longleftrightarrow> i < j \<and> j \<le> 2 \<and> length (ric_read_extents ctx) = 2 \<and>
     ext_layout_idx (ric_read_extents ctx ! 0) = int (3 * s + i) \<and>
     ext_layout_idx (ric_read_extents ctx ! 1) = int (3 * s + j)"

lemma smod_3: "int (3 * s + i) smod 3 = int (i mod 3)"
proof -
  have "int (3 * s + i) mod 3 = int ((3 * s + i) mod 3)" by (simp only: zmod_int of_nat_numeral)
  then show ?thesis by (cases "i = 0") (simp_all add: signed_modulo_int_def sgn_if)
qed

lemma r4_reading_start:
  assumes "extents_left unread readable ctx [r4_extent c S i, r4_extent c S j] [[], []]"
    "sizes_agree ctx [r4_extent c S i, r4_extent c S j] [[], []]" "ric_current_split_chunk_size ctx = c" "i < j" "j \<le> 2"
  shows "r4_reading unread readable (j = 2) (j = 2 \<and> i \<noteq> 0) ctx S (r4_extent c S i) (r4_extent c S j)"
proof -
  consider "i = 0" "j = 1" | "i = 0" "j = 2" | "i = 1" "j = 2" using assms(4,5) by linarith
  then have "r4_extent c S i = share_0 (j = 2 \<and> i \<noteq> 0) c S \<and> r4_extent c S j = share_1 (j = 2) c S"
    by cases (simp_all add: r4_extent_def share_0_def share_1_def)
  then show ?thesis
    unfolding r4_reading_def using assms(1-3)
    by (rule_tac exI [of _ "r4_extent c S i"], rule_tac exI [of _ "r4_extent c S j"], rule_tac exI [of _ "[]"],
        rule_tac exI [of _ "[]"]) auto
qed

lemma room_aligned:
  assumes "2 * c dvd room" "k = min n room"
  shows "aligned c k n" "padded k \<le> room"
proof -
  show "aligned c k n" using assms by (auto simp: aligned_def min_def)
  obtain q where "room = 2 * (c * q)" using assms(1) by (metis dvdE mult.assoc)
  then show "padded k \<le> room" using assms(2) by (auto simp: padded_def)
qed

context raid_adapter
begin

lemma r4_read_step:
  assumes rd: "r4_reading unread readable (j = 2) (j = 2 \<and> i \<noteq> 0) ctx U F0 F1" and idx: "extents_at ctx s i j"
    and at: "reads_at proc ctx U pos" and obj: "dp_reader_offset proc + length U \<le> dp_object_size proc" "dp_object_size proc < size_max"
    and c: "ric_current_split_chunk_size ctx = c" "0 < c"
    and buff: "pos \<le> length (dp_buff proc)" "length (dp_buff proc) < size_max" "2 * c dvd length (dp_buff proc) - pos"
    and k: "k = min (length U) (length (dp_buff proc) - pos)"
  shows "\<exists>rc p ctx'. raid4_read_into_buff env proc ctx = Some (rc, p, ctx') \<and> rc \<le> 0 \<and>
     (rc = 0 \<longrightarrow> ctx_frame ctx ctx' \<and> r4_reading unread readable (j = 2) (j = 2 \<and> i \<noteq> 0) ctx' (drop k U) F0 F1 \<and>
        (\<exists>b. p = proc\<lparr>dp_buff := b, dp_reader_offset := dp_reader_offset proc + k\<rparr> \<and>
           length b = length (dp_buff proc) \<and> take (pos + k) b = take pos (dp_buff proc) @ take k U))"
proof -
  have ij: "i < j" "j \<le> 2" using idx by (simp_all add: extents_at_def)
  have "length (ric_iods ctx) = 2" "ric_check_hash ctx \<longrightarrow> \<not> length (ric_hashes ctx) < 2"
    using rd by (auto simp: r4_reading_def extents_left_def)
  moreover have "ext_layout_idx (ric_read_extents ctx ! 0) smod 3 = int i" "ext_layout_idx (ric_read_extents ctx ! 1) smod 3 = int j"
    using idx ij smod_3 [of s i] smod_3 [of s j] by (simp_all add: extents_at_def)
  moreover have "size_sub (dp_reader_offset proc) (dp_buffer_offset proc) = pos" "size_sub (length (dp_buff proc)) pos = length (dp_buff proc) - pos"
    using at buff by (simp_all add: reads_at_def size_sub_exact)
  moreover have "min (size_sub (dp_object_size proc) (dp_reader_offset proc))
      (size_sub (ric_current_split_size ctx) (size_sub (dp_reader_offset proc) (ric_current_split_offset ctx))) = length U"
  proof -
    have "ric_current_split_offset ctx \<le> dp_reader_offset proc" "dp_reader_offset proc < size_max"
      "dp_reader_offset proc - ric_current_split_offset ctx + length U = ric_current_split_size ctx" "ric_current_split_size ctx < size_max"
      using at by (auto simp: reads_at_def)
    then show ?thesis using obj by (simp add: size_sub_exact)
  qed
  ultimately have run: "raid4_read_into_buff env proc ctx = raid4_read_loop env (j = 2) (j = 2 \<and> i \<noteq> 0) k proc ctx"
    using idx k ij by (auto simp: raid4_read_into_buff_def extents_at_def Let_def)
  note room = room_aligned [OF buff(3) k]
  show ?thesis
    unfolding run by (rule read_loop_spec [OF rd at c(1) room(1) _ c(2)]) (use room(2) buff(1) in simp_all)
qed

end

end
