(* ===== verification/Raid4_Codec.thy ===== *)
theory Raid4_Codec
  imports Raid4_Writer Raid4_Reader
begin

text \<open>
  The RAID4 layout on POSIX extents: what the writer stores, what the reader gives back, and that
  any two of the three extents of a split give back its bytes.
\<close>

subsection \<open>Properties of the writer and of the reader\<close>

text \<open>
  C4. Inside a split, one call of the RAID4 writer always returns; when it succeeds, the three
  extents hold the data shares and the parity of exactly the bytes of the split written so far,
  their hashes were fed with the same bytes, the stripes stay aligned with the buffer, the writer
  reaches the reader or the end of the split, and the end of the object is noticed.
\<close>

theorem raid4_write_keeps_extents:
  assumes "r4_writer_inv fd_data posix_writable D proc ctx"
  shows "\<exists>rc p ctx'. raid4_write_from_buff (posix_env md5 xxh128 hash_fails) proc ctx = Some (rc, p, ctx') \<and> rc \<le> 0 \<and>
     (rc = 0 \<longrightarrow> r4_writer_inv fd_data posix_writable D p ctx' \<and>
        dp_writer_offset p = min (ric_current_split_offset ctx + ric_current_split_size ctx) (dp_reader_offset proc) \<and>
        dp_reader_offset p = dp_reader_offset proc \<and>
        (dp_writer_offset p = length D \<longrightarrow> ric_all_is_written ctx'))"
  by (rule posix_raid.r4_write_step [OF assms])

text \<open>
  C5. Inside a split of which the bytes \<open>U\<close> are still to be read from the extents of indices
  \<open>i < j\<close>, one call of the RAID4 reader always returns; when it succeeds, the buffer has received
  the next bytes of the split, as many as there is room for, after the bytes that were there, and
  the extents and their hashes are at the matching place.
\<close>

theorem raid4_read_next_bytes:
  assumes "r4_reading posix_unread posix_readable (j = 2) (j = 2 \<and> i \<noteq> 0) ctx U F0 F1" and "extents_at ctx s i j"
    and "reads_at proc ctx U pos" and "dp_reader_offset proc + length U \<le> dp_object_size proc" "dp_object_size proc < size_max"
    and "ric_current_split_chunk_size ctx = c" "0 < c"
    and "pos \<le> length (dp_buff proc)" "length (dp_buff proc) < size_max" "2 * c dvd length (dp_buff proc) - pos"
    and "k = min (length U) (length (dp_buff proc) - pos)"
  shows "\<exists>rc p ctx'. raid4_read_into_buff (posix_env md5 xxh128 hash_fails) proc ctx = Some (rc, p, ctx') \<and> rc \<le> 0 \<and>
     (rc = 0 \<longrightarrow> ctx_frame ctx ctx' \<and> r4_reading posix_unread posix_readable (j = 2) (j = 2 \<and> i \<noteq> 0) ctx' (drop k U) F0 F1 \<and>
        (\<exists>b. p = proc\<lparr>dp_buff := b, dp_reader_offset := dp_reader_offset proc + k\<rparr> \<and>
           length b = length (dp_buff proc) \<and> take (pos + k) b = take pos (dp_buff proc) @ take k U))"
  by (rule posix_raid.r4_read_step [OF assms])

subsection \<open>Round trip\<close>

text \<open>The contents of the extents when the writer has reached the end of its split.\<close>

lemma r4_split_written:
  assumes "r4_writer_inv written writable D proc ctx" "dp_writer_offset proc = ric_current_split_offset ctx + ric_current_split_size ctx"
    "i \<le> 2" "S = take (ric_current_split_size ctx) (drop (ric_current_split_offset ctx) D)"
  shows "written (iod_ctx (ric_iods ctx ! i)) = r4_extent (ric_current_split_chunk_size ctx) S i"
    and "hash_fed (ric_hashes ctx ! i) (r4_extent (ric_current_split_chunk_size ctx) S i)"
  using assms by (auto simp: r4_writer_inv_def extents_are_def r4_extent_def Let_def)

lemma r4_reading_done:
  assumes "r4_reading unread readable wx pf ctx [] F0 F1" "ric_check_hash ctx"
  shows "hash_fed (ric_hashes ctx ! 0) F0 \<and> hash_fed (ric_hashes ctx ! 1) F1"
  using assms by (auto simp: r4_reading_def extents_left_def All_less_Suc)

text \<open>
  C3. A split that the RAID4 writer completed can be read from any two of its three extents: the
  reader gives back the bytes of the split, and when the whole split is read with hashes checked,
  each hash was fed with the whole content of its extent, as the hash of the writer was.
\<close>

theorem raid4_round_trip:
  assumes "r4_writer_inv fd_data posix_writable D wproc wctx"
    and "raid4_write_from_buff (posix_env md5 xxh128 hash_fails) wproc wctx = Some (0, wproc', wctx')"
    and "dp_writer_offset wproc' = ric_current_split_offset wctx' + ric_current_split_size wctx'"
    and S: "S = take (ric_current_split_size wctx') (drop (ric_current_split_offset wctx') D)"
    and x: "\<And>i. x i = fd_data (iod_ctx (ric_iods wctx' ! i))"
    and ij: "extents_at ctx s i j"
    and rd: "extents_left posix_unread posix_readable ctx [x i, x j] [[], []]" "sizes_agree ctx [x i, x j] [[], []]"
    and c: "ric_current_split_chunk_size ctx = c" "ric_current_split_chunk_size wctx' = c"
    and at: "reads_at proc ctx S pos" and obj: "dp_reader_offset proc + length S \<le> dp_object_size proc" "dp_object_size proc < size_max"
    and buff: "pos \<le> length (dp_buff proc)" "length (dp_buff proc) < size_max" "2 * c dvd length (dp_buff proc) - pos"
    and k: "k = min (length S) (length (dp_buff proc) - pos)"
  shows "\<exists>rc p ctx'. raid4_read_into_buff (posix_env md5 xxh128 hash_fails) proc ctx = Some (rc, p, ctx') \<and> rc \<le> 0 \<and>
     (rc = 0 \<longrightarrow> dp_reader_offset p = dp_reader_offset proc + k \<and>
        take (pos + k) (dp_buff p) = take pos (dp_buff proc) @ take k S \<and>
        (k = length S \<and> ric_check_hash ctx \<longrightarrow>
           hash_fed (ric_hashes ctx' ! 0) (x i) \<and> hash_fed (ric_hashes wctx' ! i) (x i) \<and>
           hash_fed (ric_hashes ctx' ! 1) (x j) \<and> hash_fed (ric_hashes wctx' ! j) (x j)))"
proof -
  have w: "r4_writer_inv fd_data posix_writable D wproc' wctx'"
    using posix_raid.r4_write_step [OF assms(1), of md5 xxh128 hash_fails] assms(2) by simp
  have c0: "0 < c" using w c(2) by (auto simp: r4_writer_inv_def stripes_aligned_def Let_def)
  have ij': "i < j" "j \<le> 2" "i \<le> 2" using ij by (auto simp: extents_at_def)
  have x': "x n = r4_extent c S n" "hash_fed (ric_hashes wctx' ! n) (x n)" if "n \<le> 2" for n
    using r4_split_written [OF w assms(3) that S] x c(2) by simp_all
  have start: "r4_reading posix_unread posix_readable (j = 2) (j = 2 \<and> i \<noteq> 0) ctx S (x i) (x j)"
    using r4_reading_start [OF _ _ c(1) ij'(1,2)] rd x' ij' by simp
  obtain rc p ctx' where run: "raid4_read_into_buff (posix_env md5 xxh128 hash_fails) proc ctx = Some (rc, p, ctx')" "rc \<le> 0"
    and ok: "rc = 0 \<Longrightarrow> ctx_frame ctx ctx' \<and> r4_reading posix_unread posix_readable (j = 2) (j = 2 \<and> i \<noteq> 0) ctx' (drop k S) (x i) (x j) \<and>
        (\<exists>b. p = proc\<lparr>dp_buff := b, dp_reader_offset := dp_reader_offset proc + k\<rparr> \<and>
           length b = length (dp_buff proc) \<and> take (pos + k) b = take pos (dp_buff proc) @ take k S)"
    using posix_raid.r4_read_step [OF start ij at obj c(1) c0 buff k, of md5 xxh128 hash_fails] by blast
  have "hash_fed (ric_hashes ctx' ! 0) (x i) \<and> hash_fed (ric_hashes ctx' ! 1) (x j)" if "rc = 0" "k = length S" "ric_check_hash ctx"
  proof (rule r4_reading_done)
    show "r4_reading posix_unread posix_readable (j = 2) (j = 2 \<and> i \<noteq> 0) ctx' [] (x i) (x j)" using ok [OF that(1)] that(2) by simp
    show "ric_check_hash ctx'" using ok [OF that(1)] that(3) ctx_frame_fields [of ctx ctx'] by simp
  qed
  then show ?thesis using run ok x' ij' by auto
qed

subsection \<open>A concrete object\<close>

text \<open>An object of three bytes, written with chunks of one byte, then read from the extents 1 and 2.\<close>

definition sample_wctx :: "posix_fd raid_io_context" where
  "sample_wctx = sample_ctx [[], [], []] [sample_extent 0 2, sample_extent 1 1, sample_extent 2 2] 1 3"

definition sample_wproc :: data_processor where
  "sample_wproc = sample_proc [10, 20, 30, 7] 3 3"

definition sample_rctx :: "posix_fd raid_io_context" where
  "sample_rctx = sample_ctx [[20], [30, 30]] [sample_extent 1 1, sample_extent 2 2] 1 3"

lemmas sample_defs = sample_base sample_wctx_def sample_wproc_def sample_rctx_def

lemma sample_wctx_inv: "r4_writer_inv fd_data posix_writable [10, 20, 30] sample_wproc sample_wctx"
  by (simp add: r4_writer_inv_def sample_defs is_rebuilder_def offsets_order_def pending_def stripes_aligned_def
      extents_are_def r4_ext0_def r4_ext1_def r4_parity_def All_less_Suc posix_writable_def hash_fed_def size_max_def numeral_3_eq_3)

lemma sample_rctx_left:
  "extents_left posix_unread posix_readable sample_rctx [[20], [30, 30]] [[], []]"
  "sizes_agree sample_rctx [[20], [30, 30]] [[], []]" "extents_at sample_rctx 0 1 2"
  "reads_at (sample_proc [0, 0, 0, 0] 3 0) sample_rctx [10, 20, 30] 0"
  by (simp_all add: extents_left_def sizes_agree_def extents_at_def reads_at_def sample_defs All_less_Suc posix_readable_def
      posix_unread_def hash_fed_def size_max_def)

lemma sample_fields:
  "ric_current_split_chunk_size sample_rctx = 1" "dp_reader_offset (sample_proc b n r) = r" "dp_object_size (sample_proc b n r) = n"
  "dp_buff (sample_proc b n r) = b"
  by (simp_all add: sample_rctx_def sample_ctx_def sample_proc_def)

text \<open>Equations of the two loops that evaluate a turn before the next one.\<close>

lemma raid4_stripes_loop_code [code]:
  "raid4_stripes_loop env target e0 e1 to_write proc ctx =
     (if to_write = 0 then Some (0, proc, ctx)
      else if \<not> (raid4_iod_idx proc 1 < length (ric_iods ctx)) then None
      else
        let t0 = stripe_size_0 proc ctx to_write e0; t1 = stripe_size_1 proc ctx to_write t0 e1 in
        case raid4_write_stripe env target t0 t1 proc ctx of
          None \<Rightarrow> None
        | Some (rc, p, ctx') \<Rightarrow>
            if rc \<noteq> 0 then Some (rc, p, ctx')
            else raid4_stripes_loop env target e0 e1 (size_sub to_write (size_add t0 t1)) p ctx')"
  by (subst raid4_stripes_loop.simps) (simp add: Let_def bind_eq_None_conv split: option.split)

lemma raid4_read_loop_code [code]:
  "raid4_read_loop env with_xor parity_first to_read proc ctx =
     (if to_read = 0 then Some (0, proc, ctx)
      else
        let ei = (if parity_first then 1 else 0);
            n0 = min (min to_read (size_sub (ext_size (ric_read_extents ctx ! ei)) (iod_size (ric_iods ctx ! ei))))
                     (ric_current_split_chunk_size ctx);
            n1 = min n0 (size_sub to_read n0)
        in case raid4_read_stripe env with_xor parity_first to_read n0 n1 proc ctx of
             None \<Rightarrow> None
           | Some (rc, p, ctx') \<Rightarrow>
               if rc \<noteq> 0 then Some (rc, p, ctx')
               else raid4_read_loop env with_xor parity_first (size_sub (size_sub to_read n0) n1) p ctx')"
  by (subst raid4_read_loop.simps) (simp add: Let_def split: option.split)

lemmas run_defs = sample_defs seq_res_def Let_def size_sub_def size_add_def size_max_def buf_get_def buf_put_def
  extent_hash_update_def data_processor_write_from_buff_def data_processor_read_into_buff_def xor_in_place_def memset_zero_def

lemmas write_defs = run_defs raid4_iod_idx_def stripe_size_0_def stripe_size_1_def raid4_write_stripe_def
  raid4_write_extent_from_buff_def raid4_should_write_extent_def raid4_write_parity_def is_rebuilder_def

lemmas read_defs = run_defs raid4_read_stripe_def raid4_read_half_def read_chunk_def raid4_rebuild_chunk_def
  read_extra_parity_byte_def

lemma sample_write:
  "map_option (\<lambda>(rc, p, ctx). (rc, dp_writer_offset p, map (\<lambda>d. fd_data (iod_ctx d)) (ric_iods ctx),
       ric_current_split_offset ctx, ric_current_split_size ctx, ric_current_split_chunk_size ctx))
     (raid4_write_from_buff sample_env sample_wproc sample_wctx) = Some (0, 3, [[10, 30], [20], [30, 30]], 0, 3, 1)"
  by (simp add: raid4_write_from_buff_def raid4_write_stripes_from_buff_def run_defs, subst raid4_stripes_loop_code,
      simp add: write_defs, subst raid4_stripes_loop_code, simp add: write_defs, subst raid4_stripes_loop_code, simp add: write_defs)

lemma sample_read: "map_option fst (raid4_read_into_buff sample_env (sample_proc [0, 0, 0, 0] 3 0) sample_rctx) = Some 0"
  by (simp add: raid4_read_into_buff_def run_defs signed_modulo_int_def, subst raid4_read_loop_code,
      simp add: read_defs, subst raid4_read_loop_code, simp add: read_defs, subst raid4_read_loop_code, simp add: read_defs)

theorem raid4_write_keeps_extents_witness:
  "\<exists>p ctx'. raid4_write_from_buff sample_env sample_wproc sample_wctx = Some (0, p, ctx') \<and>
     r4_writer_inv fd_data posix_writable [10, 20, 30] p ctx' \<and> dp_writer_offset p = 3 \<and> ric_all_is_written ctx'"
  using raid4_write_keeps_extents [OF sample_wctx_inv, of rev id "\<lambda>_. False", folded sample_env_def] sample_write
  by (elim exE conjE) simp

theorem raid4_read_next_bytes_witness:
  "\<exists>p ctx'. raid4_read_into_buff sample_env (sample_proc [0, 0, 0, 0] 3 0) sample_rctx = Some (0, p, ctx') \<and>
     take 3 (dp_buff p) = [10, 20, 30]"
proof -
  have x: "r4_extent 1 [10, 20, 30] 1 = [20]" "r4_extent 1 [10, 20, 30] 2 = [30, 30]" by code_simp+
  have r: "r4_reading posix_unread posix_readable (2 = (2 :: nat)) (2 = (2 :: nat) \<and> 1 \<noteq> (0 :: nat)) sample_rctx [10, 20, 30]
      (r4_extent 1 [10, 20, 30] 1) (r4_extent 1 [10, 20, 30] 2)"
    using sample_rctx_left(1,2) by (intro r4_reading_start) (simp_all add: x [unfolded One_nat_def] sample_fields)
  let ?p = "sample_proc [0, 0, 0, 0] 3 0"
  have "\<exists>rc p ctx'. raid4_read_into_buff sample_env ?p sample_rctx = Some (rc, p, ctx') \<and> rc \<le> 0 \<and>
     (rc = 0 \<longrightarrow> ctx_frame sample_rctx ctx' \<and> r4_reading posix_unread posix_readable (2 = (2 :: nat)) (2 = (2 :: nat) \<and> 1 \<noteq> (0 :: nat)) ctx'
          (drop 3 [10, 20, 30]) (r4_extent 1 [10, 20, 30] 1) (r4_extent 1 [10, 20, 30] 2) \<and>
        (\<exists>b. p = ?p\<lparr>dp_buff := b, dp_reader_offset := dp_reader_offset ?p + 3\<rparr> \<and>
           length b = length (dp_buff ?p) \<and> take (0 + 3) b = take 0 (dp_buff ?p) @ take 3 [10, 20, 30]))"
    unfolding sample_env_def
    by (rule raid4_read_next_bytes [where c = 1, OF r sample_rctx_left(3,4)]) (simp_all add: sample_fields size_max_def)
  then show ?thesis using sample_read by (elim exE conjE) (simp, elim conjE exE, simp)
qed

theorem raid4_round_trip_witness:
  "\<exists>p ctx'. raid4_read_into_buff sample_env (sample_proc [0, 0, 0, 0] 3 0) sample_rctx = Some (0, p, ctx') \<and>
     take 3 (dp_buff p) = [10, 20, 30]"
proof -
  obtain wproc' wctx' where w: "raid4_write_from_buff sample_env sample_wproc sample_wctx = Some (0, wproc', wctx')"
      "dp_writer_offset wproc' = 3" "map (\<lambda>d. fd_data (iod_ctx d)) (ric_iods wctx') = [[10, 30], [20], [30, 30]]"
      "ric_current_split_offset wctx' = 0" "ric_current_split_size wctx' = 3" "ric_current_split_chunk_size wctx' = 1"
    using sample_write by auto
  have x: "length (ric_iods wctx') = 3" using arg_cong [OF w(3), of length] by simp
  have x1: "fd_data (iod_ctx (ric_iods wctx' ! 1)) = [20]" "fd_data (iod_ctx (ric_iods wctx' ! 2)) = [30, 30]"
    using arg_cong [OF w(3), of "\<lambda>l. l ! 1"] arg_cong [OF w(3), of "\<lambda>l. l ! 2"] x by simp_all
  let ?p = "sample_proc [0, 0, 0, 0] 3 0" and ?x = "\<lambda>i. fd_data (iod_ctx (ric_iods wctx' ! i))"
  have split: "dp_writer_offset wproc' = ric_current_split_offset wctx' + ric_current_split_size wctx'"
    "[10, 20, 30] = take (ric_current_split_size wctx') (drop (ric_current_split_offset wctx') [10, 20, 30 :: byte])"
    by (simp_all add: w)
  have left: "extents_left posix_unread posix_readable sample_rctx [?x 1, ?x 2] [[], []]" "sizes_agree sample_rctx [?x 1, ?x 2] [[], []]"
    unfolding x1 by (rule sample_rctx_left)+
  have "\<exists>rc p ctx'. raid4_read_into_buff sample_env ?p sample_rctx = Some (rc, p, ctx') \<and> rc \<le> 0 \<and>
     (rc = 0 \<longrightarrow> dp_reader_offset p = dp_reader_offset ?p + 3 \<and>
        take (0 + 3) (dp_buff p) = take 0 (dp_buff ?p) @ take 3 [10, 20, 30] \<and>
        (3 = length [10, 20, 30 :: byte] \<and> ric_check_hash sample_rctx \<longrightarrow>
           hash_fed (ric_hashes ctx' ! 0) (?x 1) \<and> hash_fed (ric_hashes wctx' ! 1) (?x 1) \<and>
           hash_fed (ric_hashes ctx' ! 1) (?x 2) \<and> hash_fed (ric_hashes wctx' ! 2) (?x 2)))"
    unfolding sample_env_def
    by (rule raid4_round_trip [where x = ?x, OF sample_wctx_inv w(1) [unfolded sample_env_def] split refl sample_rctx_left(3) left sample_fields(1) w(6)
        sample_rctx_left(4)]) (simp_all add: sample_fields size_max_def)
  then show ?thesis using sample_read by (elim exE conjE) simp
qed

subsection \<open>A split that is not a number of stripes\<close>

lemma raid4_write_extent_keeps_proc:
  "raid4_write_extent_from_buff env proc ctx e n off pos = Some (0, p, ctx') \<Longrightarrow> p = proc"
  by (auto simp: raid4_write_extent_from_buff_def data_processor_write_from_buff_def Let_def
      split: if_splits option.splits prod.splits)

text \<open>A writer that has \<open>k\<close> bytes left at the end of a full buffer, in a split with room for a stripe.\<close>

definition misaligned_tail :: "data_processor \<Rightarrow> 'f raid_io_context \<Rightarrow> nat \<Rightarrow> nat \<Rightarrow> bool" where
  "misaligned_tail proc ctx start k \<longleftrightarrow>
     start = size_sub (dp_writer_offset proc) (dp_buffer_offset proc) \<and> start + k = length (dp_buff proc) \<and>
     size_sub (dp_reader_offset proc) (dp_writer_offset proc) = k \<and> k < size_max \<and>
     k \<le> size_sub (ric_current_split_size ctx) (size_sub (dp_writer_offset proc) (ric_current_split_offset ctx)) \<and>
     \<not> is_rebuilder proc \<and> 1 < length (ric_out_extents ctx) \<and> 1 < length (ric_iods ctx) \<and>
     (\<forall>e < 2. ric_current_split_chunk_size ctx \<le> size_sub (ext_size (ric_out_extents ctx ! e)) (iod_size (ric_iods ctx ! e)))"

text \<open>
  C36. The alignment of the splits is needed. When the writer has \<open>k\<close> bytes left in a full buffer,
  fewer than a stripe of two chunks of size \<open>c\<close>, in a split with room for a whole stripe, these
  bytes make a stripe whose second chunk is shorter than the first. Once both chunks are written,
  the padding of the second one is stored from the end of the buffer on, outside of it: the
  writer has no defined result.
\<close>

theorem raid4_misaligned_split_overflows:
  assumes tail: "misaligned_tail proc ctx start k" and c: "c = ric_current_split_chunk_size ctx" "0 < k" "k < 2 * c"
    and t: "t0 = min k c" "t1 = k - t0"
    and chunk0: "raid4_write_extent_from_buff env proc ctx 0 t0 0 start = Some (0, p1, ctx1)"
    and chunk1: "raid4_write_extent_from_buff env p1 ctx1 1 t1 t0 (start + t0) = Some (0, p2, ctx2)"
  shows "start + t0 + t1 = length (dp_buff p2) \<and> t1 < t0 \<and> memset_zero (dp_buff p2) (start + t0 + t1) (t0 - t1) = None \<and>
     raid4_write_from_buff env proc ctx = None"
proof -
  note tail' = tail [unfolded misaligned_tail_def]
  have p: "p1 = proc" "p2 = proc" using raid4_write_extent_keeps_proc [OF chunk0] raid4_write_extent_keeps_proc [OF chunk1] by simp_all
  have lt: "t1 < t0" "t0 + t1 = k" "t0 \<le> k" "t1 \<le> c" using c t by auto
  have e: "c \<le> size_sub (ext_size (ric_out_extents ctx ! 0)) (iod_size (ric_iods ctx ! 0))"
    "c \<le> size_sub (ext_size (ric_out_extents ctx ! 1)) (iod_size (ric_iods ctx ! 1))" using tail' c(1) by simp_all
  have k: "size_sub k t0 = k - t0" using tail' lt(3) by (simp add: size_sub_exact)
  have idx: "raid4_iod_idx proc e = e" for e using tail' by (simp add: raid4_iod_idx_def)
  have len: "start + t0 + t1 = length (dp_buff proc)" using tail' lt(2) by simp
  then have out: "memset_zero (dp_buff proc) (start + t0 + t1) (t0 - t1) = None"
    using lt(1) by (simp add: memset_zero_def buf_put_def)
  have s0: "stripe_size_0 proc ctx k (ext_size (ric_out_extents ctx ! 0)) = t0"
    using e(1) t(1) by (auto simp: stripe_size_0_def idx c(1) [symmetric])
  have s1: "stripe_size_1 proc ctx k t0 (ext_size (ric_out_extents ctx ! 1)) = t1"
    unfolding stripe_size_1_def idx c(1) [symmetric] using e(2) lt t(2) k by (auto simp: size_sub_exact min_def)
  have stripe: "raid4_write_stripe env None t0 t1 proc ctx = None"
    using chunk0 chunk1 p lt(1) out tail'
    by (simp add: raid4_write_stripe_def raid4_should_write_extent_def raid4_write_parity_def seq_res_def Let_def)
  have loop: "raid4_stripes_loop env None (ext_size (ric_out_extents ctx ! 0)) (ext_size (ric_out_extents ctx ! 1)) k proc ctx = None"
    using s0 s1 stripe c(2) tail' by (subst raid4_stripes_loop_code) (simp add: Let_def idx)
  have "min (size_sub (ric_current_split_size ctx) (size_sub (dp_writer_offset proc) (ric_current_split_offset ctx)))
      (size_sub (dp_reader_offset proc) (dp_writer_offset proc)) = k" using tail' by simp
  then have "raid4_write_from_buff env proc ctx = None"
    using loop by (simp add: raid4_write_from_buff_def raid4_write_stripes_from_buff_def seq_res_def Let_def)
  then show ?thesis using p len lt(1) out by simp
qed

text \<open>
  An object of ten bytes with chunks of two bytes and a buffer of four; its first split took two
  bytes, and the writer of the second split starts in the middle of the full buffer.
\<close>

theorem raid4_misaligned_split_overflows_witness:
  "raid4_write_from_buff sample_env ((sample_proc [3, 4, 3, 4] 10 4)\<lparr>dp_writer_offset := 2\<rparr>)
     ((sample_ctx [[], [], []] [sample_extent 0 4, sample_extent 1 4, sample_extent 2 4] 2 8)\<lparr>ric_current_split_offset := 2\<rparr>) = None"
proof -
  let ?p = "(sample_proc [3, 4, 3, 4] 10 4)\<lparr>dp_writer_offset := 2\<rparr>"
  let ?c = "(sample_ctx [[], [], []] [sample_extent 0 4, sample_extent 1 4, sample_extent 2 4] 2 8)\<lparr>ric_current_split_offset := 2\<rparr>"
  have tail: "misaligned_tail ?p ?c 2 2"
    by (simp add: misaligned_tail_def run_defs is_rebuilder_def less_2_cases_iff)
  obtain ctx1 where c0: "raid4_write_extent_from_buff sample_env ?p ?c 0 2 0 2 = Some (0, ?p, ctx1)"
    and c1: "\<exists>ctx2. raid4_write_extent_from_buff sample_env ?p ctx1 1 0 2 (2 + 2) = Some (0, ?p, ctx2)"
    by (simp add: write_defs)
  obtain ctx2 where c1: "raid4_write_extent_from_buff sample_env ?p ctx1 1 0 2 (2 + 2) = Some (0, ?p, ctx2)" using c1 by blast
  show ?thesis
    using raid4_misaligned_split_overflows [OF tail _ _ _ _ _ c0 c1, of 2] by (simp add: run_defs)
qed

end
