(* ===== verification/Raid_Layout.thy ===== *)
theory Raid_Layout
  imports Raid_Common
begin

text \<open>
  Questions the RAID code asks about a layout, some extents of which may be missing
  (\<^verbatim>\<open>src/layout/raid_common.c\<close>, \<^verbatim>\<open>src/layout-modules/raid1/raid1.c\<close>, \<^verbatim>\<open>src/layout-modules/raid4/raid4.c\<close>): which
  extents of a split are there, whether a request to rebuild some of them is valid, which split is
  rebuilt next and how large it is, and how available the object is.

  The extents of a layout are sorted by layout index; the index of an extent is below \<open>2 ^ 31\<close>.
\<close>

subsection \<open>Layouts\<close>

record layout_info =
  lyt_oid :: string
  lyt_uuid :: string
  lyt_version :: int
  lyt_mod_name :: string
  lyt_mod_attrs :: pho_attrs
  lyt_extents :: "extent list"
  lyt_wr_size :: size_t
  lyt_copy_name :: string

record rebuild_params =
  rb_extents_idx :: "int list"
  rb_media_read :: "pho_id option"

definition extent_from_layout_idx :: "extent list \<Rightarrow> int \<Rightarrow> extent option" where
  "extent_from_layout_idx extents idx = find (\<lambda>e. ext_layout_idx e = idx) extents"

definition split_indices :: "size_t \<Rightarrow> size_t \<Rightarrow> nat list" where
  "split_indices split n = [split * n..<(split + 1) * n]"

definition split_src_layout_n_extent :: "layout_info \<Rightarrow> size_t \<Rightarrow> size_t \<Rightarrow> size_t" where
  "split_src_layout_n_extent lyt split n =
     length (filter (\<lambda>idx. extent_from_layout_idx (lyt_extents lyt) (int idx) \<noteq> None) (split_indices split n))"

definition layout_idx_in_extent_list :: "rebuild_params \<Rightarrow> size_t \<Rightarrow> bool" where
  "layout_idx_in_extent_list rb idx \<longleftrightarrow> list_ex (\<lambda>e. c_size e = idx) (rb_extents_idx rb)"

definition extent_is_in_current_split :: "size_t \<Rightarrow> size_t \<Rightarrow> extent \<Rightarrow> bool" where
  "extent_is_in_current_split split n e \<longleftrightarrow>
     (let idx = c_size (ext_layout_idx e) in split * n \<le> idx \<and> idx < (split + 1) * n)"

definition raid_get_nb_split :: "layout_info \<Rightarrow> size_t \<Rightarrow> size_t option" where
  "raid_get_nb_split lyt n =
     (if lyt_extents lyt = [] \<or> n = 0 then None else Some (c_size (ext_layout_idx (last (lyt_extents lyt))) div n + 1))"

definition raid_get_nb_extent_to_rebuild :: "layout_info \<Rightarrow> rebuild_params \<Rightarrow> size_t \<Rightarrow> int option" where
  "raid_get_nb_extent_to_rebuild lyt rb n =
     (if rb_extents_idx rb \<noteq> [] then Some (int (length (rb_extents_idx rb)))
      else map_option (\<lambda>nb. int (nb * n) - int (length (lyt_extents lyt))) (raid_get_nb_split lyt n))"

definition raid_get_extents_to_rebuild_from :: "layout_info \<Rightarrow> int \<Rightarrow> extent \<Rightarrow> extent list option" where
  "raid_get_extents_to_rebuild_from lyt n e =
     (if n = 0 then None
      else
        let split = ext_layout_idx e sdiv n in
        Some (filter (\<lambda>x. \<not> (ext_layout_idx x < split * n \<or> ext_layout_idx x \<ge> (split + 1) * n)
                           \<and> \<not> pho_id_equal (ext_media e) (ext_media x)) (lyt_extents lyt)))"

subsection \<open>Validation of a rebuild\<close>

text \<open>One turn of the loop of \<open>rebuilder_validate_extent_list\<close>, which ends with false on the first split that fails.\<close>

definition validate_split :: "size_t \<Rightarrow> size_t \<Rightarrow> layout_info \<Rightarrow> rebuild_params \<Rightarrow> size_t \<Rightarrow> size_t \<Rightarrow> bool" where
  "validate_split n_data n_parity lyt rb max_layout_idx split =
     (let n = n_data + n_parity;
          present = split_src_layout_n_extent lyt split n;
          found = length (filter (\<lambda>e. split * n \<le> c_size e \<and> c_size e < (split + 1) * n) (rb_extents_idx rb));
          listed_present = length (filter (\<lambda>idx. extent_from_layout_idx (lyt_extents lyt) (int idx) \<noteq> None
                                                \<and> layout_idx_in_extent_list rb idx) (split_indices split n))
      in \<not> list_ex (\<lambda>e. e < 0 \<or> c_size e > max_layout_idx) (rb_extents_idx rb) \<and>
         \<not> found > n_parity \<and> \<not> size_sub present listed_present < n_data)"

function validate_splits :: "size_t \<Rightarrow> size_t \<Rightarrow> layout_info \<Rightarrow> rebuild_params \<Rightarrow> size_t \<Rightarrow> size_t \<Rightarrow> bool option" where
  "validate_splits n_data n_parity lyt rb max_layout_idx split =
     (if n_data + n_parity = 0 then None
      else if split * (n_data + n_parity) \<le> max_layout_idx then
        if validate_split n_data n_parity lyt rb max_layout_idx split
        then validate_splits n_data n_parity lyt rb max_layout_idx (split + 1)
        else Some False
      else Some True)"
  by auto
termination
  by (relation "measure (\<lambda>(n_data, n_parity, lyt, rb, max_layout_idx, split). max_layout_idx + 1 - split * (n_data + n_parity))") auto

declare validate_splits.simps [simp del]

definition rebuilder_validate_extent_list :: "size_t \<Rightarrow> size_t \<Rightarrow> layout_info \<Rightarrow> rebuild_params \<Rightarrow> bool option" where
  "rebuilder_validate_extent_list n_data n_parity lyt rb =
     (if lyt_extents lyt = [] then None
      else validate_splits n_data n_parity lyt rb (c_size (ext_layout_idx (last (lyt_extents lyt)))) 0)"

definition media_read_in_same_split :: "layout_info \<Rightarrow> pho_id \<Rightarrow> size_t \<Rightarrow> size_t \<Rightarrow> bool" where
  "media_read_in_same_split lyt media split n \<longleftrightarrow>
     list_ex (\<lambda>e. extent_is_in_current_split split n e \<and> pho_id_equal (ext_media e) media) (lyt_extents lyt)"

text \<open>The extent to rebuild is looked up in the layout and used without a test that it was found.\<close>

definition rebuilder_validate_media_read :: "layout_info \<Rightarrow> rebuild_params \<Rightarrow> size_t \<Rightarrow> bool option" where
  "rebuilder_validate_media_read lyt rb n =
     (case rb_media_read rb of
        None \<Rightarrow> Some True
      | Some media \<Rightarrow>
          (case rb_extents_idx rb of
             [idx] \<Rightarrow>
               (case extent_from_layout_idx (lyt_extents lyt) idx of
                  None \<Rightarrow> None
                | Some rebuilt \<Rightarrow>
                    if pho_id_equal (ext_media rebuilt) media then Some False
                    else if n = 0 then None
                    else Some (media_read_in_same_split lyt media (c_size idx div n) n))
           | _ \<Rightarrow> Some False))"

definition rebuilder_can_read_extent :: "bool \<Rightarrow> rebuild_params \<Rightarrow> extent \<Rightarrow> bool" where
  "rebuilder_can_read_extent rebuilder rb e \<longleftrightarrow>
     (if \<not> rebuilder then True
      else if rb_extents_idx rb \<noteq> [] \<and> layout_idx_in_extent_list rb (c_size (ext_layout_idx e)) then False
      else (case rb_media_read rb of None \<Rightarrow> True | Some media \<Rightarrow> pho_id_equal media (ext_media e)))"

text \<open>The extents a read allocation of the split asks for, in the order of the request.\<close>

definition read_alloc_extents :: "bool \<Rightarrow> layout_info \<Rightarrow> rebuild_params \<Rightarrow> size_t \<Rightarrow> size_t \<Rightarrow> extent list" where
  "read_alloc_extents rebuilder lyt rb split n =
     filter (rebuilder_can_read_extent rebuilder rb)
       (List.map_filter (\<lambda>idx. extent_from_layout_idx (lyt_extents lyt) (int idx)) (split_indices split n))"

definition current_split_read_alloc_n_extent :: "bool \<Rightarrow> layout_info \<Rightarrow> rebuild_params \<Rightarrow> size_t \<Rightarrow> size_t \<Rightarrow> size_t" where
  "current_split_read_alloc_n_extent rebuilder lyt rb split n = length (read_alloc_extents rebuilder lyt rb split n)"

definition current_split_rebuild_n_extent :: "layout_info \<Rightarrow> rebuild_params \<Rightarrow> size_t \<Rightarrow> size_t \<Rightarrow> size_t" where
  "current_split_rebuild_n_extent lyt rb split n =
     (if rb_extents_idx rb \<noteq> [] then
        length (filter (\<lambda>e. split * n \<le> c_size e \<and> c_size e < (split + 1) * n) (rb_extents_idx rb))
      else
        let n_extents = split_src_layout_n_extent lyt split n in
        if n_extents = n then 0 else size_sub n n_extents)"

lemma find_layout_idx: "extent_from_layout_idx extents idx = Some e \<Longrightarrow> e \<in> set extents \<and> ext_layout_idx e = idx"
  by (auto simp: extent_from_layout_idx_def find_Some_iff)

lemma length_filter_map_filter:
  "length (filter P (List.map_filter f xs)) = length (filter (\<lambda>x. case f x of None \<Rightarrow> False | Some y \<Rightarrow> P y) xs)"
  by (induction xs) (auto simp: map_filter_simps split: option.splits)

lemma length_filter_split:
  "length (filter P xs) = length (filter (\<lambda>x. P x \<and> Q x) xs) + length (filter (\<lambda>x. P x \<and> \<not> Q x) xs)"
  by (induction xs) auto

lemma c_size_index: "idx < 2 ^ 64 \<Longrightarrow> c_size (int idx) = idx"
  by (simp add: c_size_def)

lemma validate_splits_all:
  "validate_splits n_data n_parity lyt rb m split = Some True \<Longrightarrow> split \<le> s \<Longrightarrow> s * (n_data + n_parity) \<le> m \<Longrightarrow>
   validate_split n_data n_parity lyt rb m s \<and> 0 < n_data + n_parity"
proof (induction n_data n_parity lyt rb m split rule: validate_splits.induct)
  case (1 n_data n_parity lyt rb m split)
  have le: "split * (n_data + n_parity) \<le> m" using "1.prems"(2,3) by (meson le_trans mult_le_mono1)
  have pos: "n_data + n_parity \<noteq> 0" using "1.prems"(1) by (subst (asm) validate_splits.simps) (auto split: if_splits)
  have v: "validate_split n_data n_parity lyt rb m split" and r: "validate_splits n_data n_parity lyt rb m (split + 1) = Some True"
    using "1.prems"(1) pos le unfolding validate_splits.simps [of n_data n_parity lyt rb m split] by (simp_all split: if_splits)
  show ?case
  proof (cases "s = split")
    case True
    then show ?thesis using v pos by simp
  next
    case False
    then show ?thesis using "1.IH" [OF pos le v r] "1.prems"(2,3) by simp
  qed
qed

text \<open>
  C8. When a list of extents to rebuild is accepted, every split of the layout keeps enough
  readable extents that are not in the list: the read allocation of any split asks for at least as
  many media as there are data extents, which its assertion requires, none of them is to be
  rebuilt, and no split has more extents to rebuild than parity extents.
\<close>

theorem rebuild_sources_remain:
  assumes "rebuilder_validate_extent_list n_data n_parity lyt rb = Some True" "rb_media_read rb = None"
    and "split * (n_data + n_parity) \<le> c_size (ext_layout_idx (last (lyt_extents lyt)))" "(split + 1) * (n_data + n_parity) \<le> 2 ^ 31"
  shows "n_data \<le> current_split_read_alloc_n_extent True lyt rb split (n_data + n_parity) \<and>
     (\<forall>e \<in> set (read_alloc_extents True lyt rb split (n_data + n_parity)). c_size (ext_layout_idx e) \<notin> c_size ` set (rb_extents_idx rb)) \<and>
     current_split_rebuild_n_extent lyt rb split (n_data + n_parity) \<le> n_parity"
proof -
  let ?n = "n_data + n_parity" and ?m = "c_size (ext_layout_idx (last (lyt_extents lyt)))"
  let ?is = "split_indices split ?n" and ?at = "\<lambda>idx. extent_from_layout_idx (lyt_extents lyt) (int idx) \<noteq> None"
  have v: "validate_split n_data n_parity lyt rb ?m split"
    using assms(1,3) validate_splits_all [of n_data n_parity lyt rb ?m 0 split]
    by (auto simp: rebuilder_validate_extent_list_def split: if_splits)
  have small: "idx < 2 ^ 64" if "idx \<in> set ?is" for idx
    using that assms(4) by (auto simp: split_indices_def)
  have can: "(case extent_from_layout_idx (lyt_extents lyt) (int idx) of None \<Rightarrow> False | Some e \<Rightarrow> rebuilder_can_read_extent True rb e) \<longleftrightarrow>
      ?at idx \<and> \<not> layout_idx_in_extent_list rb idx" if "idx \<in> set ?is" for idx
    using small [OF that] assms(2) find_layout_idx [of "lyt_extents lyt" "int idx"]
    by (auto simp: rebuilder_can_read_extent_def layout_idx_in_extent_list_def c_size_index split: option.splits)
  have "length (filter ?at ?is) = length (filter (\<lambda>idx. ?at idx \<and> layout_idx_in_extent_list rb idx) ?is) +
      length (filter (\<lambda>idx. ?at idx \<and> \<not> layout_idx_in_extent_list rb idx) ?is)"
    by (rule length_filter_split)
  then have "n_data \<le> length (filter (\<lambda>idx. ?at idx \<and> \<not> layout_idx_in_extent_list rb idx) ?is)"
    using v by (simp add: validate_split_def Let_def split_src_layout_n_extent_def size_sub_exact)
  moreover have "filter (\<lambda>idx. case extent_from_layout_idx (lyt_extents lyt) (int idx) of None \<Rightarrow> False | Some e \<Rightarrow> rebuilder_can_read_extent True rb e) ?is
      = filter (\<lambda>idx. ?at idx \<and> \<not> layout_idx_in_extent_list rb idx) ?is"
    using can by (rule filter_cong [OF refl])
  ultimately have "n_data \<le> current_split_read_alloc_n_extent True lyt rb split ?n"
    by (simp add: current_split_read_alloc_n_extent_def read_alloc_extents_def length_filter_map_filter)
  moreover have "c_size (ext_layout_idx e) \<notin> c_size ` set (rb_extents_idx rb)" if "e \<in> set (read_alloc_extents True lyt rb split ?n)" for e
    using that by (auto simp: read_alloc_extents_def rebuilder_can_read_extent_def layout_idx_in_extent_list_def list_ex_iff split: if_splits)
  moreover have "current_split_rebuild_n_extent lyt rb split ?n \<le> n_parity"
  proof (cases "rb_extents_idx rb = []")
    case True
    have "length (filter ?at ?is) \<le> length ?is" by (rule length_filter_le)
    then have "length (filter ?at ?is) \<le> ?n" by (simp add: split_indices_def algebra_simps)
    moreover have "n_data \<le> length (filter ?at ?is)"
      using v True by (simp add: validate_split_def Let_def split_src_layout_n_extent_def layout_idx_in_extent_list_def)
    ultimately show ?thesis
      using True by (auto simp: current_split_rebuild_n_extent_def split_src_layout_n_extent_def Let_def size_sub_exact)
  next
    case False
    then show ?thesis using v by (simp add: current_split_rebuild_n_extent_def validate_split_def Let_def)
  qed
  ultimately show ?thesis by blast
qed


definition sample_layout :: "(nat \<times> nat) list \<Rightarrow> layout_info" where
  "sample_layout idx_sizes =
     \<lparr>lyt_oid = ''oid'', lyt_uuid = ''uuid'', lyt_version = 1, lyt_mod_name = ''raid1'', lyt_mod_attrs = Some [(''object_size'', Some ''8''), (''repl_count'', Some ''2'')],
      lyt_extents = map (\<lambda>(i, n). (sample_extent i n)\<lparr>ext_media := \<lparr>family = PHO_RSC_DIR, name = nat2str i, library = ''l''\<rparr>\<rparr>) idx_sizes,
      lyt_wr_size = 8, lyt_copy_name = ''c''\<rparr>"

theorem rebuild_sources_remain_witness:
  "2 \<le> current_split_read_alloc_n_extent True (sample_layout [(0, 4), (1, 4), (2, 4)]) \<lparr>rb_extents_idx = [1], rb_media_read = None\<rparr> 0 3"
proof -
  let ?lyt = "sample_layout [(0, 4), (1, 4), (2, 4)]" and ?rb = "\<lparr>rb_extents_idx = [1], rb_media_read = None\<rparr>"
  have "rebuilder_validate_extent_list 2 1 ?lyt ?rb = Some True" by code_simp
  then show ?thesis
    using rebuild_sources_remain [of 2 1 ?lyt ?rb 0] by (simp add: sample_layout_def sample_extent_def c_size_def)
qed

text \<open>
  A rebuild that names both an extent that is missing from the layout and a medium to read
  from uses the extent it did not find.
\<close>

lemma validate_media_read_missing_extent:
  assumes "rb_media_read rb = Some media" "rb_extents_idx rb = [idx]" "\<forall>e \<in> set (lyt_extents lyt). ext_layout_idx e \<noteq> idx"
  shows "rebuilder_validate_media_read lyt rb n = None"
proof -
  have "extent_from_layout_idx (lyt_extents lyt) idx = None"
    using assms(3) by (auto simp: extent_from_layout_idx_def find_None_iff)
  then show ?thesis using assms(1,2) by (simp add: rebuilder_validate_media_read_def)
qed

subsection \<open>The next split to rebuild\<close>

text \<open>
  \<open>raid_seek_next_missing_split\<close> from a current split: the split, the number of its extents to
  rebuild and the offset of its first extent, or \<open>Inl split\<close> when there is none left.
\<close>

function seek_missing_split :: "layout_info \<Rightarrow> rebuild_params \<Rightarrow> size_t \<Rightarrow> size_t \<Rightarrow> size_t \<Rightarrow> (size_t + size_t \<times> size_t \<times> size_t) option" where
  "seek_missing_split lyt rb n max_layout_idx split =
     (if n = 0 then None
      else if split * n \<le> max_layout_idx then
        let n_extents = current_split_rebuild_n_extent lyt rb split n in
        if n_extents = 0 then seek_missing_split lyt rb n max_layout_idx (split + 1)
        else (case find (\<lambda>e. \<not> c_size (ext_layout_idx e) < split * n) (lyt_extents lyt) of
                None \<Rightarrow> None
              | Some e \<Rightarrow> Some (Inr (split, n_extents, ext_offset e)))
      else Some (Inl split))"
  by auto
termination
  by (relation "measure (\<lambda>(lyt, rb, n, m, split). m + 1 - split * n)") auto

declare seek_missing_split.simps [simp del]

definition raid_seek_next_missing_split :: "layout_info \<Rightarrow> rebuild_params \<Rightarrow> size_t \<Rightarrow> size_t \<Rightarrow> (size_t + size_t \<times> size_t \<times> size_t) option" where
  "raid_seek_next_missing_split lyt rb n split =
     (if lyt_extents lyt = [] then None
      else seek_missing_split lyt rb n (c_size (ext_layout_idx (last (lyt_extents lyt)))) split)"

text \<open>The size of a split from the offset of the next one, and the sizes of its extents.\<close>

definition raid_get_current_split_size :: "layout_info \<Rightarrow> size_t \<Rightarrow> size_t \<Rightarrow> size_t \<Rightarrow> size_t \<Rightarrow> size_t" where
  "raid_get_current_split_size lyt n split split_offset object_size =
     (let remaining = size_sub object_size split_offset in
      case find (\<lambda>e. \<not> c_size (ext_layout_idx e) < (split + 1) * n) (lyt_extents lyt) of
        None \<Rightarrow> remaining
      | Some e \<Rightarrow> min (size_sub (ext_offset e) split_offset) remaining)"

definition rebuilder_get_extent_size :: "layout_info \<Rightarrow> size_t \<Rightarrow> 'f raid_io_context \<Rightarrow> 'f raid_io_context option" where
  "rebuilder_get_extent_size lyt object_size ctx =
     (let sz = raid_get_current_split_size lyt (n_total_extents ctx) (ric_current_split ctx) (ric_current_split_offset ctx) object_size in
      if ric_n_data_extents ctx = 0 then None
      else Some (ctx\<lparr>ric_current_split_size := sz, ric_rebuild_extent_size := sz div ric_n_data_extents ctx,
                     ric_extent_remainder := sz mod ric_n_data_extents ctx\<rparr>))"


end
