(* ===== verification/Raid_Availability.thy ===== *)
theory Raid_Availability
  imports Raid_Layout Pho_Common
begin

text \<open>
  How available a copy is, from the extents of its layout that are left: the availability
  functions of \<^verbatim>\<open>src/layout-modules/raid1/raid1.c\<close> and \<^verbatim>\<open>src/layout-modules/raid4/raid4.c\<close>, the
  attributes of a layout they read, and the attributes of an extent on its medium.

  Sums of sizes are those of \<open>ssize_t\<close>; an overflow has no result.
\<close>

subsection \<open>Attributes of a layout\<close>

definition get_object_size_from_layout :: "layout_info \<Rightarrow> int" where
  "get_object_size_from_layout lyt =
     (case pho_attr_get (lyt_mod_attrs lyt) ''object_size'' of
        None \<Rightarrow> - EINVAL
      | Some buffer \<Rightarrow> let object_size = str2int64 buffer in if object_size < 0 then - EINVAL else object_size)"

text \<open>\<open>strtoul (str, NULL, 10)\<close>: the value and whether \<open>errno\<close> is set.\<close>

definition strtoul :: "string \<Rightarrow> nat \<times> bool" where
  "strtoul str =
     (let (neg, s) = strtol_sign (dropWhile isspace str);
          v = digits_val (takeWhile isdigit s)
      in if takeWhile isdigit s = [] then (0, False)
         else if v \<ge> size_max then (size_max - 1, True)
         else if neg then (size_sub 0 v, False)
         else (v, False))"

text \<open>The count is stored in an \<open>unsigned int\<close>.\<close>

definition raid1_repl_count :: "layout_info \<Rightarrow> rc \<times> nat" where
  "raid1_repl_count lyt =
     (case (case pho_attr_get (lyt_mod_attrs lyt) ''raid1.repl_count'' of
              None \<Rightarrow> pho_attr_get (lyt_mod_attrs lyt) ''repl_count''
            | Some s \<Rightarrow> Some s) of
        None \<Rightarrow> (- ENOENT, 0)
      | Some s \<Rightarrow>
          let (v, erange) = strtoul s; repl_count = v mod 2 ^ 32 in
          if erange \<or> repl_count = 0 then (- EINVAL, repl_count) else (0, repl_count))"

definition raid4_get_reader_chunk_size :: "layout_info \<Rightarrow> (rc \<times> size_t) option" where
  "raid4_get_reader_chunk_size lyt =
     (case lyt_extents lyt of
        [] \<Rightarrow> None
      | e # _ \<Rightarrow>
          Some (case pho_attr_get (ext_info e) ''raid4.chunk_size'' of
                  None \<Rightarrow> (- EINVAL, 0)
                | Some attr \<Rightarrow> let v = str2int64 attr in if v \<le> 0 then (- EINVAL, 0) else (0, nat v)))"

subsection \<open>Attributes of an extent\<close>

text \<open>
  What the writers store beside the data of an extent, and what an import reads back. \<open>open_md\<close>
  is the part of \<open>ioa_open\<close> that fills the values of the requested attributes.
\<close>

definition set_layout_specific_md :: "int \<Rightarrow> int \<Rightarrow> pho_attrs \<Rightarrow> pho_attrs" where
  "set_layout_specific_md layout_index replica_count attrs =
     pho_attr_set (pho_attr_set attrs ''raid1.extent_index'' (Some (int2str layout_index)))
       ''raid1.repl_count'' (Some (int2str replica_count))"

definition set_extent_extra_attrs :: "size_t \<Rightarrow> extent \<Rightarrow> pho_attrs \<Rightarrow> extent \<times> pho_attrs" where
  "set_extent_extra_attrs chunk_size e attrs =
     (e\<lparr>ext_info := pho_attr_set (ext_info e) ''raid4.chunk_size'' (Some (nat2str chunk_size))\<rparr>,
      pho_attr_set (pho_attr_set attrs ''raid4.chunk_size'' (Some (nat2str chunk_size)))
        ''raid4.extent_index'' (Some (int2str (ext_layout_idx e))))"

definition layout_raid1_get_specific_attrs ::
  "(pho_attrs \<Rightarrow> rc \<times> pho_attrs) \<Rightarrow> extent \<Rightarrow> pho_attrs \<Rightarrow> rc \<times> extent \<times> pho_attrs" where
  "layout_raid1_get_specific_attrs open_md e layout_md =
     (let (rc, md) = open_md (pho_attr_set (pho_attr_set None ''raid1.extent_index'' None) ''raid1.repl_count'' None) in
      if rc \<noteq> 0 then (rc, e, layout_md)
      else
        (case pho_attr_get md ''raid1.repl_count'' of
           None \<Rightarrow> (- EINVAL, e, layout_md)
         | Some repl_count \<Rightarrow>
             (case pho_attr_get md ''raid1.extent_index'' of
                None \<Rightarrow> (- EINVAL, e, layout_md)
              | Some index \<Rightarrow>
                  let e1 = e\<lparr>ext_layout_idx := c_int (str2int64 index)\<rparr> in
                  if ext_layout_idx e1 < 0 then (- EINVAL, e1, layout_md)
                  else (0, e1, pho_attr_set layout_md ''raid1.repl_count'' (Some repl_count)))))"

definition layout_raid4_get_specific_attrs :: "(pho_attrs \<Rightarrow> rc \<times> pho_attrs) \<Rightarrow> extent \<Rightarrow> rc \<times> extent" where
  "layout_raid4_get_specific_attrs open_md e =
     (let (rc, md) = open_md (pho_attr_set None ''raid4.extent_index'' None) in
      if rc \<noteq> 0 then (rc, e)
      else
        (case pho_attr_get md ''raid4.extent_index'' of
           None \<Rightarrow> (- EINVAL, e)
         | Some index \<Rightarrow>
             let e1 = e\<lparr>ext_layout_idx := c_int (str2int64 index)\<rparr> in
             if ext_layout_idx e1 < 0 then (- EINVAL, e1) else (0, e1)))"

subsection \<open>Availability\<close>

definition ssize_ok :: "int \<Rightarrow> bool" where
  "ssize_ok v \<longleftrightarrow> LLONG_MIN \<le> v \<and> v \<le> LLONG_MAX"

definition extents_size :: "extent list \<Rightarrow> nat" where
  "extents_size extents = sum_list (map ext_size extents)"

text \<open>The size reached by following the offsets of the extents from the start of the object.\<close>

definition followed_size :: "extent list \<Rightarrow> nat \<Rightarrow> nat" where
  "followed_size extents start = foldl (\<lambda>s e. if s = ext_offset e then s + ext_size e else s) start extents"

text \<open>The results are the return code and the status that is stored when it is 0.\<close>

definition layout_raid1_get_availability :: "layout_info \<Rightarrow> (rc \<times> copy_status option) option" where
  "layout_raid1_get_availability lyt =
     (let (rc, repl_cnt) = raid1_repl_count lyt in
      if rc \<noteq> 0 then Some (rc, None)
      else
        let object_size = get_object_size_from_layout lyt in
        if object_size < 0 then Some (c_int object_size, None)
        else if \<not> ssize_ok (int (extents_size (lyt_extents lyt))) \<or> \<not> ssize_ok (int repl_cnt * object_size) then None
        else if int (extents_size (lyt_extents lyt)) = int repl_cnt * object_size then Some (0, Some PHO_COPY_STATUS_COMPLETE)
        else if int (followed_size (lyt_extents lyt) 0) = object_size then Some (0, Some PHO_COPY_STATUS_READABLE)
        else Some (0, Some PHO_COPY_STATUS_INCOMPLETE))"

definition split_sizes :: "extent list \<Rightarrow> int \<Rightarrow> nat" where
  "split_sizes extents index = extents_size (filter (\<lambda>e. ext_layout_idx e smod 3 = index) extents)"

definition layout_raid4_get_availability :: "layout_info \<Rightarrow> (rc \<times> copy_status option) option" where
  "layout_raid4_get_availability lyt =
     (let object_size = get_object_size_from_layout lyt in
      if object_size < 0 then Some (- EINVAL, None)
      else if list_ex (\<lambda>e. ext_layout_idx e smod 3 < 0) (lyt_extents lyt) then None
      else
        let s = split_sizes (lyt_extents lyt); odd = object_size smod 2;
            total = int (extents_size (lyt_extents lyt))
        in if \<not> ssize_ok total \<or> \<not> ssize_ok (3 * object_size + odd) then None
           else if total = (3 * object_size + odd) sdiv 2 then Some (0, Some PHO_COPY_STATUS_COMPLETE)
           else if int (s 0 + s 1) = object_size \<or> int (s 0 + s 2) = object_size + odd \<or> int (s 1 + s 2) = object_size
           then Some (0, Some PHO_COPY_STATUS_READABLE)
           else Some (0, Some PHO_COPY_STATUS_INCOMPLETE))"

subsection \<open>Replicas\<close>

text \<open>
  The splits of an object written by RAID1, each with its size and the replicas of it that are
  left, which may have lost bytes at their end.
\<close>

fun raid1_splits :: "nat \<Rightarrow> (nat \<times> extent list) list \<Rightarrow> bool" where
  "raid1_splits off [] \<longleftrightarrow> True"
| "raid1_splits off ((s, es) # ss) \<longleftrightarrow>
     0 < s \<and> (\<forall>e \<in> set es. ext_offset e = off \<and> 0 < ext_size e \<and> ext_size e \<le> s) \<and> raid1_splits (off + s) ss"

text \<open>No replica of the split is missing or cut short; the first one that is left is not cut short.\<close>

definition split_complete :: "nat \<Rightarrow> nat \<times> extent list \<Rightarrow> bool" where
  "split_complete r x \<longleftrightarrow> length (snd x) = r \<and> (\<forall>e \<in> set (snd x). ext_size e = fst x)"

definition first_whole :: "nat \<times> extent list \<Rightarrow> bool" where
  "first_whole x \<longleftrightarrow> (case snd x of [] \<Rightarrow> False | e # _ \<Rightarrow> ext_size e = fst x)"

lemma extents_size_simps [simp]:
  "extents_size [] = 0" "extents_size (e # es) = ext_size e + extents_size es"
  "extents_size (xs @ ys) = extents_size xs + extents_size ys"
  by (simp_all add: extents_size_def)

lemma extents_size_le:
  "\<forall>e \<in> set es. ext_size e \<le> s \<Longrightarrow> extents_size es \<le> length es * s \<and> (extents_size es = length es * s \<longleftrightarrow> (\<forall>e \<in> set es. ext_size e = s))"
  by (induction es) auto

lemma followed_size_append: "followed_size (xs @ ys) c = followed_size ys (followed_size xs c)"
  by (simp add: followed_size_def)

lemma followed_size_other: "\<forall>e \<in> set es. ext_offset e \<noteq> c \<Longrightarrow> followed_size es c = c"
  by (induction es) (auto simp: followed_size_def)

lemma followed_size_split:
  assumes "\<forall>e \<in> set es. ext_offset e = off \<and> 0 < ext_size e"
  shows "followed_size es off = (case es of [] \<Rightarrow> off | e # _ \<Rightarrow> off + ext_size e)"
proof (cases es)
  case (Cons e es')
  then have "followed_size es off = followed_size es' (off + ext_size e)" using assms by (simp add: followed_size_def)
  also have "\<dots> = off + ext_size e" using assms Cons by (intro followed_size_other) auto
  finally show ?thesis using Cons by simp
qed (simp add: followed_size_def)

lemma followed_size_stuck: "raid1_splits off ss \<Longrightarrow> c < off \<Longrightarrow> followed_size (concat (map snd ss)) c = c"
proof (induction off ss rule: raid1_splits.induct)
  case (2 off s es ss)
  then have "followed_size es c = c" by (intro followed_size_other) auto
  then show ?case using 2 by (simp add: followed_size_append)
qed (simp add: followed_size_def)

lemma followed_size_splits:
  "raid1_splits off ss \<Longrightarrow> followed_size (concat (map snd ss)) off = off + sum_list (map fst ss) \<longleftrightarrow> (\<forall>x \<in> set ss. first_whole x)"
proof (induction off ss rule: raid1_splits.induct)
  case (2 off s es ss)
  have sp: "0 < s" "\<forall>e \<in> set es. ext_offset e = off \<and> 0 < ext_size e \<and> ext_size e \<le> s" "raid1_splits (off + s) ss" using 2 by auto
  have f: "followed_size (concat (map snd ((s, es) # ss))) off = followed_size (concat (map snd ss)) (case es of [] \<Rightarrow> off | e # _ \<Rightarrow> off + ext_size e)"
    using followed_size_split [of es off] sp(2) by (simp add: followed_size_append)
  show ?case
  proof (cases "first_whole (s, es)")
    case True
    then show ?thesis using f 2(1) [OF sp(3)] by (auto simp: first_whole_def add.assoc split: list.splits)
  next
    case False
    then have "(case es of [] \<Rightarrow> off | e # _ \<Rightarrow> off + ext_size e) < off + s"
      using sp(1,2) by (auto simp: first_whole_def split: list.splits)
    then show ?thesis using f followed_size_stuck [OF sp(3)] False by simp
  qed
qed (simp add: followed_size_def)

lemma replicas_bound:
  "raid1_splits off ss \<Longrightarrow> \<forall>x \<in> set ss. length (snd x) \<le> r \<Longrightarrow>
   extents_size (concat (map snd ss)) \<le> r * sum_list (map fst ss) \<and>
   (extents_size (concat (map snd ss)) = r * sum_list (map fst ss) \<longleftrightarrow> (\<forall>x \<in> set ss. split_complete r x))"
proof (induction off ss rule: raid1_splits.induct)
  case (2 off s es ss)
  let ?a = "extents_size (concat (map snd ss))" and ?b = "r * sum_list (map fst ss)"
  have IH: "?a \<le> ?b" "?a = ?b \<longleftrightarrow> (\<forall>x \<in> set ss. split_complete r x)" using 2 by auto
  have e: "extents_size es \<le> length es * s" "extents_size es = length es * s \<longleftrightarrow> (\<forall>e \<in> set es. ext_size e = s)"
    using extents_size_le [of es s] 2(2) by auto
  have l: "length es * s \<le> r * s" "length es * s = r * s \<longleftrightarrow> length es = r" using 2(2,3) by auto
  have "extents_size es = r * s \<longleftrightarrow> split_complete r (s, es)" using e l unfolding split_complete_def by (metis fst_conv le_antisym snd_conv)
  moreover have "extents_size es + ?a = r * s + ?b \<longleftrightarrow> extents_size es = r * s \<and> ?a = ?b" using IH(1) e(1) l(1) by linarith
  moreover have "extents_size es + ?a \<le> r * s + ?b" using IH(1) e(1) l(1) by linarith
  ultimately show ?case using IH(2) by (simp add: distrib_left)
qed simp

text \<open>
  C9. The availability that is computed for a RAID1 copy. The layout holds, in order, the
  replicas that are left of every split of the object, some of which may have lost bytes at their end. The copy
  is complete if no replica is missing or cut short, readable if the first replica that is left
  of every split is whole, and incomplete otherwise, also when another replica of the split is whole and the
  object can be read.
\<close>

theorem raid1_availability:
  assumes "raid1_splits 0 ss" "lyt_extents lyt = concat (map snd ss)"
    and "get_object_size_from_layout lyt = int (sum_list (map fst ss))" "raid1_repl_count lyt = (0, r)"
    and "\<forall>x \<in> set ss. length (snd x) \<le> r" "int r * int (sum_list (map fst ss)) \<le> LLONG_MAX"
  shows "layout_raid1_get_availability lyt =
    Some (0, Some (if \<forall>x \<in> set ss. split_complete r x then PHO_COPY_STATUS_COMPLETE
                   else if \<forall>x \<in> set ss. first_whole x then PHO_COPY_STATUS_READABLE
                   else PHO_COPY_STATUS_INCOMPLETE))"
proof -
  let ?n = "sum_list (map fst ss)" and ?t = "extents_size (lyt_extents lyt)"
  have t: "?t \<le> r * ?n" "?t = r * ?n \<longleftrightarrow> (\<forall>x \<in> set ss. split_complete r x)"
    using replicas_bound [OF assms(1,5)] assms(2) by simp_all
  have "int ?t \<le> int r * int ?n" using t(1) by (simp flip: of_nat_mult)
  then have ok: "ssize_ok (int ?t)" "ssize_ok (int r * int ?n)"
    using assms(6) by (simp_all add: ssize_ok_def LLONG_MIN_def)
  have c: "int ?t = int r * int ?n \<longleftrightarrow> (\<forall>x \<in> set ss. split_complete r x)"
    using t(2) by (simp flip: of_nat_mult)
  have "followed_size (lyt_extents lyt) 0 = ?n \<longleftrightarrow> (\<forall>x \<in> set ss. first_whole x)"
    using followed_size_splits [OF assms(1)] assms(2) by simp
  then show ?thesis
    using ok c by (simp add: layout_raid1_get_availability_def assms(3,4) Let_def)
qed

definition sample_replica :: "nat \<Rightarrow> nat \<Rightarrow> nat \<Rightarrow> extent" where
  "sample_replica i n off = (sample_extent i n)\<lparr>ext_offset := off\<rparr>"

text \<open>The second split lost bytes of its first replica, not of its second one.\<close>

theorem raid1_availability_witness:
  "layout_raid1_get_availability
     ((sample_layout [])\<lparr>lyt_extents := [sample_replica 1 5 0, sample_replica 2 3 5, sample_replica 3 3 5]\<rparr>) =
   Some (0, Some PHO_COPY_STATUS_READABLE) \<and>
   layout_raid1_get_availability
     ((sample_layout [])\<lparr>lyt_extents := [sample_replica 1 5 0, sample_replica 2 2 5, sample_replica 3 3 5]\<rparr>) =
   Some (0, Some PHO_COPY_STATUS_INCOMPLETE)"
proof -
  let ?lyt = "\<lambda>n. (sample_layout [])\<lparr>lyt_extents := [sample_replica 1 5 0, sample_replica 2 n 5, sample_replica 3 3 5]\<rparr>"
  have "get_object_size_from_layout (?lyt n) = 8" "raid1_repl_count (?lyt n) = (0, 2)" for n
    by (simp_all add: get_object_size_from_layout_def raid1_repl_count_def strtoul_def str2int64_def strtol_def strtol_sign_def
        sample_layout_def pho_attr_get_def isspace_def isdigit_def digits_val_def digit_val_def size_max_def LLONG_MAX_def LLONG_MIN_def)
  then show ?thesis
    using raid1_availability [of "[(5, [sample_replica 1 5 0]), (3, [sample_replica 2 3 5, sample_replica 3 3 5])]" "?lyt 3" 2]
      raid1_availability [of "[(5, [sample_replica 1 5 0]), (3, [sample_replica 2 2 5, sample_replica 3 3 5])]" "?lyt 2" 2]
    by (simp add: sample_replica_def sample_extent_def LLONG_MAX_def split_complete_def first_whole_def)
qed

subsection \<open>Stripes\<close>

text \<open>
  The splits of an object written by RAID4, each with its size and the extents of it that are
  left: two halves, the first with the odd byte, and a parity extent as long as the first half.
\<close>

definition raid4_extent_size :: "nat \<Rightarrow> int \<Rightarrow> nat" where
  "raid4_extent_size s index = (if index = 1 then s div 2 else (s + 1) div 2)"

fun raid4_splits :: "int \<Rightarrow> (nat \<times> extent list) list \<Rightarrow> bool" where
  "raid4_splits k [] \<longleftrightarrow> True"
| "raid4_splits k ((s, es) # ss) \<longleftrightarrow>
     0 \<le> k \<and> 2 \<le> s \<and> distinct (map ext_layout_idx es) \<and>
     (\<forall>e \<in> set es. 3 * k \<le> ext_layout_idx e \<and> ext_layout_idx e < 3 * k + 3 \<and>
        ext_size e = raid4_extent_size s (ext_layout_idx e - 3 * k)) \<and> raid4_splits (k + 1) ss"

definition has_index :: "int \<Rightarrow> extent list \<Rightarrow> bool" where
  "has_index index es \<longleftrightarrow> list_ex (\<lambda>e. ext_layout_idx e smod 3 = index) es"

lemma smod_3_nonneg: "0 \<le> (i :: int) \<Longrightarrow> i smod 3 = i mod 3"
  by (simp add: signed_modulo_int_def sgn_if)

lemma smod_3_split:
  assumes "0 \<le> k" "3 * k \<le> i" "i < 3 * k + 3"
  shows "i smod 3 = i - 3 * (k :: int)"
proof -
  have "i mod 3 = i - 3 * k" using assms(2,3) by (intro int_mod_pos_eq [of _ _ k]) auto
  then show ?thesis using assms by (simp add: smod_3_nonneg)
qed

lemma split_sizes_append [simp]: "split_sizes (xs @ ys) j = split_sizes xs j + split_sizes ys j" "split_sizes [] j = 0"
  by (simp_all add: split_sizes_def)

lemma raid4_split_size:
  assumes "0 \<le> k" "distinct (map ext_layout_idx es)"
    and "\<forall>e \<in> set es. 3 * k \<le> ext_layout_idx e \<and> ext_layout_idx e < 3 * k + 3 \<and> ext_size e = raid4_extent_size s (ext_layout_idx e - 3 * k)"
  shows "split_sizes es j = (if has_index j es then raid4_extent_size s j else 0)"
  using assms(2,3)
proof (induction es)
  case (Cons e es)
  have IH: "split_sizes es j = (if has_index j es then raid4_extent_size s j else 0)" using Cons by simp
  have e: "ext_layout_idx e smod 3 = ext_layout_idx e - 3 * k" using Cons.prems assms(1) by (intro smod_3_split) auto
  have "\<not> has_index j es" if "ext_layout_idx e - 3 * k = j"
  proof
    assume "has_index j es"
    then obtain x where x: "x \<in> set es" "ext_layout_idx x smod 3 = j" by (auto simp: has_index_def list_ex_iff)
    then have "ext_layout_idx x - 3 * k = j" using Cons.prems assms(1) smod_3_split [of k "ext_layout_idx x"] by auto
    then have "ext_layout_idx e \<in> ext_layout_idx ` set es" using that x(1) by force
    then show False using Cons.prems(1) by simp
  qed
  then show ?case using IH e Cons.prems by (auto simp: split_sizes_def has_index_def)
qed (simp add: split_sizes_def has_index_def)

definition full_size :: "(nat \<times> extent list) list \<Rightarrow> int \<Rightarrow> nat" where
  "full_size ss index = sum_list (map (\<lambda>(s, es). raid4_extent_size s index) ss)"

lemma full_size_simps [simp]:
  "full_size [] j = 0" "full_size ((s, es) # ss) j = raid4_extent_size s j + full_size ss j"
  by (simp_all add: full_size_def)

lemma raid4_splits_size:
  "raid4_splits k ss \<Longrightarrow>
   split_sizes (concat (map snd ss)) j \<le> full_size ss j \<and>
   (split_sizes (concat (map snd ss)) j = full_size ss j \<longleftrightarrow> (\<forall>(s, es) \<in> set ss. has_index j es))"
proof (induction k ss rule: raid4_splits.induct)
  case (2 k s es ss)
  let ?p = "split_sizes es j" and ?q = "split_sizes (concat (map snd ss)) j"
  have p: "?p = (if has_index j es then raid4_extent_size s j else 0)" using "2.prems" by (intro raid4_split_size) auto
  have pos: "0 < raid4_extent_size s j" using "2.prems" by (simp add: raid4_extent_size_def div_greater_zero_iff)
  have IH: "?q \<le> full_size ss j" "?q = full_size ss j \<longleftrightarrow> (\<forall>(s, es) \<in> set ss. has_index j es)" using 2 by auto
  then show ?case using p pos by auto
qed simp

lemma raid4_full_size:
  assumes "\<forall>(s, es) \<in> set (butlast ss). even s"
  shows "full_size ss 1 = sum_list (map fst ss) div 2 \<and> (j \<noteq> 1 \<longrightarrow> full_size ss j = (sum_list (map fst ss) + 1) div 2)"
  using assms
proof (induction ss)
  case (Cons x ss)
  obtain s es where x: "x = (s, es)" by (cases x)
  show ?case
  proof (cases "ss = []")
    case False
    then have "even s" and IH: "full_size ss 1 = sum_list (map fst ss) div 2"
      "j \<noteq> 1 \<longrightarrow> full_size ss j = (sum_list (map fst ss) + 1) div 2"
      using Cons x by auto
    then obtain h where "s = 2 * h" by (elim evenE)
    then show ?thesis using IH x by (auto simp: raid4_extent_size_def)
  qed (simp add: x raid4_extent_size_def)
qed simp


lemma raid4_index_nonneg:
  "raid4_splits k ss \<Longrightarrow> e \<in> set (concat (map snd ss)) \<Longrightarrow> 0 \<le> ext_layout_idx e smod 3 \<and> ext_layout_idx e smod 3 < 3"
  by (induction k ss rule: raid4_splits.induct) (auto simp: smod_3_nonneg)

lemma split_sizes_total:
  assumes "\<forall>e \<in> set es. 0 \<le> ext_layout_idx e smod 3 \<and> ext_layout_idx e smod 3 < 3"
  shows "extents_size es = split_sizes es 0 + split_sizes es 1 + split_sizes es 2"
  using assms
proof (induction es)
  case (Cons e es)
  then have "ext_layout_idx e smod 3 = 0 \<or> ext_layout_idx e smod 3 = 1 \<or> ext_layout_idx e smod 3 = 2" by auto
  then show ?case using Cons by (auto simp: split_sizes_def)
qed simp

lemma sum_eq_iff: "a \<le> c \<Longrightarrow> b \<le> d \<Longrightarrow> a + b = c + d \<longleftrightarrow> a = c \<and> b = (d :: nat)"
  by auto

lemma three_halves: "a + b = n \<Longrightarrow> a + a = n + m \<Longrightarrow> 3 * int n + int m = 2 * int (a + b + a)"
  by simp

text \<open>The classes of extents that are all there.\<close>

definition all_left :: "(nat \<times> extent list) list \<Rightarrow> int \<Rightarrow> bool" where
  "all_left ss index \<longleftrightarrow> (\<forall>(s, es) \<in> set ss. has_index index es)"

text \<open>
  C10. The availability of a RAID4 copy whose splits have even sizes, the last one apart, and
  at least two bytes. The copy is complete when no extent is missing. It is reported readable when
  the missing extents all have the same place in their splits, and incomplete otherwise, even if
  every split has two extents left.
\<close>

theorem raid4_availability:
  assumes "raid4_splits 0 ss" "lyt_extents lyt = concat (map snd ss)" "\<forall>(s, es) \<in> set (butlast ss). even s"
    and "get_object_size_from_layout lyt = int (sum_list (map fst ss))" "3 * int (sum_list (map fst ss)) + 1 \<le> LLONG_MAX"
  shows "layout_raid4_get_availability lyt =
    Some (0, Some (if all_left ss 0 \<and> all_left ss 1 \<and> all_left ss 2 then PHO_COPY_STATUS_COMPLETE
                   else if (all_left ss 0 \<and> all_left ss 1) \<or> (all_left ss 0 \<and> all_left ss 2) \<or> (all_left ss 1 \<and> all_left ss 2)
                   then PHO_COPY_STATUS_READABLE
                   else PHO_COPY_STATUS_INCOMPLETE))"
proof -
  define n where "n = sum_list (map fst ss)"
  let ?es = "lyt_extents lyt"
  have idx: "\<forall>e \<in> set ?es. 0 \<le> ext_layout_idx e smod 3 \<and> ext_layout_idx e smod 3 < 3"
    using raid4_index_nonneg [OF assms(1)] assms(2) by auto
  have P: "split_sizes ?es j \<le> full_size ss j" "split_sizes ?es j = full_size ss j \<longleftrightarrow> all_left ss j" for j
    using raid4_splits_size [OF assms(1), of j] assms(2) by (simp_all add: all_left_def)
  have A: "full_size ss 0 = (n + 1) div 2" "full_size ss 1 = n div 2" "full_size ss 2 = (n + 1) div 2"
    using raid4_full_size [OF assms(3), of 0] raid4_full_size [OF assms(3), of 2] by (simp_all add: n_def)
  define p0 p1 p2 where "p0 = split_sizes ?es 0" and "p1 = split_sizes ?es 1" and "p2 = split_sizes ?es 2"
  note Q = P(1) [of 0] P(1) [of 1] P(1) [of 2] P(2) [of 0] P(2) [of 1] P(2) [of 2]
  note Q = Q [unfolded A, folded p0_def p1_def p2_def]
  have total: "extents_size ?es = p0 + p1 + p2" using split_sizes_total [OF idx] by (simp add: p0_def p1_def p2_def)
  have odd: "int n smod 2 = int (n mod 2)" by (simp add: signed_modulo_int_def sgn_if zmod_int)
  have half: "(n + 1) div 2 = n div 2 + n mod 2" by presburger
  have n: "(n + 1) div 2 + n div 2 = n" "(n + 1) div 2 + (n + 1) div 2 = n + n mod 2" using half by simp_all
  have sdiv: "(3 * int n + int (n mod 2)) sdiv 2 = int ((n + 1) div 2 + n div 2 + (n + 1) div 2)"
  proof -
    have "3 * int n + int (n mod 2) = 2 * int ((n + 1) div 2 + n div 2 + (n + 1) div 2)" using n by (rule three_halves)
    then show ?thesis by (simp only: signed_divide_int_def) (simp add: sgn_if abs_mult)
  qed
  have small: "p0 + p1 + p2 \<le> n + n" using Q(1,2,3) n by linarith
  have "n mod 2 \<le> 1" by simp
  then have ok: "ssize_ok (int (p0 + p1 + p2))" "ssize_ok (3 * int n + int (n mod 2))"
    using small assms(5) by (simp_all add: ssize_ok_def LLONG_MIN_def n_def [symmetric])
  have c: "p0 + p1 + p2 = (n + 1) div 2 + n div 2 + (n + 1) div 2 \<longleftrightarrow> all_left ss 0 \<and> all_left ss 1 \<and> all_left ss 2"
    "p0 + p1 = n \<longleftrightarrow> all_left ss 0 \<and> all_left ss 1" "p0 + p2 = n + n mod 2 \<longleftrightarrow> all_left ss 0 \<and> all_left ss 2"
    "p1 + p2 = n \<longleftrightarrow> all_left ss 1 \<and> all_left ss 2"
    using sum_eq_iff [OF Q(1,2)] sum_eq_iff [OF Q(1,3)] sum_eq_iff [OF Q(2,3)] sum_eq_iff [OF add_mono [OF Q(1,2)] Q(3)] Q(4-6) n
    by (simp_all add: add.commute)
  have c': "int (p0 + p1 + p2) = int ((n + 1) div 2 + n div 2 + (n + 1) div 2) \<longleftrightarrow> all_left ss 0 \<and> all_left ss 1 \<and> all_left ss 2"
    "int (p0 + p1) = int n \<longleftrightarrow> all_left ss 0 \<and> all_left ss 1" "int (p0 + p2) = int n + int (n mod 2) \<longleftrightarrow> all_left ss 0 \<and> all_left ss 2"
    "int (p1 + p2) = int n \<longleftrightarrow> all_left ss 1 \<and> all_left ss 2"
    by (simp_all only: of_nat_add [symmetric] of_nat_eq_iff c)
  have none: "\<not> list_ex (\<lambda>e. ext_layout_idx e smod 3 < 0) ?es" using idx by (auto simp: list_ex_iff)
  have size: "get_object_size_from_layout lyt = int n" using assms(4) by (simp add: n_def)
  show ?thesis
    unfolding layout_raid4_get_availability_def Let_def size odd total sdiv p0_def [symmetric] p1_def [symmetric] p2_def [symmetric] c'
    using none ok by simp
qed


definition sample_stripe :: "nat \<Rightarrow> nat \<Rightarrow> extent list" where
  "sample_stripe k missing = map (\<lambda>i. sample_extent (3 * k + i) (raid4_extent_size 4 (int i))) (filter (\<lambda>i. i \<noteq> missing) [0, 1, 2])"

theorem raid4_availability_witness:
  "layout_raid4_get_availability ((sample_layout [])\<lparr>lyt_extents := sample_stripe 0 0 @ sample_stripe 1 1\<rparr>) =
     Some (0, Some PHO_COPY_STATUS_INCOMPLETE)"
proof -
  let ?lyt = "(sample_layout [])\<lparr>lyt_extents := sample_stripe 0 0 @ sample_stripe 1 1\<rparr>"
  have "get_object_size_from_layout ?lyt = 8"
    by (simp add: get_object_size_from_layout_def str2int64_def strtol_def strtol_sign_def
        sample_layout_def pho_attr_get_def isspace_def isdigit_def digits_val_def digit_val_def LLONG_MAX_def LLONG_MIN_def)
  moreover have "raid4_splits 0 [(4, sample_stripe 0 0), (4, sample_stripe 1 1)]"
    by (simp add: sample_stripe_def sample_extent_def raid4_extent_size_def)
  moreover have "\<not> has_index 0 (sample_stripe 0 0)" "\<not> has_index 1 (sample_stripe 1 1)"
    by (simp_all add: has_index_def sample_stripe_def sample_extent_def smod_3_nonneg)
  ultimately show ?thesis
    using raid4_availability [of "[(4, sample_stripe 0 0), (4, sample_stripe 1 1)]" ?lyt]
    by (simp add: LLONG_MAX_def all_left_def)
qed

subsection \<open>Attributes of an extent are recovered\<close>

lemma str2int64_index: "0 \<le> i \<Longrightarrow> i < 2 ^ 63 \<Longrightarrow> str2int64 (int2str i) = i"
  using nat2str_digits [of "nat i"] by (simp add: int2str_def str2int64_digits LLONG_MAX_def)

text \<open>
  C11. The attributes that the RAID1 and RAID4 writers store beside an extent are recovered by
  an import that finds only the extents: when opening the extent gives the stored values of the
  attributes asked for, the extent gets the index it was written with, and the layout its number
  of replicas.
\<close>

theorem extent_attrs_recovered:
  assumes "0 \<le> ext_layout_idx w" "ext_layout_idx w < 2 ^ 31"
    and "\<And>asked. fst (open1 asked) = 0" "\<And>asked. fst (open4 asked) = 0"
    and "\<And>asked key. key \<in> dom (map_of (the asked)) \<Longrightarrow>
           pho_attr_get (snd (open1 asked)) key = pho_attr_get (set_layout_specific_md (ext_layout_idx w) r attrs) key"
    and "\<And>asked key. key \<in> dom (map_of (the asked)) \<Longrightarrow>
           pho_attr_get (snd (open4 asked)) key = pho_attr_get (snd (set_extent_extra_attrs c w attrs)) key"
  shows "layout_raid1_get_specific_attrs open1 e layout_md =
      (0, e\<lparr>ext_layout_idx := ext_layout_idx w\<rparr>, pho_attr_set layout_md ''raid1.repl_count'' (Some (int2str r))) \<and>
    layout_raid4_get_specific_attrs open4 e = (0, e\<lparr>ext_layout_idx := ext_layout_idx w\<rparr>)"
proof -
  have i: "c_int (str2int64 (int2str (ext_layout_idx w))) = ext_layout_idx w"
    using assms(1,2) by (simp add: str2int64_index c_int_exact)
  let ?m1 = "pho_attr_set (pho_attr_set None ''raid1.extent_index'' None) ''raid1.repl_count'' None"
  let ?m4 = "pho_attr_set None ''raid4.extent_index'' None"
  have asked: "''raid1.repl_count'' \<in> dom (map_of (the ?m1))" "''raid1.extent_index'' \<in> dom (map_of (the ?m1))"
    "''raid4.extent_index'' \<in> dom (map_of (the ?m4))" by (simp_all add: pho_attr_set_def)
  have "pho_attr_get (snd (open1 ?m1)) ''raid1.repl_count'' = Some (int2str r)"
    "pho_attr_get (snd (open1 ?m1)) ''raid1.extent_index'' = Some (int2str (ext_layout_idx w))"
    "pho_attr_get (snd (open4 ?m4)) ''raid4.extent_index'' = Some (int2str (ext_layout_idx w))"
    using assms(5) [OF asked(1)] assms(5) [OF asked(2)] assms(6) [OF asked(3)]
    by (simp_all add: set_layout_specific_md_def set_extent_extra_attrs_def pho_attr_get_set)
  then show ?thesis
    using assms(1) assms(3) [of ?m1] assms(4) [of ?m4] i
    by (simp add: layout_raid1_get_specific_attrs_def layout_raid4_get_specific_attrs_def case_prod_beta Let_def)
qed

theorem extent_attrs_recovered_witness:
  "layout_raid4_get_specific_attrs (\<lambda>asked. (0, snd (set_extent_extra_attrs 4 (sample_extent 7 2) None))) (sample_extent 0 2) =
     (0, (sample_extent 0 2)\<lparr>ext_layout_idx := 7\<rparr>)"
  using extent_attrs_recovered [of "sample_extent 7 2" "\<lambda>asked. (0, set_layout_specific_md 7 3 None)"
      "\<lambda>asked. (0, snd (set_extent_extra_attrs 4 (sample_extent 7 2) None))" 3 None 4 "sample_extent 0 2" None]
  by (simp add: sample_extent_def)

text \<open>
  An index that is not a number is not refused: the error value does not fit in the \<open>int\<close> that is
  tested, and the extent gets the index 0.
\<close>

lemma raid4_invalid_index_accepted:
  assumes "open_md (pho_attr_set None ''raid4.extent_index'' None) = (0, md)"
    "pho_attr_get md ''raid4.extent_index'' = Some index" "str2int64 index = INT64_MIN"
  shows "layout_raid4_get_specific_attrs open_md e = (0, e\<lparr>ext_layout_idx := 0\<rparr>)"
  using assms by (simp add: layout_raid4_get_specific_attrs_def)


end
