(* ===== verification/Raid_Proc.thy ===== *)
theory Raid_Proc
  imports Raid_Availability Raid_Io "HOL-Library.Monad_Syntax"
begin

text \<open>
  The state of the RAID writer, rebuilder, reader and eraser (\<^verbatim>\<open>src/layout/raid_common.h\<close>,
  \<^verbatim>\<open>src/include/pho_layout.h\<close>), the messages they exchange with the LRS
  (\<^verbatim>\<open>src/core/serializer/pho_proto_lrs.proto\<close>), and the allocation requests they build
  (\<^verbatim>\<open>src/layout/raid_common.c\<close>).

  The system and the I/O adapters are a parameter. A call whose result may change from one time to
  the next has the number of calls made so far as an argument. \<open>sys_closed\<close> is a descriptor that was
  never opened.
\<close>

subsection \<open>Messages\<close>

record write_elt =
  we_med_id :: pho_id
  we_avail_size :: size_t
  we_root_path :: string
  we_fs_type :: fs_type
  we_addr_type :: address_type

record read_elt =
  rd_med_id :: pho_id
  rd_root_path :: string
  rd_fs_type :: fs_type
  rd_addr_type :: address_type

record sync_threshold =
  sync_nb_req :: nat
  sync_wsize_kb :: nat
  sync_time :: timespec

record release_elt =
  rel_med_id :: pho_id
  rel_rc :: rc
  rel_size_written :: size_t
  rel_nb_extents_written :: size_t
  rel_to_sync :: bool
  rel_grouping :: "string option"

datatype pho_resp =
    RespWrite "write_elt list" "sync_threshold option"
  | RespRead "read_elt list"
  | RespRelease "pho_id list" bool
  | RespError rc

datatype read_op = READ_OP_READ | READ_OP_DELETE

datatype pho_req =
    ReqWrite "(size_t \<times> string list) list" "pho_id list" bool
  | ReqRead "pho_id list" size_t read_op int
  | ReqRelease "release_elt list" bool bool

definition release_elt_init :: "pho_id \<Rightarrow> release_elt" where
  "release_elt_init medium =
     \<lparr>rel_med_id = medium, rel_rc = 0, rel_size_written = 0, rel_nb_extents_written = 0, rel_to_sync = False, rel_grouping = None\<rparr>"

subsection \<open>System\<close>

record pho_ext_loc =
  loc_root_path :: string
  loc_extent :: extent
  loc_addr_type :: address_type

record 'f raid_sys =
  sys_env :: "'f raid_env"
  sys_get_io_adapter :: "fs_type \<Rightarrow> rc"
  sys_open :: "nat \<Rightarrow> string \<Rightarrow> pho_ext_loc \<Rightarrow> bool \<Rightarrow> rc \<times> 'f"
  sys_close :: "nat \<Rightarrow> 'f \<Rightarrow> rc"
  sys_set_md :: "nat \<Rightarrow> pho_attrs \<Rightarrow> 'f \<Rightarrow> rc"
  sys_del :: "nat \<Rightarrow> pho_ext_loc \<Rightarrow> rc"
  sys_size :: "'f \<Rightarrow> int"
  sys_preferred_io_size :: "'f \<Rightarrow> int"
  sys_page_size :: int
  sys_clock_gettime :: "nat \<Rightarrow> rc \<times> timespec"
  sys_gettimeofday :: "nat \<Rightarrow> rc"
  sys_uuid :: "nat \<Rightarrow> string"
  sys_fs_block_size :: "rsc_family \<Rightarrow> rc \<times> size_t"
  sys_utf8 :: "string \<Rightarrow> bool"
  sys_json_dumps :: "json \<Rightarrow> string option"
  sys_json_loads :: "string \<Rightarrow> json option"
  sys_dup_fd :: "nat \<Rightarrow> int \<Rightarrow> rc \<times> 'f"
  sys_io_block_size :: "rsc_family \<Rightarrow> rc \<times> size_t"
  sys_closed :: 'f

subsection \<open>State\<close>

record put_params =
  pp_family :: rsc_family
  pp_tags :: "string list"
  pp_no_split :: bool
  pp_grouping :: "string option"
  pp_lyt_params :: pho_attrs
  pp_copy_name :: string

record xfer_target =
  xt_objid :: string
  xt_objuuid :: string
  xt_version :: int
  xt_size :: size_t
  xt_attrs :: pho_attrs
  xt_fd :: int

text \<open>One context of the writer with its output; \<open>rt_ioa\<close> tells which descriptors have an adapter.\<close>

record 'f raid_target =
  rt_name :: string
  rt_ctx :: "'f raid_io_context"
  rt_ioa :: "bool list"
  rt_user_md :: string
  rt_written_extents :: "extent list option"
  rt_to_release_media :: "(pho_id \<times> size_t) list"
  rt_n_released_media :: size_t
  rt_released :: bool
  rt_missing_extents_remaining :: size_t

text \<open>
  \<open>rp_media\<close> holds the data of the extents that were closed with success, by their UUID. The
  contexts of a hash of the reader that were freed are marked in \<open>rp_hash_freed\<close>, and \<open>rp_erased\<close> lists
  the extents that an eraser deleted. \<open>rp_posix\<close> holds the descriptors of the files of the targets;
  \<open>rp_destroyed\<close> is set once the processor was freed.
\<close>

record 'f raid_processor =
  rp_proc :: data_processor
  rp_calls :: nat
  rp_targets :: "xfer_target list"
  rp_put :: put_params
  rp_rebuild :: rebuild_params
  rp_src_layout :: layout_info
  rp_src_copy_ctime :: "int \<times> int"
  rp_dest_layout :: "layout_info list"
  rp_writers :: "'f raid_target list"
  rp_write_resp :: "(write_elt list \<times> sync_threshold option) option"
  rp_writer_release :: "release_elt list option"
  rp_writer_start_req :: timespec
  rp_need_alloc_to_write :: bool
  rp_reader :: "'f raid_io_context"
  rp_read_resp :: "read_elt list option"
  rp_hash_freed :: "(bool \<times> bool) list"
  rp_need_alloc_to_read :: bool
  rp_eraser :: "'f raid_io_context"
  rp_to_delete :: size_t
  rp_erased :: "extent list"
  rp_posix :: "'f pho_io_descr list"
  rp_destroyed :: bool
  rp_media :: "(string \<times> 'f) list"

type_synonym 'f proc_res = "(rc \<times> 'f raid_processor) option"

text \<open>The functions of a layout that the common code calls.\<close>

record 'f raid_ops =
  op_get_reader_chunk_size :: "layout_info \<Rightarrow> size_t \<Rightarrow> (rc \<times> size_t) option"
  op_read_into_buff :: "data_processor \<Rightarrow> 'f raid_io_context \<Rightarrow> 'f raid_res"
  op_write_from_buff :: "data_processor \<Rightarrow> 'f raid_io_context \<Rightarrow> 'f raid_res"
  op_rebuild_from_buff :: "data_processor \<Rightarrow> 'f raid_io_context \<Rightarrow> 'f raid_res"
  op_set_extra_attrs :: "processor_type \<Rightarrow> 'f raid_io_context \<Rightarrow> (rc \<times> 'f raid_io_context) option"

text \<open>Sequencing of return codes on this state.\<close>

definition seq_proc :: "'f proc_res \<Rightarrow> ('f raid_processor \<Rightarrow> 'f proc_res) \<Rightarrow> 'f proc_res" where
  "seq_proc r k = (case r of None \<Rightarrow> None | Some (rc, s) \<Rightarrow> if rc \<noteq> 0 then Some (rc, s) else k s)"

definition is_copier :: "data_processor \<Rightarrow> bool" where
  "is_copier proc \<longleftrightarrow> dp_type proc = PHO_PROC_COPIER"

definition is_eraser :: "data_processor \<Rightarrow> bool" where
  "is_eraser proc \<longleftrightarrow> dp_type proc = PHO_PROC_ERASER"

definition current_target :: "'f raid_processor \<Rightarrow> nat" where
  "current_target s = dp_current_target (rp_proc s)"

definition current_writer :: "'f raid_processor \<Rightarrow> 'f raid_target option" where
  "current_writer s = (if current_target s < length (rp_writers s) then Some (rp_writers s ! current_target s) else None)"

definition set_current_writer :: "'f raid_processor \<Rightarrow> 'f raid_target \<Rightarrow> 'f raid_processor" where
  "set_current_writer s w = s\<lparr>rp_writers := (rp_writers s)[current_target s := w]\<rparr>"

text \<open>Elimination of sequenced results.\<close>

lemma bind_SomeE:
  assumes "Option.bind m f = Some y"
  obtains x where "m = Some x" "f x = Some y"
  using assms by (auto simp: bind_eq_Some_conv)

lemma bind_Some2E:
  assumes "Option.bind m (\<lambda>(a, b). f a b) = Some y"
  obtains a b where "m = Some (a, b)" "f a b = Some y"
  using assms by (auto simp: bind_eq_Some_conv)

lemma bind_Some3E:
  assumes "Option.bind m (\<lambda>(a, b, c). f a b c) = Some y"
  obtains a b c where "m = Some (a, b, c)" "f a b c = Some y"
  using assms by (auto simp: bind_eq_Some_conv)

lemma if_SomeE:
  assumes "(if c then a else b) = Some y"
  obtains "c" "a = Some y" | "\<not> c" "b = Some y"
  using assms by (auto split: if_splits)

subsection \<open>Allocation requests\<close>

text \<open>What one target needs on each medium.\<close>

definition remain_per_medium :: "size_t \<Rightarrow> size_t \<Rightarrow> size_t \<Rightarrow> size_t" where
  "remain_per_medium fs_block_size n_data_extents target_remain_size =
     (let size_per_extent = size_sub (size_add target_remain_size n_data_extents) 1 div n_data_extents in
      if fs_block_size > 0 then
        let nb_block = size_add size_per_extent (fs_block_size - 1) div fs_block_size in
        size_add (size_mul nb_block fs_block_size) (size_mul 3 fs_block_size)
      else size_per_extent)"

definition xfer_remain_to_write_per_medium :: "'f raid_sys \<Rightarrow> 'f raid_processor \<Rightarrow> (rc \<times> size_t) option" where
  "xfer_remain_to_write_per_medium sys s = do {
     w \<leftarrow> current_writer s;
     let (rc, fs_block_size) = sys_fs_block_size sys (pp_family (rp_put s));
     if rc \<noteq> 0 then Some (rc, 0)
     else if ric_n_data_extents (rt_ctx w) = 0 then None
     else if current_target s \<ge> length (rp_targets s) then Some (0, 0)
     else Some (0, foldl (\<lambda>total remain. size_add total (remain_per_medium fs_block_size (ric_n_data_extents (rt_ctx w)) remain)) 0
            (size_sub (dp_object_size (rp_proc s)) (dp_writer_offset (rp_proc s)) # map xt_size (drop (current_target s + 1) (rp_targets s))))
   }"

definition raid_writer_rebuilder_build_allocation_req :: "'f raid_processor \<Rightarrow> size_t \<Rightarrow> pho_req option" where
  "raid_writer_rebuilder_build_allocation_req s sz = do {
     w \<leftarrow> current_writer s;
     let n_extents = get_n_extents (rt_ctx w) (dp_type (rp_proc s));
     let avoid = (if is_copier (rp_proc s) then lyt_extents (rp_src_layout s)
                  else if is_rebuilder (rp_proc s) then
                    filter (extent_is_in_current_split (ric_current_split (rt_ctx w)) (n_total_extents (rt_ctx w)))
                      (lyt_extents (rp_src_layout s))
                  else []);
     Some (ReqWrite (replicate n_extents (sz, pp_tags (rp_put s))) (map ext_media avoid) (pp_no_split (rp_put s)))
   }"

text \<open>The product and the sum are those of \<open>int64_t\<close>, in which a date fits.\<close>

definition priority_from_ctime :: "int \<times> int \<Rightarrow> int" where
  "priority_from_ctime ctime = - (fst ctime * 1000000 + snd ctime)"

text \<open>
  The allocation of a split for reading or deletion; the assertion of the readers fails when
  fewer extents than data extents can be read.
\<close>

definition raid_reader_eraser_build_allocation_req ::
  "processor_type \<Rightarrow> layout_info \<Rightarrow> rebuild_params \<Rightarrow> int \<times> int \<Rightarrow> 'f raid_io_context \<Rightarrow> pho_req option" where
  "raid_reader_eraser_build_allocation_req ptype lyt rb ctime ctx =
     (let n = n_total_extents ctx;
          extents = read_alloc_extents (ptype = PHO_PROC_REBUILDER) lyt rb (ric_current_split ctx) n
      in if ptype \<in> {PHO_PROC_DECODER, PHO_PROC_COPIER, PHO_PROC_REBUILDER} \<and> length extents < ric_n_data_extents ctx then None
         else Some (ReqRead (map ext_media extents)
                      (if ptype = PHO_PROC_ERASER then length extents else ric_n_data_extents ctx)
                      (if ptype = PHO_PROC_ERASER then READ_OP_DELETE else READ_OP_READ) (priority_from_ctime ctime)))"

end
