(* ===== verification/Raid_Split.thy ===== *)
theory Raid_Split
  imports Raid_Proc
begin

text \<open>
  The start and the end of a split of the RAID writer and rebuilder (\<^verbatim>\<open>src/layout/raid_common.c\<close>):
  the description of the extents, their opening, the sizes they get, and their closing with the
  accounting of what has to be released.
\<close>

subsection \<open>Description of the extents\<close>

text \<open>Sets the extents at the given slots; a slot outside the arrays has no result.\<close>

fun set_extents_info ::
  "'f raid_sys \<Rightarrow> write_elt list \<Rightarrow> size_t \<Rightarrow> (nat \<times> int) list \<Rightarrow> extent list \<times> nat \<Rightarrow> (extent list \<times> nat) option" where
  "set_extents_info sys media offset [] acc = Some acc"
| "set_extents_info sys media offset ((j, idx) # slots) (extents, n) =
     (if j < length extents \<and> j < length media then do {
        m \<leftarrow> pho_id_copy (ext_media (extents ! j)) (we_med_id (media ! j));
        set_extents_info sys media offset slots
          (extents[j := (extents ! j)\<lparr>ext_uuid := sys_uuid sys n, ext_layout_idx := idx, ext_offset := offset, ext_media := m\<rparr>], n + 1)
      } else None)"

definition raid_writer_set_extent_info ::
  "'f raid_sys \<Rightarrow> write_elt list \<Rightarrow> int \<Rightarrow> size_t \<Rightarrow> 'f raid_io_context \<Rightarrow> nat \<Rightarrow> ('f raid_io_context \<times> nat) option" where
  "raid_writer_set_extent_info sys media extent_idx offset ctx n = do {
     (extents, n) \<leftarrow> set_extents_info sys media offset (map (\<lambda>i. (i, extent_idx + int i)) [0..<n_total_extents ctx]) (ric_out_extents ctx, n);
     Some (ctx\<lparr>ric_out_extents := extents\<rparr>, n)
   }"

definition extent_from_rebuild_list :: "rebuild_params \<Rightarrow> int \<Rightarrow> bool" where
  "extent_from_rebuild_list rb idx \<longleftrightarrow> idx \<in> set (rb_extents_idx rb)"

text \<open>The indices of the current split that are rebuilt, in order.\<close>

definition rebuilt_indices :: "layout_info \<Rightarrow> rebuild_params \<Rightarrow> 'f raid_io_context \<Rightarrow> int list" where
  "rebuilt_indices lyt rb ctx =
     filter (\<lambda>i. if rb_extents_idx rb \<noteq> [] then extent_from_rebuild_list rb i
                 else extent_from_layout_idx (lyt_extents lyt) i = None)
       (map int (split_indices (ric_current_split ctx) (n_total_extents ctx)))"

definition raid_rebuilder_set_extent_info ::
  "'f raid_sys \<Rightarrow> write_elt list \<Rightarrow> layout_info \<Rightarrow> rebuild_params \<Rightarrow> 'f raid_io_context \<Rightarrow> nat \<Rightarrow> ('f raid_io_context \<times> nat) option" where
  "raid_rebuilder_set_extent_info sys media lyt rb ctx n = do {
     (extents, n) \<leftarrow> set_extents_info sys media (ric_current_split_offset ctx) (enumerate 0 (rebuilt_indices lyt rb ctx)) (ric_out_extents ctx, n);
     Some (ctx\<lparr>ric_out_extents := extents\<rparr>, n)
   }"

subsection \<open>Opening\<close>

definition raid_io_context_setmd :: "size_t \<Rightarrow> string \<Rightarrow> 'f pho_io_descr list \<Rightarrow> 'f pho_io_descr list option" where
  "raid_io_context_setmd n_extents str iods =
     (if n_extents > length iods then None
      else if str = '''' then Some iods
      else Some (map (\<lambda>iod. iod\<lparr>iod_attrs := pho_attr_set (iod_attrs iod) ''user_md'' (Some str)\<rparr>) (take n_extents iods) @ drop n_extents iods))"

definition make_ext_location :: "write_elt list \<Rightarrow> extent list \<Rightarrow> nat \<Rightarrow> pho_ext_loc option" where
  "make_ext_location media extents i =
     (if i < length media \<and> i < length extents then
        Some \<lparr>loc_root_path = we_root_path (media ! i), loc_extent = extents ! i, loc_addr_type = we_addr_type (media ! i)\<rparr>
      else None)"

text \<open>The loop of \<open>raid_io_context_open\<close>; on an error, the descriptors opened before are closed again.\<close>

fun open_extents ::
  "'f raid_sys \<Rightarrow> string \<Rightarrow> write_elt list \<Rightarrow> extent list \<Rightarrow> nat list \<Rightarrow> 'f pho_io_descr list \<times> nat \<Rightarrow>
   (rc \<times> 'f pho_io_descr list \<times> nat) option" where
  "open_extents sys objid media extents [] (iods, n) = Some (0, iods, n)"
| "open_extents sys objid media extents (i # is) (iods, n) =
     (if i < length iods then do {
        loc \<leftarrow> make_ext_location media extents i;
        let (rc, f) = sys_open sys n objid loc True;
        let iods1 = iods[i := (iods ! i)\<lparr>iod_size := 0, iod_ctx := f\<rparr>];
        if rc \<noteq> 0 then Some (rc, iods1, n + 1 + i) else open_extents sys objid media extents is (iods1, n + 1)
      } else None)"

definition raid_io_context_open ::
  "'f raid_sys \<Rightarrow> string \<Rightarrow> write_elt list \<Rightarrow> size_t \<Rightarrow> 'f raid_io_context \<Rightarrow> nat \<Rightarrow> (rc \<times> 'f raid_io_context \<times> nat) option" where
  "raid_io_context_open sys objid media count ctx n = do {
     (rc, iods, n) \<leftarrow> open_extents sys objid media (ric_out_extents ctx) [0..<count] (ric_iods ctx, n);
     Some (rc, ctx\<lparr>ric_iods := iods\<rparr>, n)
   }"

text \<open>The result of \<open>lcm\<close> is computed and dropped.\<close>

definition set_current_split_chunk_size :: "'f raid_sys \<Rightarrow> size_t \<Rightarrow> 'f raid_io_context \<Rightarrow> 'f raid_io_context option" where
  "set_current_split_chunk_size sys n_iod ctx =
     (if n_iod > length (ric_iods ctx) then None
      else
        Some (ctx\<lparr>ric_current_split_chunk_size :=
          foldl (\<lambda>chunk iod.
                   let preferred = sys_preferred_io_size sys (iod_ctx iod);
                       size = (if preferred \<le> 0 then sys_page_size sys else preferred)
                   in if chunk = 0 then c_size size else chunk) 0 (take n_iod (ric_iods ctx))\<rparr>))"

subsection \<open>Setup\<close>

text \<open>The adapters of the descriptors, in order, until one cannot be had.\<close>

fun get_io_adapters :: "'f raid_sys \<Rightarrow> write_elt list \<Rightarrow> nat list \<Rightarrow> 'f pho_io_descr list \<times> bool list \<Rightarrow> (rc \<times> 'f pho_io_descr list \<times> bool list) option" where
  "get_io_adapters sys media [] (iods, ioa) = Some (0, iods, ioa)"
| "get_io_adapters sys media (i # is) (iods, ioa) =
     (if i < length media \<and> i < length iods \<and> i < length ioa then
        let rc = sys_get_io_adapter sys (we_fs_type (media ! i)) in
        if rc \<noteq> 0 then Some (rc, iods, ioa)
        else get_io_adapters sys media is (iods[i := (iods ! i)\<lparr>iod_size := 0\<rparr>], ioa[i := True])
      else None)"

text \<open>The chunk size is only chosen when the split has none.\<close>

definition choose_chunk_size :: "'f raid_sys \<Rightarrow> data_processor \<Rightarrow> size_t \<Rightarrow> 'f raid_io_context \<Rightarrow> 'f raid_io_context option" where
  "choose_chunk_size sys proc n_extents ctx =
     (if ric_current_split_chunk_size ctx \<noteq> 0 then Some ctx
      else if dp_io_block_size proc \<noteq> 0 then Some (ctx\<lparr>ric_current_split_chunk_size := dp_io_block_size proc\<rparr>)
      else set_current_split_chunk_size sys n_extents ctx)"

definition set_extent_info ::
  "'f raid_sys \<Rightarrow> write_elt list \<Rightarrow> 'f raid_processor \<Rightarrow> size_t \<Rightarrow> 'f raid_io_context \<Rightarrow> ('f raid_io_context \<times> nat) option" where
  "set_extent_info sys media s n_extents ctx =
     (if is_rebuilder (rp_proc s)
      then raid_rebuilder_set_extent_info sys media (rp_src_layout s) (rp_rebuild s) ctx (rp_calls s)
      else raid_writer_set_extent_info sys media (c_int (int (ric_current_split ctx * n_extents)))
             (dp_writer_offset (rp_proc s)) ctx (rp_calls s))"

text \<open>Descriptions, opening and chunk size, once the descriptors have their adapters.\<close>

definition open_split ::
  "'f raid_sys \<Rightarrow> 'f raid_processor \<Rightarrow> string \<Rightarrow> write_elt list \<Rightarrow> size_t \<Rightarrow> 'f raid_io_context \<Rightarrow> (rc \<times> 'f raid_io_context \<times> nat) option" where
  "open_split sys s user_md media n_extents ctx = do {
     iods \<leftarrow> raid_io_context_setmd n_extents user_md (ric_iods ctx);
     (ctx, n) \<leftarrow> set_extent_info sys media s n_extents (ctx\<lparr>ric_iods := iods\<rparr>);
     if current_target s \<ge> length (rp_targets s) then None
     else do {
       (rc, ctx, n) \<leftarrow> raid_io_context_open sys (xt_objid (rp_targets s ! current_target s)) media n_extents ctx n;
       if rc \<noteq> 0 then Some (rc, ctx, n)
       else do { ctx \<leftarrow> choose_chunk_size sys (rp_proc s) n_extents ctx; Some (0, ctx, n) }
     }
   }"

definition common_split_setup :: "'f raid_sys \<Rightarrow> 'f raid_processor \<Rightarrow> 'f proc_res" where
  "common_split_setup sys s = do {
     w \<leftarrow> current_writer s;
     (media, threshold) \<leftarrow> rp_write_resp s;
     let n_extents = get_n_extents (rt_ctx w) (dp_type (rp_proc s));
     if length media \<noteq> n_extents then Some (- EINVAL, s)
     else do {
       (rc, iods, ioa) \<leftarrow> get_io_adapters sys media [0..<n_extents] (ric_iods (rt_ctx w), rt_ioa w);
       let ctx = (rt_ctx w)\<lparr>ric_iods := iods\<rparr>;
       (rc, ctx, n) \<leftarrow> (if rc \<noteq> 0 then Some (rc, ctx, rp_calls s) else open_split sys s (rt_user_md w) media n_extents ctx);
       Some (rc, set_current_writer (s\<lparr>rp_calls := n\<rparr>) (w\<lparr>rt_ctx := ctx, rt_ioa := ioa\<rparr>))
     }
   }"

definition raid_io_context_set_extent_size ::
  "processor_type \<Rightarrow> size_t \<Rightarrow> size_t \<Rightarrow> 'f raid_io_context \<Rightarrow> 'f raid_io_context option" where
  "raid_io_context_set_extent_size ty extent_size extent_size_remainder ctx =
     (let n_extents = get_n_extents ctx ty;
          extents = ric_out_extents ctx;
          sized = (\<lambda>(i, e).
            let extent_idx = (if ty = PHO_PROC_REBUILDER then c_size (ext_layout_idx e) mod n_total_extents ctx else i) in
            e\<lparr>ext_size := (if extent_size_remainder > 0 \<and> (extent_idx < extent_size_remainder \<or> extent_idx \<ge> ric_n_data_extents ctx)
                            then size_add extent_size 1 else extent_size)\<rparr>)
      in if n_extents > length extents then None
         else Some (ctx\<lparr>ric_out_extents := map sized (enumerate 0 (take n_extents extents)) @ drop n_extents extents\<rparr>))"

text \<open>
  A reallocated buffer keeps its bytes; those it gains are zero here, and no statement depends on
  them.
\<close>

definition pho_buff_realloc :: "byte list \<Rightarrow> size_t \<Rightarrow> byte list" where
  "pho_buff_realloc buff sz = take sz buff @ replicate (sz - length buff) 0"

definition fit_buffer :: "size_t \<Rightarrow> byte list \<Rightarrow> byte list option" where
  "fit_buffer stripe_size buff =
     (if buff = [] then Some buff
      else if stripe_size = 0 then None
      else if length buff mod stripe_size \<noteq> 0 then map_option (pho_buff_realloc buff) (lcm_c (length buff) stripe_size)
      else Some buff)"

fun reset_hashes :: "'f raid_env \<Rightarrow> extent_hash list \<Rightarrow> rc \<times> extent_hash list" where
  "reset_hashes env [] = (0, [])"
| "reset_hashes env (h # hs) =
     (let (rc, h) = extent_hash_reset env h in
      if rc \<noteq> 0 then (rc, h # hs) else let (rc, hs) = reset_hashes env hs in (rc, h # hs))"

text \<open>The sizes of the extents of a new split: the size of each, and the number of data extents with one byte more.\<close>

definition split_extent_size :: "'f raid_io_context \<Rightarrow> data_processor \<Rightarrow> write_elt list \<Rightarrow> (size_t \<times> size_t) option" where
  "split_extent_size ctx proc media =
     (let n_data = ric_n_data_extents ctx; chunk = ric_current_split_chunk_size ctx;
          remain = size_sub (dp_object_size proc) (dp_writer_offset proc)
      in if n_data = 0 \<or> n_total_extents ctx > length media then None
         else
           let (extent_size, remainder) =
                 foldl (\<lambda>(es, rem) m. if we_avail_size m < es then (we_avail_size m, 0) else (es, rem))
                   (remain div n_data, remain mod n_data) (take (n_total_extents ctx) media);
               whole = size_add (size_add (ric_current_split_offset ctx) (size_mul extent_size n_data)) remainder
           in if extent_size > chunk \<and> dp_object_size proc \<noteq> whole
              then (if chunk = 0 then None else Some (extent_size - extent_size mod chunk, remainder))
              else Some (extent_size, remainder))"

text \<open>The sizes, the buffer, the hashes and the attributes of a new split.\<close>

definition size_split ::
  "'f raid_sys \<Rightarrow> 'f raid_ops \<Rightarrow> write_elt list \<Rightarrow> data_processor \<Rightarrow> 'f raid_io_context \<Rightarrow> 'f raid_res" where
  "size_split sys ops media proc ctx = do {
     (extent_size, remainder) \<leftarrow> split_extent_size ctx proc media;
     let stripe_size = size_mul (ric_current_split_chunk_size ctx) (ric_n_data_extents ctx);
     ctx \<leftarrow> raid_io_context_set_extent_size (dp_type proc) extent_size remainder ctx;
     buff \<leftarrow> fit_buffer stripe_size (dp_buff proc);
     let proc = proc\<lparr>dp_writer_stripe_size := stripe_size, dp_buff := buff\<rparr>;
     let (rc, hashes) = reset_hashes (sys_env sys) (ric_hashes ctx);
     let ctx = ctx\<lparr>ric_hashes := hashes\<rparr>;
     if rc \<noteq> 0 then Some (rc, proc, ctx)
     else if ric_n_data_extents ctx > length (ric_out_extents ctx) then None
     else do {
       let sizes = map ext_size (take (ric_n_data_extents ctx) (ric_out_extents ctx));
       (rc, ctx) \<leftarrow> op_set_extra_attrs ops (dp_type proc) (ctx\<lparr>ric_current_split_size := foldl size_add 0 sizes\<rparr>);
       Some (rc, proc, ctx)
     }
   }"

definition raid_writer_split_setup :: "'f raid_sys \<Rightarrow> 'f raid_ops \<Rightarrow> 'f raid_processor \<Rightarrow> 'f proc_res" where
  "raid_writer_split_setup sys ops s =
     seq_proc (common_split_setup sys s) (\<lambda>s. do {
       w \<leftarrow> current_writer s;
       (media, threshold) \<leftarrow> rp_write_resp s;
       (rc, proc, ctx) \<leftarrow> size_split sys ops media (rp_proc s) (rt_ctx w);
       Some (rc, (set_current_writer s (w\<lparr>rt_ctx := ctx\<rparr>))\<lparr>rp_proc := proc\<rparr>)
     })"

subsection \<open>Closing\<close>

record object_metadata =
  om_attrs :: pho_attrs
  om_size :: size_t
  om_version :: int
  om_layout_name :: string
  om_uuid :: string
  om_copy_name :: string

text \<open>The attributes that describe the extent on its medium.\<close>

definition object_md_attrs :: "object_metadata \<Rightarrow> string \<Rightarrow> extent \<Rightarrow> pho_attrs \<Rightarrow> pho_attrs" where
  "object_md_attrs md user_md e attrs =
     (let set = (\<lambda>key v attrs. pho_attr_set attrs key (Some v));
          a1 = set ''user_md'' user_md attrs;
          a2 = (case ext_md5 e of None \<Rightarrow> a1 | Some d \<Rightarrow> set ''md5'' (uchar2hex d) a1);
          a3 = (case ext_xxh128 e of None \<Rightarrow> a2 | Some d \<Rightarrow> set ''xxh128'' (uchar2hex d) a2)
      in set ''copy_name'' (om_copy_name md)
          (set ''object_uuid'' (om_uuid md)
          (set ''layout'' (om_layout_name md)
          (set ''version'' (int2str (om_version md))
          (set ''extent_offset'' (nat2str (ext_offset e))
          (set ''object_size'' (nat2str (om_size md)) a3))))))"

definition set_object_md :: "'f raid_sys \<Rightarrow> object_metadata \<Rightarrow> extent \<Rightarrow> nat \<Rightarrow> 'f pho_io_descr \<Rightarrow> rc \<times> 'f pho_io_descr" where
  "set_object_md sys md e n iod =
     (let (rc, user_md) = pho_attrs_to_json (sys_utf8 sys) (sys_json_dumps sys) (om_attrs md) in
      if rc \<noteq> 0 then (rc, iod)
      else (sys_set_md sys n (object_md_attrs md user_md e (iod_attrs iod)) (iod_ctx iod), iod\<lparr>iod_attrs := None\<rparr>))"

text \<open>The all-zero extent.\<close>

definition extent_zero :: extent where
  "extent_zero = \<lparr>ext_uuid = '''', ext_layout_idx = 0, ext_state = PHO_EXT_ST_PENDING, ext_size = 0,
     ext_media = \<lparr>family = PHO_RSC_TAPE, name = '''', library = ''''\<rparr>, ext_offset = 0, ext_xxh128 = None, ext_md5 = None, ext_info = None\<rparr>"

definition raid_io_add_written_extent :: "extent \<Rightarrow> 'f raid_target \<Rightarrow> 'f raid_target option" where
  "raid_io_add_written_extent e w = do {
     written \<leftarrow> rt_written_extents w;
     let refs = rt_to_release_media w;
     Some (w\<lparr>rt_written_extents := Some (written @ [e]),
             rt_to_release_media := (case map_of refs (ext_media e) of
                None \<Rightarrow> AList.update (ext_media e) 1 refs
              | Some n \<Rightarrow> AList.update (ext_media e) (size_add n 1) refs)\<rparr>)
   }"

text \<open>The hash and the attributes of an extent.\<close>

definition finish_extent :: "'f raid_sys \<Rightarrow> object_metadata \<Rightarrow> nat \<Rightarrow> nat \<Rightarrow> 'f raid_io_context \<Rightarrow> rc \<times> 'f raid_io_context \<times> nat" where
  "finish_extent sys md i n ctx =
     (let (rc, h) = extent_hash_digest (sys_env sys) (ric_hashes ctx ! i);
          ctx1 = ctx\<lparr>ric_hashes := (ric_hashes ctx)[i := h]\<rparr>
      in if rc \<noteq> 0 then (rc, ctx1, n)
         else
           let e = extent_hash_copy h (ric_out_extents ctx ! i);
               (rc, iod) = set_object_md sys md e n (ric_iods ctx ! i)
           in (rc, ctx1\<lparr>ric_out_extents := (ric_out_extents ctx)[i := e], ric_iods := (ric_iods ctx)[i := iod\<lparr>iod_attrs := None\<rparr>]\<rparr>, n + 1))"

text \<open>
  One turn of the loop that closes the extents of a split. The result is the return code, whether
  the descriptor is still to be closed, and the state.
\<close>

definition close_extent :: "'f raid_sys \<Rightarrow> object_metadata \<Rightarrow> nat \<Rightarrow> 'f raid_processor \<Rightarrow> (rc \<times> bool \<times> 'f raid_processor) option" where
  "close_extent sys md i s = do {
     w \<leftarrow> current_writer s;
     (media, threshold) \<leftarrow> rp_write_resp s;
     release \<leftarrow> rp_writer_release s;
     let ctx = rt_ctx w;
     if \<not> (i < length (ric_iods ctx) \<and> i < length (ric_hashes ctx) \<and> i < length (ric_out_extents ctx) \<and> i < length media
           \<and> i < length release \<and> i < length (rt_ioa w) \<and> rt_ioa w ! i) then None
     else do {
       let iod = ric_iods ctx ! i;
       let s1 = s\<lparr>rp_write_resp :=
         Some (media[i := (media ! i)\<lparr>we_avail_size := size_sub (we_avail_size (media ! i)) (iod_size iod)\<rparr>], threshold)\<rparr>;
       let (rc, ctx1, n) = finish_extent sys md i (rp_calls s) ctx;
       if rc \<noteq> 0 then Some (rc, True, set_current_writer (s1\<lparr>rp_calls := n\<rparr>) (w\<lparr>rt_ctx := ctx1\<rparr>))
       else if sys_close sys n (iod_ctx iod) \<noteq> 0 then
         Some (sys_close sys n (iod_ctx iod), False, set_current_writer (s1\<lparr>rp_calls := n + 1\<rparr>) (w\<lparr>rt_ctx := ctx1\<rparr>))
       else do {
         let e = ric_out_extents ctx1 ! i;
         let s2 = s1\<lparr>rp_calls := n + 2, rp_media := (ext_uuid e, iod_ctx iod) # rp_media s\<rparr>;
         if sys_gettimeofday sys (n + 1) \<noteq> 0 then
           Some (sys_gettimeofday sys (n + 1), False, set_current_writer s2 (w\<lparr>rt_ctx := ctx1\<rparr>))
         else do {
           w1 \<leftarrow> raid_io_add_written_extent e (w\<lparr>rt_ctx := ctx1\<lparr>ric_out_extents := (ric_out_extents ctx1)[i := extent_zero]\<rparr>\<rparr>);
           let r = release ! i;
           Some (0, False, set_current_writer
             (s2\<lparr>rp_writer_release := Some (release[i := r\<lparr>rel_nb_extents_written := size_add (rel_nb_extents_written r) 1,
                                                          rel_size_written := size_add (rel_size_written r) (iod_size iod)\<rparr>])\<rparr>) w1)
         }
       }
     }
   }"

text \<open>The loop, with the descriptors that are left to close when it ends.\<close>

fun close_extents :: "'f raid_sys \<Rightarrow> object_metadata \<Rightarrow> nat list \<Rightarrow> 'f raid_processor \<Rightarrow> (rc \<times> nat list \<times> 'f raid_processor) option" where
  "close_extents sys md [] s = Some (0, [], s)"
| "close_extents sys md (i # is) s = do {
     (rc, open, s) \<leftarrow> close_extent sys md i s;
     if rc \<noteq> 0 then Some (rc, if open then i # is else is, s) else close_extents sys md is s
   }"

definition common_writer_rebuilder_split_close :: "'f raid_sys \<Rightarrow> object_metadata \<Rightarrow> rc \<Rightarrow> 'f raid_processor \<Rightarrow> 'f proc_res" where
  "common_writer_rebuilder_split_close sys md rc s = do {
     release \<leftarrow> rp_writer_release s;
     w \<leftarrow> current_writer s;
     let all_extents = [0..<get_n_extents (rt_ctx w) (dp_type (rp_proc s))];
     (rc, left, s1) \<leftarrow> (if rc = 0 then close_extents sys md all_extents s else Some (rc, all_extents, s));
     w1 \<leftarrow> current_writer s1;
     if list_all (\<lambda>i. i < length (rt_ioa w1) \<and> rt_ioa w1 ! i) left
     then Some (rc, s1\<lparr>rp_calls := rp_calls s1 + length left\<rparr>) else None
   }"

definition next_split :: "size_t \<Rightarrow> 'f raid_target \<Rightarrow> 'f raid_target" where
  "next_split offset w =
     w\<lparr>rt_ctx := (rt_ctx w)\<lparr>ric_current_split := size_add (ric_current_split (rt_ctx w)) 1, ric_current_split_offset := offset\<rparr>\<rparr>"

definition raid_writer_split_close :: "'f raid_sys \<Rightarrow> rc \<Rightarrow> 'f raid_processor \<Rightarrow> 'f proc_res" where
  "raid_writer_split_close sys rc s = do {
     w \<leftarrow> current_writer s;
     let t = current_target s;
     if t \<ge> length (rp_targets s) \<or> t \<ge> length (rp_dest_layout s) then None
     else do {
       let x = rp_targets s ! t;
       let md = \<lparr>om_attrs = xt_attrs x, om_size = xt_size x, om_version = xt_version x, om_layout_name = rt_name w,
                 om_uuid = xt_objuuid x, om_copy_name = lyt_copy_name (rp_dest_layout s ! t)\<rparr>;
       (rc, s1) \<leftarrow> common_writer_rebuilder_split_close sys md rc s;
       if rc \<noteq> 0 then Some (rc, s1)
       else do {
         w1 \<leftarrow> current_writer s1;
         Some (0, set_current_writer s1 (next_split (dp_writer_offset (rp_proc s1)) w1))
       }
     }
   }"


end
