(* ===== verification/Raid_Writer.thy ===== *)
theory Raid_Writer
  imports Raid_Split
begin

text \<open>
  The RAID writer (\<^verbatim>\<open>src/layout/raid_common.c\<close>): the accounting of the releases, and
  \<open>raid_writer_processor_step\<close>, which drives the allocations, the splits and the targets of a
  put.
\<close>

subsection \<open>Releases\<close>

definition common_fill_layout :: "'f raid_target \<Rightarrow> layout_info \<Rightarrow> ('f raid_target \<times> layout_info) option" where
  "common_fill_layout w lyt = do {
     written \<leftarrow> rt_written_extents w;
     Some (w\<lparr>rt_written_extents := None, rt_n_released_media := 0\<rparr>,
           lyt\<lparr>lyt_extents := map (\<lambda>e. e\<lparr>ext_state := PHO_EXT_ST_SYNC\<rparr>) written\<rparr>)
   }"

text \<open>Fills the layout of a target and marks it as released.\<close>

definition release_target :: "nat \<Rightarrow> 'f raid_processor \<Rightarrow> 'f raid_processor option" where
  "release_target i s =
     (if i < length (rp_writers s) \<and> i < length (rp_dest_layout s) then do {
        (w, lyt) \<leftarrow> common_fill_layout (rp_writers s ! i) (rp_dest_layout s ! i);
        Some (s\<lparr>rp_writers := (rp_writers s)[i := w\<lparr>rt_released := True\<rparr>], rp_dest_layout := (rp_dest_layout s)[i := lyt]\<rparr>)
      } else None)"

fun partial_release_loop :: "nat list \<Rightarrow> 'f raid_processor \<Rightarrow> 'f raid_processor option" where
  "partial_release_loop [] s = Some s"
| "partial_release_loop (i # is) s =
     (if i < length (rp_writers s) then
        if rt_released (rp_writers s ! i) then partial_release_loop is s
        else do { s \<leftarrow> release_target i s; partial_release_loop is s }
      else None)"

definition raid_writer_handle_partial_release_resp :: "'f raid_processor \<Rightarrow> 'f proc_res" where
  "raid_writer_handle_partial_release_resp s =
     do { s \<leftarrow> partial_release_loop [0..<current_target s] s; Some (0, s) }"

definition mark_written_medium_released :: "pho_id \<Rightarrow> 'f raid_target \<Rightarrow> ('f raid_target \<times> bool) option" where
  "mark_written_medium_released medium w = do {
     copy \<leftarrow> pho_id_copy medium medium;
     case map_of (rt_to_release_media w) copy of
       None \<Rightarrow> Some (w, False)
     | Some refcount \<Rightarrow>
         if refcount = 0 then None
         else
           let w1 = w\<lparr>rt_n_released_media := size_add (rt_n_released_media w) 1\<rparr> in
           if refcount = 1 then Some (w1\<lparr>rt_to_release_media := AList.delete copy (rt_to_release_media w)\<rparr>, True)
           else Some (w1\<lparr>rt_to_release_media := AList.update copy (refcount - 1) (rt_to_release_media w)\<rparr>, True)
   }"

text \<open>The medium is marked in every target.\<close>

fun mark_targets :: "pho_id \<Rightarrow> nat list \<Rightarrow> 'f raid_target list \<times> bool \<Rightarrow> ('f raid_target list \<times> bool) option" where
  "mark_targets medium [] acc = Some acc"
| "mark_targets medium (j # js) (ws, found) =
     (if j < length ws then do {
        (w, f) \<leftarrow> mark_written_medium_released medium (ws ! j);
        mark_targets medium js (ws[j := w], found \<or> f)
      } else None)"

fun common_release_media :: "pho_id list \<Rightarrow> rc \<Rightarrow> 'f raid_processor \<Rightarrow> 'f proc_res" where
  "common_release_media [] rc s = Some (rc, s)"
| "common_release_media (m # ms) rc s = do {
     (ws, found) \<leftarrow> mark_targets m [0..<length (rp_targets s)] (rp_writers s, False);
     common_release_media ms (if found then rc else - EINVAL) (s\<lparr>rp_writers := ws\<rparr>)
   }"

text \<open>
  The loop on the targets that are written and have all their extents released. The result is the
  number of targets that are released.
\<close>

fun released_targets :: "nat list \<Rightarrow> nat \<Rightarrow> 'f raid_processor \<Rightarrow> (nat \<times> 'f raid_processor) option" where
  "released_targets [] n s = Some (n, s)"
| "released_targets (i # is) n s =
     (if i < length (rp_writers s) then
        let w = rp_writers s ! i in
        if rt_released w then released_targets is (n + 1) s
        else if ric_all_is_written (rt_ctx w) then
          (case rt_written_extents w of
             None \<Rightarrow> None
           | Some written \<Rightarrow>
               if length written > 0 \<and> length written = rt_n_released_media w
               then do { s \<leftarrow> release_target i s; released_targets is (n + 1) s }
               else released_targets is n s)
        else released_targets is n s
      else None)"

definition raid_writer_handle_release_resp :: "pho_id list \<Rightarrow> 'f raid_processor \<Rightarrow> 'f proc_res" where
  "raid_writer_handle_release_resp med_ids s = do {
     (rc, s) \<leftarrow> common_release_media med_ids 0 s;
     (target_released, s) \<leftarrow> released_targets [0..<length (rp_targets s)] 0 s;
     if target_released = length (rp_targets s) then Some (0, s\<lparr>rp_proc := (rp_proc s)\<lparr>dp_done := True\<rparr>\<rparr>)
     else Some (rc, s)
   }"

definition prepare_writer_rebuilder_release_request :: "'f raid_sys \<Rightarrow> pho_resp \<Rightarrow> 'f raid_processor \<Rightarrow> 'f proc_res" where
  "prepare_writer_rebuilder_release_request sys resp s =
     (let (rc, now) = sys_clock_gettime sys (rp_calls s); s1 = s\<lparr>rp_calls := rp_calls s + 1\<rparr> in
      if rc \<noteq> 0 then Some (rc, s1)
      else do {
        write_resp \<leftarrow> (case resp of
            RespRelease _ True \<Rightarrow> rp_write_resp s
          | RespWrite media threshold \<Rightarrow> Some (media, threshold)
          | _ \<Rightarrow> None);
        Some (0, s1\<lparr>rp_writer_start_req := now, rp_write_resp := Some write_resp,
                    rp_writer_release := Some (map (release_elt_init \<circ> we_med_id) (fst write_resp))\<rparr>)
      })"

text \<open>Whether the media of a release have reached a threshold of the LRS.\<close>

fun need_to_sync :: "'f raid_sys \<Rightarrow> sync_threshold \<Rightarrow> timespec \<Rightarrow> release_elt list \<Rightarrow> nat \<Rightarrow> bool \<times> nat" where
  "need_to_sync sys threshold start [] n = (False, n)"
| "need_to_sync sys threshold start (r # rs) n =
     (if rel_size_written r \<ge> sync_wsize_kb threshold \<or> rel_nb_extents_written r \<ge> sync_nb_req threshold then (True, n)
      else
        let (rc, now) = sys_clock_gettime sys n in
        if is_past (if rc = 0 then Some now else None) (add_timespec start (sync_time threshold)) then (True, n + 1)
        else need_to_sync sys threshold start rs (n + 1))"

definition complete_and_transfer_release :: "rc \<Rightarrow> bool \<Rightarrow> bool \<Rightarrow> 'f raid_processor \<Rightarrow> (pho_req \<times> 'f raid_processor) option" where
  "complete_and_transfer_release rc stop_io partial s = do {
     release \<leftarrow> rp_writer_release s;
     (media, threshold) \<leftarrow> rp_write_resp s;
     let complete = (\<lambda>r. let r1 = r\<lparr>rel_rc := (if stop_io then 0 else rc)\<rparr> in
           if rc \<noteq> 0 \<or> stop_io then r1\<lparr>rel_to_sync := False\<rparr> else r1\<lparr>rel_to_sync := True, rel_grouping := pp_grouping (rp_put s)\<rparr>);
     if length media > length release then None
     else Some (ReqRelease (map complete (take (length media) release) @ drop (length media) release) False partial,
                s\<lparr>rp_writer_release := None\<rparr>)
   }"

subsection \<open>The step\<close>

text \<open>The label \<open>set_target_rc\<close>.\<close>

definition set_target_rc :: "rc \<Rightarrow> pho_req list \<Rightarrow> 'f raid_processor \<Rightarrow> (rc \<times> 'f raid_processor \<times> pho_req list) option" where
  "set_target_rc rc reqs s =
     (let proc = rp_proc s; t = current_target s; n = length (rp_targets s) in
      Some (rc, if rc = 0 then s
                else s\<lparr>rp_proc := proc\<lparr>dp_xd_rc := (if dp_xd_rc proc = 0 then rc else dp_xd_rc proc),
                                       dp_xt_rc := take t (dp_xt_rc proc) @ replicate (n - t) rc @ drop (max t n) (dp_xt_rc proc)\<rparr>\<rparr>, reqs))"

text \<open>What a write has reached when the step comes to its label \<open>check_for_release\<close>.\<close>

record write_status =
  ws_split_ended :: bool
  ws_target_ended :: bool
  ws_last_target_ended :: bool
  ws_need_alloc_for_next_target :: bool
  ws_remain :: size_t
  ws_stop_io :: bool

definition no_write :: "bool \<Rightarrow> write_status" where
  "no_write stop_io = \<lparr>ws_split_ended = False, ws_target_ended = False, ws_last_target_ended = False,
     ws_need_alloc_for_next_target = False, ws_remain = 0, ws_stop_io = stop_io\<rparr>"

text \<open>The start of the next target.\<close>

definition next_target :: "'f raid_sys \<Rightarrow> 'f raid_ops \<Rightarrow> bool \<Rightarrow> rc \<Rightarrow> 'f raid_processor \<Rightarrow> 'f proc_res" where
  "next_target sys ops need_new_alloc rc s =
     (let t = current_target s + 1;
          s1 = s\<lparr>rp_proc := (rp_proc s)\<lparr>dp_current_target := t, dp_reader_offset := 0, dp_writer_offset := 0, dp_buffer_offset := 0\<rparr>\<rparr>
      in if t < length (rp_targets s) then
           let s2 = s1\<lparr>rp_proc := (rp_proc s1)\<lparr>dp_object_size := xt_size (rp_targets s ! t)\<rparr>\<rparr> in
           if need_new_alloc then Some (rc, s2) else raid_writer_split_setup sys ops s2
         else Some (rc, s1))"

text \<open>From the label \<open>check_for_release\<close> to the end.\<close>

definition check_for_release ::
  "'f raid_sys \<Rightarrow> 'f raid_ops \<Rightarrow> rc \<Rightarrow> write_status \<Rightarrow> 'f raid_processor \<Rightarrow> (rc \<times> 'f raid_processor \<times> pho_req list) option" where
  "check_for_release sys ops rc st s = do {
     let resplit = ws_split_ended st \<and> \<not> ws_target_ended st;
     let need_full_release = rc \<noteq> 0 \<or> resplit \<or> ws_need_alloc_for_next_target st \<or> ws_last_target_ended st;
     let need_new_alloc = rc = 0 \<and> (resplit \<or> ws_need_alloc_for_next_target st);
     (rc, s) \<leftarrow> (if ws_split_ended st \<or> rc \<noteq> 0 then raid_writer_split_close sys rc s else Some (rc, s));
     (need_partial_release, s) \<leftarrow>
       (if rc = 0 \<and> ws_split_ended st \<and> \<not> need_full_release then do {
          release \<leftarrow> rp_writer_release s;
          (media, threshold) \<leftarrow> rp_write_resp s;
          threshold \<leftarrow> threshold;
          let (sync, n) = need_to_sync sys threshold (rp_writer_start_req s) release (rp_calls s);
          Some (sync, s\<lparr>rp_calls := n\<rparr>)
        } else Some (False, s));
     (reqs, s) \<leftarrow>
       (if need_full_release \<or> need_partial_release then do {
          (req, s) \<leftarrow> complete_and_transfer_release rc (ws_stop_io st) need_partial_release s;
          Some ([req], s)
        } else Some ([], s));
     (rc, s) \<leftarrow> (if ws_target_ended st then next_target sys ops need_new_alloc rc s else Some (rc, s));
     if need_new_alloc then do {
       req \<leftarrow> raid_writer_rebuilder_build_allocation_req s (ws_remain st);
       set_target_rc rc (reqs @ [req]) (s\<lparr>rp_need_alloc_to_write := True\<rparr>)
     }
     else set_target_rc rc reqs s
   }"

text \<open>The write itself, and what it reached.\<close>

definition write_and_check ::
  "'f raid_sys \<Rightarrow> 'f raid_ops \<Rightarrow> 'f raid_processor \<Rightarrow> (rc \<times> 'f raid_processor \<times> pho_req list) option" where
  "write_and_check sys ops s = do {
     w \<leftarrow> current_writer s;
     (rc, proc, ctx) \<leftarrow> op_write_from_buff ops (rp_proc s) (rt_ctx w);
     let s1 = (set_current_writer s (w\<lparr>rt_ctx := ctx\<rparr>))\<lparr>rp_proc := proc\<rparr>;
     let split_ended = size_sub (dp_writer_offset proc) (ric_current_split_offset ctx) \<ge> ric_current_split_size ctx;
     let target_ended = dp_writer_offset proc = dp_object_size proc;
     let last_target_ended = (target_ended \<and> dp_current_target proc + 1 = length (rp_targets s));
     (rc, remain) \<leftarrow> (if rc = 0 \<and> split_ended \<and> \<not> last_target_ended then xfer_remain_to_write_per_medium sys s1 else Some (rc, 0));
     need_alloc \<leftarrow>
       (if rc = 0 \<and> target_ended \<and> \<not> last_target_ended then do {
          (media, threshold) \<leftarrow> rp_write_resp s1;
          if ric_n_data_extents ctx > length media then None
          else Some (list_ex (\<lambda>m. we_avail_size m < remain) (take (ric_n_data_extents ctx) media))
        } else Some False);
     check_for_release sys ops rc
       \<lparr>ws_split_ended = split_ended, ws_target_ended = target_ended, ws_last_target_ended = last_target_ended,
        ws_need_alloc_for_next_target = need_alloc, ws_remain = remain, ws_stop_io = False\<rparr> s1
   }"

text \<open>After the responses were handled: stop if the target failed, write if there is a buffer.\<close>

definition write_stage :: "'f raid_sys \<Rightarrow> 'f raid_ops \<Rightarrow> 'f raid_processor \<Rightarrow> (rc \<times> 'f raid_processor \<times> pho_req list) option" where
  "write_stage sys ops s =
     (if target_rc (rp_proc s) \<noteq> 0 then check_for_release sys ops (target_rc (rp_proc s)) (no_write True) s
      else if dp_buff (rp_proc s) = [] then set_target_rc 0 [] s
      else write_and_check sys ops s)"

text \<open>A received allocation: set up the split, unless the target already failed.\<close>

definition start_split :: "'f raid_sys \<Rightarrow> 'f raid_ops \<Rightarrow> 'f raid_processor \<Rightarrow> (rc \<times> 'f raid_processor \<times> pho_req list) option" where
  "start_split sys ops s =
     (if target_rc (rp_proc s) \<noteq> 0 then check_for_release sys ops (target_rc (rp_proc s)) (no_write True) s
      else do {
        (rc, s) \<leftarrow> raid_writer_split_setup sys ops s;
        if rc \<noteq> 0 then check_for_release sys ops rc (no_write False) s else write_stage sys ops s
      })"

definition alloc_stage ::
  "'f raid_sys \<Rightarrow> 'f raid_ops \<Rightarrow> pho_resp \<Rightarrow> 'f raid_processor \<Rightarrow> (rc \<times> 'f raid_processor \<times> pho_req list) option" where
  "alloc_stage sys ops resp s = do {
     (rc, s) \<leftarrow> prepare_writer_rebuilder_release_request sys resp s;
     if rc \<noteq> 0 then set_target_rc rc [] s
     else (case resp of
         RespRelease _ True \<Rightarrow> write_stage sys ops s
       | _ \<Rightarrow> start_split sys ops (s\<lparr>rp_need_alloc_to_write := False\<rparr>))
   }"

definition raid_writer_processor_step ::
  "'f raid_sys \<Rightarrow> 'f raid_ops \<Rightarrow> pho_resp option \<Rightarrow> 'f raid_processor \<Rightarrow> (rc \<times> 'f raid_processor \<times> pho_req list) option" where
  "raid_writer_processor_step sys ops resp s =
     (case resp of
        None \<Rightarrow>
          if dp_buff (rp_proc s) = [] then do {
            (rc, remain) \<leftarrow> xfer_remain_to_write_per_medium sys s;
            if rc \<noteq> 0 then set_target_rc rc [] s
            else do {
              req \<leftarrow> raid_writer_rebuilder_build_allocation_req s remain;
              set_target_rc 0 [req] (s\<lparr>rp_need_alloc_to_write := True\<rparr>)
            }
          }
          else write_stage sys ops s
      | Some (RespError rc) \<Rightarrow> set_target_rc rc [] (s\<lparr>rp_proc := (rp_proc s)\<lparr>dp_xd_rc := rc, dp_done := True\<rparr>\<rparr>)
      | Some (RespRelease med_ids False) \<Rightarrow> do {
          (rc, s) \<leftarrow> raid_writer_handle_release_resp med_ids s;
          set_target_rc rc [] s
        }
      | Some (RespRelease med_ids True) \<Rightarrow> do {
          (rc, s) \<leftarrow> raid_writer_handle_partial_release_resp s;
          if rc \<noteq> 0 then set_target_rc rc [] s else alloc_stage sys ops (RespRelease med_ids True) s
        }
      | Some r \<Rightarrow> alloc_stage sys ops r s)"

end
