(* ===== verification/Raid1.thy ===== *)
theory Raid1
  imports Raid_Io
begin

text \<open>
  Input and output of the RAID1 layout (\<^verbatim>\<open>src/layout-modules/raid1/raid1.c\<close>): every extent of a split
  is a replica of its bytes.
\<close>

subsection \<open>The operations\<close>

definition raid1_read_into_buff :: "'f raid_env \<Rightarrow> data_processor \<Rightarrow> 'f raid_io_context \<Rightarrow> 'f raid_res" where
  "raid1_read_into_buff env proc ctx =
     (if ric_read_extents ctx = [] \<or> ric_iods ctx = [] \<or> ric_check_hash ctx \<and> ric_hashes ctx = [] then None
      else
        let buffer_data_size = size_sub (dp_reader_offset proc) (dp_buffer_offset proc);
            inside_split_offset = size_sub (dp_reader_offset proc) (ric_current_split_offset ctx);
            to_read = min (min (size_sub (dp_object_size proc) (dp_reader_offset proc))
                               (size_sub (ext_size (ric_read_extents ctx ! 0)) inside_split_offset))
                          (size_sub (length (dp_buff proc)) buffer_data_size)
        in read_chunk env 0 to_read proc ctx)"

text \<open>The loop on the replicas \<open>is\<close>.\<close>

fun write_replicas :: "'f raid_env \<Rightarrow> size_t \<Rightarrow> nat list \<Rightarrow> data_processor \<Rightarrow> 'f raid_io_context \<Rightarrow> 'f raid_res" where
  "write_replicas env to_write [] proc ctx = Some (0, proc, ctx)"
| "write_replicas env to_write (i # is) proc ctx =
     seq_res (if i < length (ric_iods ctx) \<and> i < length (ric_hashes ctx) then write_and_hash env proc ctx i to_write 0 else None)
       (write_replicas env to_write is)"

definition common_write_from_buff ::
  "'f raid_env \<Rightarrow> size_t \<Rightarrow> size_t \<Rightarrow> data_processor \<Rightarrow> 'f raid_io_context \<Rightarrow> 'f raid_res" where
  "common_write_from_buff env to_write n_extents proc ctx =
     seq_res (write_replicas env to_write [0..<n_extents] proc ctx)
       (\<lambda>p ctx.
          let p1 = p\<lparr>dp_writer_offset := size_add (dp_writer_offset p) to_write\<rparr> in
          Some (0, if dp_writer_offset p1 = dp_reader_offset p1 then p1\<lparr>dp_buffer_offset := dp_writer_offset p1\<rparr> else p1, ctx))"

definition raid1_write_from_buff :: "'f raid_env \<Rightarrow> data_processor \<Rightarrow> 'f raid_io_context \<Rightarrow> 'f raid_res" where
  "raid1_write_from_buff env proc ctx =
     (if ric_out_extents ctx = [] then None
      else
        let inside_split_offset = size_sub (dp_writer_offset proc) (ric_current_split_offset ctx);
            repl_count = ric_n_data_extents ctx + ric_n_parity_extents ctx;
            to_write = min (size_sub (ext_size (ric_out_extents ctx ! 0)) inside_split_offset)
                           (size_sub (dp_reader_offset proc) (dp_writer_offset proc))
        in seq_res (common_write_from_buff env to_write repl_count proc ctx)
             (\<lambda>p ctx. Some (0, p, if dp_writer_offset p \<ge> dp_object_size p then ctx\<lparr>ric_all_is_written := True\<rparr> else ctx)))"

definition raid1_rebuild_from_buff :: "'f raid_env \<Rightarrow> data_processor \<Rightarrow> 'f raid_io_context \<Rightarrow> 'f raid_res" where
  "raid1_rebuild_from_buff env proc ctx =
     common_write_from_buff env (size_sub (dp_reader_offset proc) (dp_writer_offset proc)) (ric_missing_count ctx) proc ctx"

subsection \<open>Writing\<close>

lemma offsets_advance:
  assumes "offsets_order D proc" "pending D proc" "dp_writer_offset proc + n \<le> dp_reader_offset proc"
    "p = proc\<lparr>dp_writer_offset := dp_writer_offset proc + n\<rparr>"
    "q = (if dp_writer_offset p = dp_reader_offset p then p\<lparr>dp_buffer_offset := dp_writer_offset p\<rparr> else p)"
  shows "offsets_order D q \<and> pending D q"
proof (cases "dp_writer_offset p = dp_reader_offset p")
  case True
  then show ?thesis using assms by (auto simp: offsets_order_def pending_def)
next
  case False
  then have "pending D p"
    using pending_advance [OF assms(2), of n "dp_buff proc"] assms by (simp add: offsets_order_def)
  then show ?thesis using assms False by (auto simp: offsets_order_def)
qed

context raid_adapter
begin

text \<open>The replicas before \<open>k\<close> have received the bytes, the others not yet.\<close>

lemma write_replicas_spec:
  assumes "k \<le> n" "extents_are written writable ctx (replicate k (X @ bs) @ replicate (n - k) X)" "ctx_frame ctx0 ctx"
    and bs: "bs = take m (drop (dp_writer_offset proc - dp_buffer_offset proc) (dp_buff proc))"
    and order: "dp_buffer_offset proc \<le> dp_writer_offset proc"
    and fits: "dp_writer_offset proc - dp_buffer_offset proc + m \<le> length (dp_buff proc)" and small: "length X + m < size_max"
  shows "\<exists>rc p ctx'. write_replicas env m [k..<n] proc ctx = Some (rc, p, ctx') \<and> rc \<le> 0 \<and>
     (rc = 0 \<longrightarrow> p = proc \<and> ctx_frame ctx0 ctx' \<and> extents_are written writable ctx' (replicate n (X @ bs)))"
  using assms(1-3)
proof (induction "n - k" arbitrary: k ctx)
  case 0
  then show ?case by simp
next
  case (Suc j)
  then have k: "k < n" by simp
  let ?Xs = "replicate k (X @ bs) @ replicate (n - k) X"
  have lens: "k < length (ric_iods ctx)" "k < length (ric_hashes ctx)" using Suc.prems(2) k by (simp_all add: extents_are_def)
  have Xk: "?Xs ! k = X" using k by (simp add: nth_append)
  have upd: "?Xs[k := X @ bs] = replicate (Suc k) (X @ bs) @ replicate (n - Suc k) X"
  proof -
    have "n - k = Suc (n - Suc k)" using k by simp
    then show ?thesis by (simp only: list_update_append replicate_Suc) (simp add: replicate_app_Cons_same)
  qed
  have step: "\<exists>rc p c. write_and_hash env proc ctx k m 0 = Some (rc, p, c) \<and> rc \<le> 0 \<and>
     (rc = 0 \<longrightarrow> p = proc \<and> ctx_frame ctx c \<and> extents_are written writable c (replicate (Suc k) (X @ bs) @ replicate (n - Suc k) X))"
    using write_and_hash_spec [OF Suc.prems(2), of k proc 0 m, unfolded Xk add_0_right, folded bs, unfolded upd] k order fits small
    by (simp del: replicate_Suc)
  have run: "write_replicas env m [k..<n] proc ctx = seq_res (write_and_hash env proc ctx k m 0) (write_replicas env m [Suc k..<n])"
    using lens k by (simp add: upt_conv_Cons)
  show ?case
    unfolding run
  proof (rule seq_res_bind [OF step])
    fix p c
    assume p: "p = proc \<and> ctx_frame ctx c \<and> extents_are written writable c (replicate (Suc k) (X @ bs) @ replicate (n - Suc k) X)"
    have "\<exists>rc p' k'. write_replicas env m [Suc k..<n] proc c = Some (rc, p', k') \<and> rc \<le> 0 \<and>
      (rc = 0 \<longrightarrow> p' = proc \<and> ctx_frame ctx0 k' \<and> extents_are written writable k' (replicate n (X @ bs)))"
    proof (rule Suc.hyps(1))
      show "ctx_frame ctx0 c" using p ctx_frame_trans [OF Suc.prems(3)] by blast
    qed (use Suc.hyps(2) k p in auto)
    then show "\<exists>rc p' k'. write_replicas env m [Suc k..<n] p c = Some (rc, p', k') \<and> rc \<le> 0 \<and>
      (rc = 0 \<longrightarrow> p' = proc \<and> ctx_frame ctx0 k' \<and> extents_are written writable k' (replicate n (X @ bs)))"
      using p by simp
  qed
qed

lemma common_write_spec:
  assumes inv: "offsets_order D proc" "pending D proc" and m: "dp_writer_offset proc + m \<le> dp_reader_offset proc"
    and ext: "extents_are written writable ctx (replicate n X)" and small: "length X + m < size_max"
  shows "\<exists>rc p ctx'. common_write_from_buff env m n proc ctx = Some (rc, p, ctx') \<and> rc \<le> 0 \<and>
     (rc = 0 \<longrightarrow> offsets_order D p \<and> pending D p \<and> dp_writer_offset p = dp_writer_offset proc + m \<and> dp_reader_offset p = dp_reader_offset proc \<and>
        dp_object_size p = dp_object_size proc \<and> ctx_frame ctx ctx' \<and>
        extents_are written writable ctx' (replicate n (X @ take m (drop (dp_writer_offset proc) D))))"
proof -
  have order: "dp_buffer_offset proc \<le> dp_writer_offset proc" "dp_reader_offset proc < size_max"
    "dp_writer_offset proc - dp_buffer_offset proc + m \<le> length (dp_buff proc)"
    using inv(1) m by (auto simp: offsets_order_def)
  have bs: "take m (drop (dp_writer_offset proc) D) = take m (drop (dp_writer_offset proc - dp_buffer_offset proc) (dp_buff proc))"
    using pending_take [OF inv(2), of m] m by simp
  have reps: "\<exists>rc p ctx'. write_replicas env m [0..<n] proc ctx = Some (rc, p, ctx') \<and> rc \<le> 0 \<and>
     (rc = 0 \<longrightarrow> p = proc \<and> ctx_frame ctx ctx' \<and>
       extents_are written writable ctx' (replicate n (X @ take m (drop (dp_writer_offset proc) D))))"
    by (rule write_replicas_spec [where X = X, OF _ _ ctx_frame_refl bs order(1,3) small]) (use ext in simp_all)
  show ?thesis
    unfolding common_write_from_buff_def
  proof (rule seq_res_bind [OF reps])
    fix p k
    assume p: "p = proc \<and> ctx_frame ctx k \<and> extents_are written writable k (replicate n (X @ take m (drop (dp_writer_offset proc) D)))"
    have w: "size_add (dp_writer_offset proc) m = dp_writer_offset proc + m" using order(2) m by (simp add: size_add_exact)
    let ?q = "let p1 = p\<lparr>dp_writer_offset := size_add (dp_writer_offset p) m\<rparr> in
      if dp_writer_offset p1 = dp_reader_offset p1 then p1\<lparr>dp_buffer_offset := dp_writer_offset p1\<rparr> else p1"
    have "offsets_order D ?q" "pending D ?q" using offsets_advance [OF inv m refl refl] p w by (simp_all add: Let_def)
    moreover have "dp_writer_offset ?q = dp_writer_offset proc + m" "dp_reader_offset ?q = dp_reader_offset proc"
      "dp_object_size ?q = dp_object_size proc" using p w by (auto simp: Let_def)
    ultimately show "\<exists>rc p' k'. (let p1 = p\<lparr>dp_writer_offset := size_add (dp_writer_offset p) m\<rparr> in
          Some (0 :: int, if dp_writer_offset p1 = dp_reader_offset p1 then p1\<lparr>dp_buffer_offset := dp_writer_offset p1\<rparr> else p1, k))
          = Some (rc, p', k') \<and> rc \<le> 0 \<and>
        (rc = 0 \<longrightarrow> offsets_order D p' \<and> pending D p' \<and> dp_writer_offset p' = dp_writer_offset proc + m \<and> dp_reader_offset p' = dp_reader_offset proc \<and>
        dp_object_size p' = dp_object_size proc \<and> ctx_frame ctx k' \<and>
        extents_are written writable k' (replicate n (X @ take m (drop (dp_writer_offset proc) D))))"
      using p by (simp add: Let_def)
  qed
qed

end

text \<open>The state of a RAID1 writer inside a split: every replica holds the bytes of the split written so far.\<close>

definition r1_writer_inv ::
  "('f \<Rightarrow> byte list) \<Rightarrow> ('f \<Rightarrow> bool) \<Rightarrow> byte list \<Rightarrow> data_processor \<Rightarrow> 'f raid_io_context \<Rightarrow> bool" where
  "r1_writer_inv written writable D proc ctx \<longleftrightarrow>
     (let off = ric_current_split_offset ctx; L = ric_current_split_size ctx; w = dp_writer_offset proc in
      offsets_order D proc \<and> pending D proc \<and> off + L \<le> length D \<and> off \<le> w \<and> w \<le> off + L \<and>
      ric_out_extents ctx \<noteq> [] \<and> ext_size (ric_out_extents ctx ! 0) = L \<and>
      extents_are written writable ctx (replicate (n_total_extents ctx) (take (w - off) (drop off D))))"

context raid_adapter
begin

lemma r1_write_step:
  assumes inv: "r1_writer_inv written writable D proc ctx"
  shows "\<exists>rc p ctx'. raid1_write_from_buff env proc ctx = Some (rc, p, ctx') \<and> rc \<le> 0 \<and>
     (rc = 0 \<longrightarrow> r1_writer_inv written writable D p ctx' \<and>
        dp_writer_offset p = min (ric_current_split_offset ctx + ric_current_split_size ctx) (dp_reader_offset proc) \<and>
        dp_reader_offset p = dp_reader_offset proc \<and>
        (dp_writer_offset p = length D \<longrightarrow> ric_all_is_written ctx'))"
proof -
  define off L w where "off = ric_current_split_offset ctx" and "L = ric_current_split_size ctx" and "w = dp_writer_offset proc"
  define m where "m = min (off + L - w) (dp_reader_offset proc - w)"
  have J: "pending D proc" and I: "offsets_order D proc" "off + L \<le> length D" "off \<le> w" "w \<le> off + L" "ric_out_extents ctx \<noteq> []"
    "ext_size (ric_out_extents ctx ! 0) = L"
    "extents_are written writable ctx (replicate (n_total_extents ctx) (take (w - off) (drop off D)))"
    using inv by (simp_all add: r1_writer_inv_def Let_def off_def L_def w_def)
  have O: "w \<le> dp_reader_offset proc" "dp_object_size proc = length D" "length D < size_max"
    using I(1) by (simp_all add: offsets_order_def w_def)
  have "min (size_sub L (size_sub w off)) (size_sub (dp_reader_offset proc) w) = m"
    using I(3,4) O(1) by (simp add: size_sub_exact m_def)
  then have run: "raid1_write_from_buff env proc ctx =
     seq_res (common_write_from_buff env m (n_total_extents ctx) proc ctx)
       (\<lambda>p ctx. Some (0, p, if dp_writer_offset p \<ge> dp_object_size p then ctx\<lparr>ric_all_is_written := True\<rparr> else ctx))"
    using I(5,6) by (simp add: raid1_write_from_buff_def n_total_extents_def Let_def off_def w_def)
  have m: "dp_writer_offset proc + m \<le> dp_reader_offset proc" using O(1) by (simp add: m_def w_def)
  have small: "length (take (w - off) (drop off D)) + m < size_max" using I(2,3,4) O(3) by (simp add: m_def)
  show ?thesis
    unfolding run
  proof (rule seq_res_bind [OF common_write_spec [OF I(1) J m I(7) small]])
    fix p k
    assume p: "offsets_order D p \<and> pending D p \<and> dp_writer_offset p = dp_writer_offset proc + m \<and> dp_reader_offset p = dp_reader_offset proc \<and>
        dp_object_size p = dp_object_size proc \<and> ctx_frame ctx k \<and>
        extents_are written writable k (replicate (n_total_extents ctx) (take (w - off) (drop off D) @ take m (drop (dp_writer_offset proc) D)))"
    define K where "K = (if dp_writer_offset p \<ge> dp_object_size p then k\<lparr>ric_all_is_written := True\<rparr> else k)"
    have pw: "offsets_order D p \<and> pending D p" "dp_writer_offset p = w + m" "dp_reader_offset p = dp_reader_offset proc" "dp_object_size p = length D"
      "ctx_frame ctx k" using p O(2) by (simp_all add: w_def)
    have sofar: "take (w - off) (drop off D) @ take m (drop w D) = take (w + m - off) (drop off D)"
      using I(3) take_add_drop [of "w - off" off D m] by simp
    have fields: "ric_current_split_offset K = off" "ric_current_split_size K = L" "ric_out_extents K = ric_out_extents ctx"
      "n_total_extents K = n_total_extents ctx"
      using ctx_frame_fields [OF pw(5)] by (auto simp: K_def off_def L_def n_total_extents_def)
    have "extents_are written writable k (replicate (n_total_extents ctx) (take (w + m - off) (drop off D)))"
      using p unfolding w_def [symmetric] sofar by blast
    then have "extents_are written writable K (replicate (n_total_extents ctx) (take (w + m - off) (drop off D)))"
      by (simp add: extents_are_def K_def)
    moreover have wm: "w + m \<le> off + L" "w + m = min (off + L) (dp_reader_offset proc)" using I(4) O(1) by (simp_all add: m_def)
    ultimately have "r1_writer_inv written writable D p K"
      using pw(1) I(2,3,5,6) by (simp add: r1_writer_inv_def Let_def fields pw(2))
    then show "\<exists>rc p' k'. Some (0 :: int, p, if dp_writer_offset p \<ge> dp_object_size p then k\<lparr>ric_all_is_written := True\<rparr> else k)
          = Some (rc, p', k') \<and> rc \<le> 0 \<and>
        (rc = 0 \<longrightarrow> r1_writer_inv written writable D p' k' \<and>
        dp_writer_offset p' = min (ric_current_split_offset ctx + ric_current_split_size ctx) (dp_reader_offset proc) \<and>
        dp_reader_offset p' = dp_reader_offset proc \<and> (dp_writer_offset p' = length D \<longrightarrow> ric_all_is_written k'))"
      unfolding K_def [symmetric] off_def [symmetric] L_def [symmetric] wm(2) [symmetric]
      using pw by (simp add: K_def)
  qed
qed

end

subsection \<open>Reading\<close>

text \<open>The replica being read holds \<open>C @ U\<close>, of which \<open>C\<close> was read.\<close>

definition r1_reading ::
  "('f \<Rightarrow> byte list) \<Rightarrow> ('f \<Rightarrow> bool) \<Rightarrow> data_processor \<Rightarrow> 'f raid_io_context \<Rightarrow> byte list \<Rightarrow> byte list \<Rightarrow> bool" where
  "r1_reading unread readable proc ctx C U \<longleftrightarrow>
     extents_left unread readable ctx [U] [C] \<and> ric_read_extents ctx \<noteq> [] \<and>
     ext_size (ric_read_extents ctx ! 0) = length C + length U \<and>
     dp_reader_offset proc = ric_current_split_offset ctx + length C \<and> dp_buffer_offset proc \<le> dp_reader_offset proc \<and>
     dp_reader_offset proc + length U \<le> dp_object_size proc \<and> dp_object_size proc < size_max \<and>
     dp_reader_offset proc - dp_buffer_offset proc \<le> length (dp_buff proc) \<and> length (dp_buff proc) < size_max"

context raid_adapter
begin

lemma r1_read_step:
  assumes rd: "r1_reading unread readable proc ctx C U"
    and pos: "pos = dp_reader_offset proc - dp_buffer_offset proc" and k: "k = min (length U) (length (dp_buff proc) - pos)"
  shows "\<exists>rc p ctx'. raid1_read_into_buff env proc ctx = Some (rc, p, ctx') \<and> rc \<le> 0 \<and>
     (rc = 0 \<longrightarrow> r1_reading unread readable p ctx' (C @ take k U) (drop k U) \<and> dp_reader_offset p = dp_reader_offset proc + k \<and>
        dp_buff p = buff_with (dp_buff proc) pos (take k U))"
proof -
  have R: "extents_left unread readable ctx [U] [C]" "ric_read_extents ctx \<noteq> []" "ext_size (ric_read_extents ctx ! 0) = length C + length U"
    "dp_reader_offset proc = ric_current_split_offset ctx + length C" "dp_buffer_offset proc \<le> dp_reader_offset proc"
    "dp_reader_offset proc + length U \<le> dp_object_size proc" "dp_object_size proc < size_max"
    "pos \<le> length (dp_buff proc)" "length (dp_buff proc) < size_max"
    using rd unfolding r1_reading_def pos by blast+
  have "ric_iods ctx \<noteq> [] \<and> \<not> (ric_check_hash ctx \<and> ric_hashes ctx = [])" using R(1) by (auto simp: extents_left_def)
  moreover have "min (min (size_sub (dp_object_size proc) (dp_reader_offset proc))
        (size_sub (length C + length U) (size_sub (dp_reader_offset proc) (ric_current_split_offset ctx))))
      (size_sub (length (dp_buff proc)) (size_sub (dp_reader_offset proc) (dp_buffer_offset proc))) = k"
    using R pos k by (simp add: size_sub_exact)
  ultimately have run: "raid1_read_into_buff env proc ctx = read_chunk env 0 k proc ctx"
    using R(2,3) by (auto simp: raid1_read_into_buff_def Let_def)
  have "\<exists>rc p ctx'. read_chunk env 0 k proc ctx = Some (rc, p, ctx') \<and> rc \<le> 0 \<and>
     (rc = 0 \<longrightarrow> k \<le> length U \<and> ctx_frame ctx ctx' \<and>
        p = proc\<lparr>dp_buff := buff_with (dp_buff proc) pos (take k U), dp_reader_offset := dp_reader_offset proc + k\<rparr> \<and>
        extents_left unread readable ctx' [drop k U] [C @ take k U])"
    using read_chunk_spec [OF R(1) _ R(5) pos _ _ _ ctx_frame_refl, of 0 k] R k by simp
  then obtain rc p ctx' where r: "read_chunk env 0 k proc ctx = Some (rc, p, ctx')" "rc \<le> 0"
    and ok: "rc = 0 \<Longrightarrow> k \<le> length U \<and> ctx_frame ctx ctx' \<and>
        p = proc\<lparr>dp_buff := buff_with (dp_buff proc) pos (take k U), dp_reader_offset := dp_reader_offset proc + k\<rparr> \<and>
        extents_left unread readable ctx' [drop k U] [C @ take k U]"
    by blast
  have "r1_reading unread readable p ctx' (C @ take k U) (drop k U)" if "rc = 0"
    using ok [OF that] R k pos ctx_frame_fields [of ctx ctx'] by (simp add: r1_reading_def)
  then show ?thesis using run r ok by simp
qed

end

text \<open>
  C7. Inside a split, one call of the RAID1 writer always returns; when it succeeds, each of the
  replicas, and its hash, has received exactly the bytes of the split up to the new offset of the
  writer, which is the offset of the reader or the end of the split.
\<close>

theorem raid1_write_keeps_replicas:
  assumes "r1_writer_inv fd_data posix_writable D proc ctx"
  shows "\<exists>rc p ctx'. raid1_write_from_buff (posix_env md5 xxh128 hash_fails) proc ctx = Some (rc, p, ctx') \<and> rc \<le> 0 \<and>
     (rc = 0 \<longrightarrow> r1_writer_inv fd_data posix_writable D p ctx' \<and>
        dp_writer_offset p = min (ric_current_split_offset ctx + ric_current_split_size ctx) (dp_reader_offset proc) \<and>
        dp_reader_offset p = dp_reader_offset proc \<and>
        (dp_writer_offset p = length D \<longrightarrow> ric_all_is_written ctx'))"
  by (rule posix_raid.r1_write_step [OF assms])

text \<open>
  C6. A split that the RAID1 writer completed is read back from any of its replicas: each call of
  the reader gives the next bytes of the split.
\<close>

theorem raid1_round_trip:
  assumes "r1_writer_inv fd_data posix_writable D wproc wctx"
    and "raid1_write_from_buff (posix_env md5 xxh128 hash_fails) wproc wctx = Some (0, wproc', wctx')"
    and "dp_writer_offset wproc' = ric_current_split_offset wctx' + ric_current_split_size wctx'"
    and "S = take (ric_current_split_size wctx') (drop (ric_current_split_offset wctx') D)"
    and "i < n_total_extents wctx'" and "fd_data (iod_ctx (ric_iods wctx' ! i)) = C @ U"
    and "r1_reading posix_unread posix_readable proc ctx C U"
    and "pos = dp_reader_offset proc - dp_buffer_offset proc" and "k = min (length U) (length (dp_buff proc) - pos)"
  shows "C @ U = S \<and> (\<exists>rc p ctx'. raid1_read_into_buff (posix_env md5 xxh128 hash_fails) proc ctx = Some (rc, p, ctx') \<and> rc \<le> 0 \<and>
     (rc = 0 \<longrightarrow> r1_reading posix_unread posix_readable p ctx' (take (length C + k) S) (drop (length C + k) S) \<and>
        dp_buff p = buff_with (dp_buff proc) pos (take k (drop (length C) S))))"
proof -
  have w: "r1_writer_inv fd_data posix_writable D wproc' wctx'"
    using posix_raid.r1_write_step [OF assms(1), of md5 xxh128 hash_fails] assms(2) by simp
  have S: "C @ U = S"
    using w assms(3-6) by (auto simp: r1_writer_inv_def extents_are_def Let_def)
  then have "take (length C + k) S = C @ take k U" "drop (length C + k) S = drop k U" "drop (length C) S = U"
    by auto
  with S show ?thesis
    using posix_raid.r1_read_step [OF assms(7-9), of md5 xxh128 hash_fails] by auto
qed

lemmas r1_defs = sample_base seq_res_def Let_def size_sub_def size_add_def size_max_def buf_get_def buf_put_def
  extent_hash_update_def data_processor_write_from_buff_def

lemma sample_r1_inv:
  "r1_writer_inv fd_data posix_writable [10, 20] (sample_proc [10, 20] 2 2)
     ((sample_ctx [[], []] [sample_extent 0 2, sample_extent 1 2] 1 2)\<lparr>ric_n_data_extents := 1\<rparr>)"
  by (simp add: r1_writer_inv_def sample_base offsets_order_def pending_def n_total_extents_def extents_are_def
      posix_writable_def hash_fed_def size_max_def All_less_Suc)

lemma sample_r1_write:
  "map_option (\<lambda>(rc, p, ctx). (rc, dp_writer_offset p, map (\<lambda>d. fd_data (iod_ctx d)) (ric_iods ctx),
       ric_current_split_offset ctx, ric_current_split_size ctx, n_total_extents ctx))
     (raid1_write_from_buff sample_env (sample_proc [10, 20] 2 2)
        ((sample_ctx [[], []] [sample_extent 0 2, sample_extent 1 2] 1 2)\<lparr>ric_n_data_extents := 1\<rparr>)) =
   Some (0, 2, [[10, 20], [10, 20]], 0, 2, 2)"
  by (simp add: raid1_write_from_buff_def common_write_from_buff_def write_and_hash_def n_total_extents_def upt_rec r1_defs)

theorem raid1_write_keeps_replicas_witness:
  "\<exists>p ctx'. raid1_write_from_buff sample_env (sample_proc [10, 20] 2 2)
        ((sample_ctx [[], []] [sample_extent 0 2, sample_extent 1 2] 1 2)\<lparr>ric_n_data_extents := 1\<rparr>) = Some (0, p, ctx') \<and>
     r1_writer_inv fd_data posix_writable [10, 20] p ctx'"
  using raid1_write_keeps_replicas [OF sample_r1_inv, of rev id "\<lambda>_. False", folded sample_env_def] sample_r1_write
  by (elim exE conjE) simp

lemma sample_r1_reading:
  "r1_reading posix_unread posix_readable (sample_proc [0, 0] 2 0)
     (sample_ctx [[10, 20]] [sample_extent 1 2] 1 2) [] [10, 20]"
  by (simp add: r1_reading_def sample_base extents_left_def posix_readable_def posix_unread_def hash_fed_def size_max_def)

theorem raid1_round_trip_witness:
  "\<exists>rc p ctx'. raid1_read_into_buff sample_env (sample_proc [0, 0] 2 0) (sample_ctx [[10, 20]] [sample_extent 1 2] 1 2)
     = Some (rc, p, ctx') \<and> (rc = 0 \<longrightarrow> dp_buff p = [10, 20])"
proof -
  obtain wproc' wctx' where w: "raid1_write_from_buff sample_env (sample_proc [10, 20] 2 2)
        ((sample_ctx [[], []] [sample_extent 0 2, sample_extent 1 2] 1 2)\<lparr>ric_n_data_extents := 1\<rparr>) = Some (0, wproc', wctx')"
      "dp_writer_offset wproc' = 2" "map (\<lambda>d. fd_data (iod_ctx d)) (ric_iods wctx') = [[10, 20], [10, 20]]"
      "ric_current_split_offset wctx' = 0" "ric_current_split_size wctx' = 2" "n_total_extents wctx' = 2"
    using sample_r1_write by auto
  have x: "length (ric_iods wctx') = 2" using arg_cong [OF w(3), of length] by simp
  have x1: "fd_data (iod_ctx (ric_iods wctx' ! 1)) = [] @ [10, 20]" using arg_cong [OF w(3), of "\<lambda>l. l ! 1"] x by simp
  have "[] @ [10, 20] = [10, 20 :: byte] \<and> (\<exists>rc p ctx'. raid1_read_into_buff sample_env (sample_proc [0, 0] 2 0)
      (sample_ctx [[10, 20]] [sample_extent 1 2] 1 2) = Some (rc, p, ctx') \<and> rc \<le> 0 \<and>
     (rc = 0 \<longrightarrow> r1_reading posix_unread posix_readable p ctx' (take (length ([] :: byte list) + 2) [10, 20])
          (drop (length ([] :: byte list) + 2) [10, 20]) \<and>
        dp_buff p = buff_with (dp_buff (sample_proc [0, 0] 2 0)) 0 (take 2 (drop (length ([] :: byte list)) [10, 20]))))"
    unfolding sample_env_def
    by (rule raid1_round_trip [OF sample_r1_inv w(1) [unfolded sample_env_def] _ _ _ x1 sample_r1_reading])
      (simp_all add: w sample_proc_def)
  then show ?thesis by (elim exE conjE) (auto simp: buff_with_def sample_proc_def)
qed

end
