(* ===== verification/Raid_Ops.thy ===== *)
theory Raid_Ops
  imports Raid_Proc Raid1 Raid4_Writer Raid4_Reader
begin

text \<open>
  The operations that the RAID1 and RAID4 modules give to the common code
  (\<^verbatim>\<open>src/layout-modules/raid1/raid1.c\<close>, \<^verbatim>\<open>src/layout-modules/raid4/raid4.c\<close> and
  \<^verbatim>\<open>src/layout-modules/raid4/write.c\<close>), with the attributes they set on a new split.
\<close>

definition raid1_get_reader_chunk_size :: "layout_info \<Rightarrow> size_t \<Rightarrow> (rc \<times> size_t) option" where
  "raid1_get_reader_chunk_size lyt block_size = Some (0, block_size)"

definition raid1_extra_attrs :: "processor_type \<Rightarrow> 'f raid_io_context \<Rightarrow> (rc \<times> 'f raid_io_context) option" where
  "raid1_extra_attrs ty ctx =
     (let n = get_n_extents ctx ty; repl_count = int (n_total_extents ctx) in
      if n > length (ric_out_extents ctx) \<or> n > length (ric_iods ctx) then None
      else Some (0, ctx\<lparr>ric_iods :=
        map (\<lambda>(e, iod). iod\<lparr>iod_attrs := set_layout_specific_md (ext_layout_idx e) (c_int repl_count) (iod_attrs iod)\<rparr>)
          (zip (take n (ric_out_extents ctx)) (ric_iods ctx)) @ drop n (ric_iods ctx)\<rparr>))"

definition set_raid4_md :: "processor_type \<Rightarrow> size_t \<Rightarrow> 'f raid_io_context \<Rightarrow> (rc \<times> 'f raid_io_context) option" where
  "set_raid4_md ty chunk_size ctx =
     (let n = get_n_extents ctx ty;
          upd = map (\<lambda>(e, iod). (set_extent_extra_attrs chunk_size e (iod_attrs iod), iod)) (zip (take n (ric_out_extents ctx)) (ric_iods ctx))
      in if n > length (ric_out_extents ctx) \<or> n > length (ric_iods ctx) then None
         else Some (0, ctx\<lparr>ric_out_extents := map (\<lambda>((e, attrs), iod). e) upd @ drop n (ric_out_extents ctx),
                           ric_iods := map (\<lambda>((e, attrs), iod). iod\<lparr>iod_attrs := attrs\<rparr>) upd @ drop n (ric_iods ctx)\<rparr>))"

definition raid4_extra_attrs :: "processor_type \<Rightarrow> 'f raid_io_context \<Rightarrow> (rc \<times> 'f raid_io_context) option" where
  "raid4_extra_attrs ty ctx = set_raid4_md ty (ric_current_split_chunk_size ctx) ctx"

definition RAID1_OPS :: "'f raid_env \<Rightarrow> 'f raid_ops" where
  "RAID1_OPS env =
     \<lparr>op_get_reader_chunk_size = raid1_get_reader_chunk_size, op_read_into_buff = raid1_read_into_buff env,
      op_write_from_buff = raid1_write_from_buff env, op_rebuild_from_buff = raid1_rebuild_from_buff env,
      op_set_extra_attrs = raid1_extra_attrs\<rparr>"

definition RAID4_OPS :: "'f raid_env \<Rightarrow> 'f raid_ops" where
  "RAID4_OPS env =
     \<lparr>op_get_reader_chunk_size = (\<lambda>lyt _. raid4_get_reader_chunk_size lyt), op_read_into_buff = raid4_read_into_buff env,
      op_write_from_buff = raid4_write_from_buff env, op_rebuild_from_buff = raid4_rebuild_from_buff env,
      op_set_extra_attrs = raid4_extra_attrs\<rparr>"

definition sample_sys :: "posix_fd raid_sys" where
  "sample_sys =
     \<lparr>sys_env = sample_env, sys_get_io_adapter = (\<lambda>fs. if fs = PHO_FS_POSIX then 0 else - EINVAL),
      sys_open = (\<lambda>n objid loc is_put. (0, sample_fd (\<lambda>_. OsFull) [] 0)), sys_close = (\<lambda>n f. 0), sys_set_md = (\<lambda>n attrs f. 0),
      sys_del = (\<lambda>n loc. 0), sys_size = (\<lambda>f. int (length (fd_data f))), sys_preferred_io_size = (\<lambda>f. 2), sys_page_size = 4096,
      sys_clock_gettime = (\<lambda>n. (0, \<lparr>tv_sec = int n, tv_nsec = 0\<rparr>)), sys_gettimeofday = (\<lambda>n. 0), sys_uuid = nat2str,
      sys_fs_block_size = (\<lambda>_. (0, 0)), sys_utf8 = (\<lambda>_. True), sys_json_dumps = (\<lambda>_. Some ''{}''),
      sys_json_loads = (\<lambda>_. Some (JObj [])),
      sys_dup_fd = (\<lambda>n fd. (0, sample_fd (\<lambda>_. OsFull) [] 0)), sys_io_block_size = (\<lambda>_. (0, 0)), sys_closed = sample_fd (\<lambda>_. OsFull) [] 0\<rparr>"

end
