(* ===== verification/Raid_Accounting.thy ===== *)
theory Raid_Accounting
  imports Raid_Writer Raid_Ops
begin

text \<open>
  The accounting of the RAID writer: between two steps, every written extent of a target has been
  released or is counted in the media that are still to be released, and a target only gets its
  layout when all of them were.
\<close>

subsection \<open>The invariant\<close>

definition refs_total :: "(pho_id \<times> size_t) list \<Rightarrow> nat" where
  "refs_total refs = sum_list (map snd refs)"

text \<open>The part of a target that the accounting is about.\<close>

definition acct :: "'f raid_target \<Rightarrow> extent list option \<times> (pho_id \<times> size_t) list \<times> size_t \<times> bool" where
  "acct w = (rt_written_extents w, rt_to_release_media w, rt_n_released_media w, rt_released w)"

definition acct_ok :: "extent list option \<times> (pho_id \<times> size_t) list \<times> size_t \<times> bool \<Rightarrow> bool" where
  "acct_ok a = (case a of (written, refs, n_released, released) \<Rightarrow>
     distinct (map fst refs) \<and> (\<forall>r \<in> set refs. 0 < snd r) \<and> (released \<longleftrightarrow> written = None) \<and>
     (\<forall>es. written = Some es \<longrightarrow> refs_total refs + n_released = length es))"

definition acct_inv :: "'f raid_processor \<Rightarrow> bool" where
  "acct_inv s \<longleftrightarrow> (\<forall>w \<in> set (rp_writers s). acct_ok (acct w))"

text \<open>The extents of a target can be counted.\<close>

definition few_extents :: "'f raid_processor \<Rightarrow> bool" where
  "few_extents s \<longleftrightarrow> (\<forall>w \<in> set (rp_writers s). \<forall>es. rt_written_extents w = Some es \<longrightarrow> length es < size_max)"

lemma refs_total_update:
  assumes "distinct (map fst refs)"
  shows "refs_total (AList.update m n refs) + (case map_of refs m of None \<Rightarrow> 0 | Some k \<Rightarrow> k) = refs_total refs + n"
  using assms by (induction refs) (auto simp: refs_total_def dest: weak_map_of_SomeI split: option.splits)

lemma refs_total_delete:
  assumes "distinct (map fst refs)" "map_of refs m = Some n"
  shows "refs_total (AList.delete m refs) + n = refs_total refs"
  using assms
proof (induction refs)
  case (Cons r refs)
  then show ?case
    by (cases "fst r = m") (auto simp: refs_total_def AList.delete_eq filter_id_conv image_iff case_prod_beta
        intro!: arg_cong [where f = sum_list] filter_True split: if_splits)
qed simp

lemma set_AList_update: "set (AList.update k v refs) \<subseteq> insert (k, v) (set refs)"
  by (induction refs) auto

lemma refcount_le: "map_of refs m = Some n \<Longrightarrow> n \<le> refs_total refs"
  by (induction refs) (auto simp: refs_total_def split: if_splits)

lemma refs_total_0: "\<forall>r \<in> set refs. 0 < snd r \<Longrightarrow> refs_total refs = 0 \<longleftrightarrow> refs = []"
  by (cases refs) (auto simp: refs_total_def)

lemma add_written_list:
  "raid_io_add_written_extent e w = Some w' \<Longrightarrow> \<exists>es. rt_written_extents w = Some es \<and> rt_written_extents w' = Some (es @ [e])"
  by (auto simp: raid_io_add_written_extent_def Let_def elim!: bind_SomeE)

lemma add_written_acct:
  assumes "acct_ok (acct w)" "raid_io_add_written_extent e w = Some w'" "\<And>es. rt_written_extents w = Some es \<Longrightarrow> length es + 1 < size_max"
  shows "acct_ok (acct w') \<and> rt_ctx w' = rt_ctx w \<and> (\<exists>es. rt_written_extents w = Some es \<and> rt_written_extents w' = Some (es @ [e]))"
proof -
  let ?refs = "rt_to_release_media w" and ?m = "ext_media e"
  obtain es where es: "rt_written_extents w = Some es" using assms(2) by (auto simp: raid_io_add_written_extent_def split: bind_splits)
  define n where "n = (case map_of ?refs ?m of None \<Rightarrow> 0 | Some n \<Rightarrow> n)"
  have A: "distinct (map fst ?refs)" "\<forall>r \<in> set ?refs. 0 < snd r" "\<not> rt_released w" "refs_total ?refs + rt_n_released_media w = length es"
    using assms(1) es by (auto simp: acct_ok_def acct_def)
  have "n \<le> refs_total ?refs" by (auto simp: n_def refcount_le split: option.splits)
  then have n: "size_add n 1 = n + 1" using A(4) assms(3) [OF es] by (simp add: size_add_exact)
  have w': "w' = w\<lparr>rt_written_extents := Some (es @ [e]), rt_to_release_media := AList.update ?m (n + 1) ?refs\<rparr>"
    using assms(2) es n by (auto simp: raid_io_add_written_extent_def n_def split: option.splits)
  have "refs_total (AList.update ?m (n + 1) ?refs) + n = refs_total ?refs + (n + 1)"
    using refs_total_update [OF A(1), of ?m "n + 1"] by (simp add: n_def)
  then show ?thesis
    using A es set_AList_update [of ?m "n + 1" ?refs] by (auto simp: acct_ok_def acct_def w' distinct_update)
qed

lemma mark_acct:
  assumes "acct_ok (acct w)" "mark_written_medium_released m w = Some (w', found)"
    "\<And>es. rt_written_extents w = Some es \<Longrightarrow> length es < size_max"
  shows "acct_ok (acct w') \<and> rt_ctx w' = rt_ctx w \<and> rt_written_extents w' = rt_written_extents w \<and> rt_released w' = rt_released w"
proof -
  let ?refs = "rt_to_release_media w"
  have A: "distinct (map fst ?refs)" "\<forall>r \<in> set ?refs. 0 < snd r" "rt_released w \<longleftrightarrow> rt_written_extents w = None"
    "\<And>es. rt_written_extents w = Some es \<Longrightarrow> refs_total ?refs + rt_n_released_media w = length es"
    using assms(1) by (auto simp: acct_ok_def acct_def)
  obtain c where c: "pho_id_copy m m = Some c" using assms(2) by (auto simp: mark_written_medium_released_def split: bind_splits)
  show ?thesis
  proof (cases "map_of ?refs c")
    case None
    then show ?thesis using assms c by (simp add: mark_written_medium_released_def)
  next
    case (Some n)
    let ?w1 = "w\<lparr>rt_n_released_media := size_add (rt_n_released_media w) 1\<rparr>"
    have n: "0 < n" using Some A(2) map_of_SomeD by force
    have le: "n \<le> refs_total ?refs" using Some by (rule refcount_le)
    have add: "size_add (rt_n_released_media w) 1 = rt_n_released_media w + 1" if "rt_written_extents w = Some es" for es
      using A(4) [OF that] assms(3) [OF that] le n by (simp add: size_add_exact)
    show ?thesis
    proof (cases "n = 1")
      case True
      then have w': "w' = ?w1\<lparr>rt_to_release_media := AList.delete c ?refs\<rparr>"
        using assms(2) c Some by (simp add: mark_written_medium_released_def Let_def)
      have "refs_total (AList.delete c ?refs) + 1 = refs_total ?refs" using refs_total_delete [OF A(1) Some] True by simp
      then show ?thesis
        using A add by (fastforce simp: acct_ok_def acct_def w' AList.delete_eq distinct_map_filter)
    next
      case False
      then have w': "w' = ?w1\<lparr>rt_to_release_media := AList.update c (n - 1) ?refs\<rparr>"
        using assms(2) c Some n by (auto simp: mark_written_medium_released_def Let_def)
      have "refs_total (AList.update c (n - 1) ?refs) + 1 = refs_total ?refs"
        using refs_total_update [OF A(1), of c "n - 1"] Some n by simp
      moreover have "0 < snd r" if "r \<in> set (AList.update c (n - 1) ?refs)" for r
        using that set_AList_update [of c "n - 1" ?refs] A(2) False n by auto
      ultimately show ?thesis
        using A add by (auto simp: acct_ok_def acct_def w' distinct_update)
    qed
  qed
qed


subsection \<open>What leaves the accounting unchanged\<close>

definition acct_frame :: "'f raid_processor \<Rightarrow> 'f raid_processor \<Rightarrow> bool" where
  "acct_frame s s' \<longleftrightarrow> map acct (rp_writers s') = map acct (rp_writers s)"

lemma acct_frame_refl [simp]: "acct_frame s s"
  by (simp add: acct_frame_def)

lemma acct_frame_trans: "acct_frame s1 s2 \<Longrightarrow> acct_frame s2 s3 \<Longrightarrow> acct_frame s1 s3"
  by (simp add: acct_frame_def)

lemma acct_frame_inv: "acct_frame s s' \<Longrightarrow> acct_inv s' \<longleftrightarrow> acct_inv s"
proof -
  assume "acct_frame s s'"
  then have "acct ` set (rp_writers s') = acct ` set (rp_writers s)"
    unfolding acct_frame_def by (metis list.set_map)
  then have "(\<forall>a \<in> acct ` set (rp_writers s'). acct_ok a) \<longleftrightarrow> (\<forall>a \<in> acct ` set (rp_writers s). acct_ok a)" by simp
  then show ?thesis by (simp add: acct_inv_def)
qed

lemma acct_frame_writers: "rp_writers s' = rp_writers s \<Longrightarrow> acct_frame s s'"
  by (simp add: acct_frame_def)

lemma acct_simps [simp]: "acct (w\<lparr>rt_ctx := x\<rparr>) = acct w" "acct (w\<lparr>rt_ioa := y\<rparr>) = acct w"
  by (simp_all add: acct_def)

lemma current_writerD: "current_writer s = Some w \<Longrightarrow> current_target s < length (rp_writers s) \<and> rp_writers s ! current_target s = w"
  by (auto simp: current_writer_def split: if_splits)

lemma acct_frame_set:
  assumes "current_writer s = Some w" "rp_writers s1 = rp_writers s" "current_target s1 = current_target s" "acct w' = acct w"
  shows "acct_frame s (set_current_writer s1 w')"
  using current_writerD [OF assms(1)] assms(2-4)
  by (auto simp: acct_frame_def set_current_writer_def map_update intro!: nth_equalityI) (auto simp: nth_list_update)

lemma current_target_simps [simp]:
  "current_target (s\<lparr>rp_calls := n\<rparr>) = current_target s" "current_target (s\<lparr>rp_write_resp := r\<rparr>) = current_target s"
  "current_target (s\<lparr>rp_writers := ws\<rparr>) = current_target s" "current_target (s\<lparr>rp_media := m\<rparr>) = current_target s"
  "current_target (s\<lparr>rp_writer_release := rel\<rparr>) = current_target s" "current_target (set_current_writer s w) = current_target s"
  "current_target (s\<lparr>rp_proc := p\<rparr>) = dp_current_target p" "current_target (s\<lparr>rp_need_alloc_to_write := b\<rparr>) = current_target s"
  "current_target (s\<lparr>rp_writer_start_req := t\<rparr>) = current_target s" "current_target (s\<lparr>rp_dest_layout := ls\<rparr>) = current_target s"
  by (simp_all add: current_target_def set_current_writer_def)

lemma set_current_writer_twice: "set_current_writer (set_current_writer s w) w' = set_current_writer s w'"
  by (simp add: set_current_writer_def)

lemma common_split_setup_writer:
  assumes "common_split_setup sys s = Some (rc, s')"
  obtains "s' = s" "rc = - EINVAL"
  | w n ctx ioa where "current_writer s = Some w" "s' = set_current_writer (s\<lparr>rp_calls := n\<rparr>) (w\<lparr>rt_ctx := ctx, rt_ioa := ioa\<rparr>)"
  using assms unfolding common_split_setup_def Let_def
  by (elim bind_Some3E bind_Some2E bind_SomeE if_SomeE) auto

text \<open>The step keeps the transfer, and the number of writers.\<close>

definition xfer_frame :: "'f raid_processor \<Rightarrow> 'f raid_processor \<Rightarrow> bool" where
  "xfer_frame s s' \<longleftrightarrow> rp_targets s' = rp_targets s \<and> current_target s' = current_target s \<and>
     length (rp_writers s') = length (rp_writers s) \<and> dp_type (rp_proc s') = dp_type (rp_proc s)"

lemma xfer_frame_refl [simp]: "xfer_frame s s"
  by (simp add: xfer_frame_def)

lemma xfer_frame_trans: "xfer_frame s1 s2 \<Longrightarrow> xfer_frame s2 s3 \<Longrightarrow> xfer_frame s1 s3"
  by (simp add: xfer_frame_def)

lemma rp_set_current_writer [simp]:
  "rp_targets (set_current_writer s w) = rp_targets s" "rp_proc (set_current_writer s w) = rp_proc s"
  "rp_writers (set_current_writer s w) = (rp_writers s)[current_target s := w]"
  "rp_calls (set_current_writer s w) = rp_calls s" "rp_write_resp (set_current_writer s w) = rp_write_resp s"
  "rp_dest_layout (set_current_writer s w) = rp_dest_layout s" "rp_media (set_current_writer s w) = rp_media s"
  "rp_writer_release (set_current_writer s w) = rp_writer_release s" "rp_put (set_current_writer s w) = rp_put s"
  by (simp_all add: set_current_writer_def)

lemma common_split_setup_frame:
  assumes "common_split_setup sys s = Some (rc, s')"
  shows "acct_frame s s' \<and> xfer_frame s s' \<and> rp_proc s' = rp_proc s"
  using assms
proof (cases rule: common_split_setup_writer)
  case (2 w n ctx ioa)
  then show ?thesis by (auto simp: xfer_frame_def intro: acct_frame_set)
qed simp

lemma size_split_proc:
  assumes "size_split sys ops media proc ctx = Some (rc, p, ctx')"
  shows "\<exists>n buff. p = proc\<lparr>dp_writer_stripe_size := n, dp_buff := buff\<rparr>"
  using assms unfolding size_split_def Let_def
  by (auto elim!: bind_Some3E bind_Some2E bind_SomeE if_SomeE split: prod.splits; blast)

lemma raid_writer_split_setup_frame:
  assumes "raid_writer_split_setup sys ops s = Some (rc, s')"
  shows "acct_frame s s' \<and> xfer_frame s s'"
proof -
  obtain rc1 s1 where c: "common_split_setup sys s = Some (rc1, s1)"
    using assms by (auto simp: raid_writer_split_setup_def seq_proc_def split: option.splits)
  note F = common_split_setup_frame [OF c]
  have "acct_frame s1 s' \<and> xfer_frame s1 s'"
  proof (cases "rc1 = 0")
    case False
    then show ?thesis using assms c by (auto simp: raid_writer_split_setup_def seq_proc_def)
  next
    case True
    obtain w ctx p media where w: "current_writer s1 = Some w" "s' = (set_current_writer s1 (w\<lparr>rt_ctx := ctx\<rparr>))\<lparr>rp_proc := p\<rparr>"
      and p: "size_split sys ops media (rp_proc s1) (rt_ctx w) = Some (rc, p, ctx)"
      using assms c True unfolding raid_writer_split_setup_def seq_proc_def
      by (auto elim!: bind_Some3E bind_Some2E bind_SomeE)
    obtain n buff where "p = (rp_proc s1)\<lparr>dp_writer_stripe_size := n, dp_buff := buff\<rparr>" using size_split_proc [OF p] by blast
    then show ?thesis
      using w acct_frame_set [OF w(1), of s1 "w\<lparr>rt_ctx := ctx\<rparr>"]
      by (auto simp: xfer_frame_def current_target_def acct_frame_def)
  qed
  then show ?thesis using F acct_frame_trans xfer_frame_trans by blast
qed


subsection \<open>Closing a split\<close>

text \<open>The state with another current writer, everything else of the accounting unchanged.\<close>

definition writer_update :: "'f raid_processor \<Rightarrow> 'f raid_target \<Rightarrow> 'f raid_processor \<Rightarrow> bool" where
  "writer_update s w' s' \<longleftrightarrow> rp_writers s' = (rp_writers s)[current_target s := w'] \<and> rp_proc s' = rp_proc s \<and>
     rp_targets s' = rp_targets s"

lemma close_extent_writer:
  assumes "close_extent sys md i s = Some (rc, opened, s')"
  shows "\<exists>w w'. current_writer s = Some w \<and> writer_update s w' s' \<and>
     (acct w' = acct w \<or> (\<exists>e w0. acct w0 = acct w \<and> raid_io_add_written_extent e w0 = Some w'))"
proof -
  obtain w media threshold release where w: "current_writer s = Some w" "rp_write_resp s = Some (media, threshold)"
    "rp_writer_release s = Some release"
    using assms unfolding close_extent_def by (auto elim!: bind_Some2E bind_SomeE)
  obtain rc1 ctx1 n where f: "finish_extent sys md i (rp_calls s) (rt_ctx w) = (rc1, ctx1, n)" by (cases "finish_extent sys md i (rp_calls s) (rt_ctx w)")
  have "writer_update s (w\<lparr>rt_ctx := ctx1\<rparr>) s' \<or>
    (\<exists>w1 x. raid_io_add_written_extent (ric_out_extents ctx1 ! i) (w\<lparr>rt_ctx := x\<rparr>) = Some w1 \<and> writer_update s w1 s')"
    using assms unfolding close_extent_def Let_def
    by (simp add: w f split: if_splits) (auto simp: writer_update_def current_target_def elim!: bind_SomeE)
  then show ?thesis
    using w(1) acct_simps(1) by blast
qed

lemma acct_inv_update: "acct_inv s \<Longrightarrow> writer_update s w' s' \<Longrightarrow> acct_ok (acct w') \<Longrightarrow> acct_inv s'"
  by (auto simp: acct_inv_def writer_update_def dest!: set_update_subset_insert [THEN subsetD])

lemma current_writer_ok: "acct_inv s \<Longrightarrow> current_writer s = Some w \<Longrightarrow> acct_ok (acct w)"
  by (auto simp: acct_inv_def current_writer_def split: if_splits)

lemma current_writer_update: "writer_update s w' s' \<Longrightarrow> current_writer s = Some w \<Longrightarrow> current_writer s' = Some w'"
  by (auto simp: writer_update_def current_writer_def current_target_def split: if_splits)

text \<open>The number of extents of the current writer.\<close>

definition n_written :: "'f raid_processor \<Rightarrow> nat" where
  "n_written s = (case current_writer s of None \<Rightarrow> 0 | Some w \<Rightarrow> (case rt_written_extents w of None \<Rightarrow> 0 | Some es \<Rightarrow> length es))"

lemma frame_simps [simp]:
  "acct_inv (s\<lparr>rp_calls := n\<rparr>) = acct_inv s" "xfer_frame s (s'\<lparr>rp_calls := n\<rparr>) = xfer_frame s s'"
  "acct_inv (s\<lparr>rp_writer_release := r\<rparr>) = acct_inv s" "xfer_frame s (s'\<lparr>rp_writer_release := r\<rparr>) = xfer_frame s s'"
  "n_written (s\<lparr>rp_calls := n\<rparr>) = n_written s" "acct_inv (s\<lparr>rp_need_alloc_to_write := b\<rparr>) = acct_inv s" "acct_inv (s\<lparr>rp_proc := p\<rparr>) = acct_inv s"
  by (simp_all add: acct_inv_def xfer_frame_def n_written_def current_writer_def)

lemma n_written_few: "few_extents s \<Longrightarrow> n_written s < size_max"
  by (auto simp: n_written_def few_extents_def current_writer_def size_max_def split: option.splits)

lemma close_extent_acct:
  assumes "close_extent sys md i s = Some (rc, opened, s')" "acct_inv s" "n_written s' < size_max"
  shows "acct_inv s' \<and> n_written s \<le> n_written s' \<and> xfer_frame s s' \<and> rp_proc s' = rp_proc s"
proof -
  obtain w w' where w: "current_writer s = Some w" "writer_update s w' s'"
    and a: "acct w' = acct w \<or> (\<exists>e w0. acct w0 = acct w \<and> raid_io_add_written_extent e w0 = Some w')"
    using close_extent_writer [OF assms(1)] by blast
  note w' = current_writer_update [OF w(2,1)]
  have "acct_ok (acct w') \<and> n_written s \<le> n_written s'"
    using a
  proof
    assume "acct w' = acct w"
    then show ?thesis using current_writer_ok [OF assms(2) w(1)] w(1) w' by (simp add: acct_def n_written_def)
  next
    assume "\<exists>e w0. acct w0 = acct w \<and> raid_io_add_written_extent e w0 = Some w'"
    then obtain e w0 where w0: "acct w0 = acct w" "raid_io_add_written_extent e w0 = Some w'" by blast
    then obtain es where es: "rt_written_extents w0 = Some es" "rt_written_extents w' = Some (es @ [e])"
      using add_written_list by blast
    have "length es + 1 < size_max" using assms(3) w' es(2) by (simp add: n_written_def)
    moreover have "rt_written_extents w = Some es" using w0(1) es(1) by (simp add: acct_def)
    ultimately show ?thesis
      using add_written_acct [OF _ w0(2)] current_writer_ok [OF assms(2) w(1)] w0(1) es w(1) w' by (simp add: n_written_def)
  qed
  then show ?thesis
    using acct_inv_update [OF assms(2) w(2)] w(2) by (simp add: xfer_frame_def writer_update_def current_target_def)
qed

lemma close_extent_mono:
  assumes "close_extent sys md i s = Some (rc, opened, s')"
  shows "n_written s \<le> n_written s'"
proof -
  obtain w w' where w: "current_writer s = Some w" "writer_update s w' s'"
    and a: "acct w' = acct w \<or> (\<exists>e w0. acct w0 = acct w \<and> raid_io_add_written_extent e w0 = Some w')"
    using close_extent_writer [OF assms(1)] by blast
  have "rt_written_extents w' = rt_written_extents w \<or> (\<exists>es e. rt_written_extents w = Some es \<and> rt_written_extents w' = Some (es @ [e]))"
    using a add_written_list unfolding acct_def by (metis prod.inject)
  then show ?thesis
    using w(1) current_writer_update [OF w(2,1)] by (auto simp: n_written_def)
qed

lemma close_extents_mono: "close_extents sys md is s = Some (rc, left, s') \<Longrightarrow> n_written s \<le> n_written s'"
  by (induction "is" arbitrary: s) (force elim!: bind_Some3E dest: close_extent_mono split: if_splits)+

lemma close_extents_acct:
  "close_extents sys md is s = Some (rc, left, s') \<Longrightarrow> acct_inv s \<Longrightarrow> n_written s' < size_max \<Longrightarrow>
   acct_inv s' \<and> xfer_frame s s' \<and> rp_proc s' = rp_proc s"
proof (induction "is" arbitrary: s)
  case (Cons i "is")
  obtain rc1 opened s1 where c: "close_extent sys md i s = Some (rc1, opened, s1)"
    and r: "(if rc1 \<noteq> 0 then Some (rc1, if opened then i # is else is, s1) else close_extents sys md is s1) = Some (rc, left, s')"
    using Cons.prems(1) by (auto elim!: bind_Some3E)
  have "n_written s1 \<le> n_written s'" using r by (auto split: if_splits dest: close_extents_mono)
  then have "acct_inv s1 \<and> xfer_frame s s1 \<and> rp_proc s1 = rp_proc s"
    using close_extent_acct [OF c Cons.prems(2)] Cons.prems(3) by simp
  then show ?case using r Cons.IH [of s1] Cons.prems(3) xfer_frame_trans by (fastforce split: if_splits)
qed simp

lemma raid_writer_split_close_acct:
  assumes "raid_writer_split_close sys rc s = Some (rc', s')" "acct_inv s" "n_written s' < size_max"
  shows "acct_inv s' \<and> xfer_frame s s' \<and> rp_proc s' = rp_proc s"
proof -
  obtain w md s1 where w: "current_writer s = Some w"
    and c: "common_writer_rebuilder_split_close sys md rc s = Some (rc', s1)"
    and s': "rc' \<noteq> 0 \<and> s' = s1 \<or> (\<exists>w1. current_writer s1 = Some w1 \<and> s' = set_current_writer s1 (next_split (dp_writer_offset (rp_proc s1)) w1))"
    using assms(1) unfolding raid_writer_split_close_def Let_def
    by (auto elim!: bind_SomeE bind_Some2E if_SomeE)
  have "n_written s1 < size_max"
    using assms(3) s' by (auto simp: n_written_def next_split_def current_writer_def split: if_splits)
  then have 1: "acct_inv s1 \<and> xfer_frame s s1 \<and> rp_proc s1 = rp_proc s"
    using c w assms(2) unfolding common_writer_rebuilder_split_close_def Let_def
    by (auto elim!: bind_SomeE bind_Some3E if_SomeE dest: close_extents_acct)
  show ?thesis
    using s'
  proof
    assume "\<exists>w1. current_writer s1 = Some w1 \<and> s' = set_current_writer s1 (next_split (dp_writer_offset (rp_proc s1)) w1)"
    then obtain w1 where w1: "current_writer s1 = Some w1" "s' = set_current_writer s1 (next_split (dp_writer_offset (rp_proc s1)) w1)"
      by blast
    then have "acct_frame s1 s'" by (auto intro!: acct_frame_set simp: next_split_def)
    then show ?thesis using 1 w1 acct_frame_inv by (auto simp: xfer_frame_def)
  qed (use 1 in simp)
qed

subsection \<open>The step\<close>

lemma set_target_rc_frame: "set_target_rc rc reqs s = Some (rc', s', reqs') \<Longrightarrow> rp_writers s' = rp_writers s \<and> rc' = rc \<and> reqs' = reqs"
  by (auto simp: set_target_rc_def Let_def)

lemma next_target_frame:
  assumes "next_target sys ops b rc s = Some (rc', s')"
  shows "acct_frame s s'"
proof -
  let ?s1 = "s\<lparr>rp_proc := (rp_proc s)\<lparr>dp_current_target := current_target s + 1, dp_reader_offset := 0, dp_writer_offset := 0,
     dp_buffer_offset := 0\<rparr>\<rparr>"
  let ?s2 = "?s1\<lparr>rp_proc := (rp_proc ?s1)\<lparr>dp_object_size := xt_size (rp_targets s ! (current_target s + 1))\<rparr>\<rparr>"
  have "s' = ?s1 \<or> s' = ?s2 \<or> raid_writer_split_setup sys ops ?s2 = Some (rc', s')"
    using assms by (auto simp: next_target_def Let_def split: if_splits)
  moreover have "acct_frame s ?s1" "acct_frame s ?s2" by (simp_all add: acct_frame_writers)
  ultimately show ?thesis using raid_writer_split_setup_frame acct_frame_trans by blast
qed

lemma complete_frame: "complete_and_transfer_release rc stop partial s = Some (req, s') \<Longrightarrow> rp_writers s' = rp_writers s"
  by (auto simp: complete_and_transfer_release_def Let_def elim!: bind_SomeE bind_Some2E split: if_splits)

lemma check_for_release_frame:
  assumes "check_for_release sys ops rc st s = Some (rc', s', reqs)"
  shows "\<exists>rc1 s1. (s1 = s \<or> raid_writer_split_close sys rc s = Some (rc1, s1)) \<and> acct_frame s1 s'"
proof -
  define full alloc where "full = (rc \<noteq> 0 \<or> (ws_split_ended st \<and> \<not> ws_target_ended st) \<or> ws_need_alloc_for_next_target st \<or> ws_last_target_ended st)"
    and "alloc = (rc = 0 \<and> ((ws_split_ended st \<and> \<not> ws_target_ended st) \<or> ws_need_alloc_for_next_target st))"
  note names = full_def [symmetric] alloc_def [symmetric]
  obtain rc1 s1 partial s2 reqs1 s3 rc4 s4 where
    1: "(if ws_split_ended st \<or> rc \<noteq> 0 then raid_writer_split_close sys rc s else Some (rc, s)) = Some (rc1, s1)" and
    2: "(if rc1 = 0 \<and> ws_split_ended st \<and> \<not> full then do {
          release \<leftarrow> rp_writer_release s1;
          (media, threshold) \<leftarrow> rp_write_resp s1;
          threshold \<leftarrow> threshold;
          let (sync, n) = need_to_sync sys threshold (rp_writer_start_req s1) release (rp_calls s1);
          Some (sync, s1\<lparr>rp_calls := n\<rparr>)
        } else Some (False, s1)) = Some (partial, s2)" and
    3: "(if full \<or> partial then do {
          (req, s) \<leftarrow> complete_and_transfer_release rc1 (ws_stop_io st) partial s2;
          Some ([req], s)
        } else Some ([], s2)) = Some (reqs1, s3)" and
    4: "(if ws_target_ended st then next_target sys ops alloc rc1 s3 else Some (rc1, s3)) = Some (rc4, s4)" and
    5: "(if alloc then do {
       req \<leftarrow> raid_writer_rebuilder_build_allocation_req s4 (ws_remain st);
       set_target_rc rc4 (reqs1 @ [req]) (s4\<lparr>rp_need_alloc_to_write := True\<rparr>)
     }
     else set_target_rc rc4 reqs1 s4) = Some (rc', s', reqs)"
    using assms unfolding check_for_release_def Let_def names
    by (elim bind_Some2E) blast
  have "rp_writers s2 = rp_writers s1"
    using 2 by (auto elim!: bind_Some2E bind_SomeE split: if_splits prod.splits)
  moreover have "rp_writers s3 = rp_writers s2"
    using 3 by (auto elim!: bind_Some2E dest!: complete_frame split: if_splits)
  moreover have "acct_frame s3 s4" using 4 by (auto split: if_splits dest: next_target_frame)
  moreover have "rp_writers s' = rp_writers s4"
    using 5 by (auto elim!: bind_SomeE dest!: set_target_rc_frame split: if_splits)
  ultimately have "acct_frame s1 s'" by (simp add: acct_frame_def)
  then show ?thesis using 1 by (auto split: if_splits)
qed


lemma acct_frame_few: "acct_frame s s' \<Longrightarrow> few_extents s' \<longleftrightarrow> few_extents s"
proof -
  assume "acct_frame s s'"
  then have "(fst \<circ> acct) ` set (rp_writers s') = (fst \<circ> acct) ` set (rp_writers s)"
    unfolding acct_frame_def by (metis image_comp list.set_map)
  then have "rt_written_extents ` set (rp_writers s') = rt_written_extents ` set (rp_writers s)" by (simp add: acct_def comp_def)
  then have "(\<forall>x \<in> rt_written_extents ` set (rp_writers s'). \<forall>es. x = Some es \<longrightarrow> length es < size_max) \<longleftrightarrow>
      (\<forall>x \<in> rt_written_extents ` set (rp_writers s). \<forall>es. x = Some es \<longrightarrow> length es < size_max)" by simp
  then show ?thesis by (simp add: few_extents_def)
qed

lemma acct_inv_writers: "rp_writers s' = rp_writers s \<Longrightarrow> acct_inv s \<Longrightarrow> acct_inv s'"
  by (simp add: acct_inv_def)

lemma check_for_release_acct:
  assumes "check_for_release sys ops rc st s = Some (rc', s', reqs)" "acct_inv s" "few_extents s'"
  shows "acct_inv s'"
proof -
  obtain rc1 s1 where s1: "s1 = s \<or> raid_writer_split_close sys rc s = Some (rc1, s1)" "acct_frame s1 s'"
    using check_for_release_frame [OF assms(1)] by blast
  have "n_written s1 < size_max" using n_written_few acct_frame_few [OF s1(2)] assms(3) by blast
  then have "acct_inv s1" using s1(1) assms(2) raid_writer_split_close_acct by blast
  then show ?thesis using acct_frame_inv [OF s1(2)] by simp
qed

lemma write_stage_acct:
  assumes "write_stage sys ops s = Some (rc', s', reqs)" "acct_inv s" "few_extents s'"
  shows "acct_inv s'"
proof -
  consider "\<exists>rc st. check_for_release sys ops rc st s = Some (rc', s', reqs)" | "rp_writers s' = rp_writers s"
    | w ctx p rc st where "current_writer s = Some w"
        "check_for_release sys ops rc st ((set_current_writer s (w\<lparr>rt_ctx := ctx\<rparr>))\<lparr>rp_proc := p\<rparr>) = Some (rc', s', reqs)"
    using assms(1) unfolding write_stage_def write_and_check_def Let_def
    by (elim if_SomeE bind_SomeE bind_Some2E bind_Some3E) (blast | (drule set_target_rc_frame, blast))+
  then show ?thesis
  proof cases
    case (3 w ctx p rc st)
    have "acct_frame s ((set_current_writer s (w\<lparr>rt_ctx := ctx\<rparr>))\<lparr>rp_proc := p\<rparr>)"
      using acct_frame_set [OF 3(1), of s "w\<lparr>rt_ctx := ctx\<rparr>"] by (simp add: acct_frame_def)
    then show ?thesis using check_for_release_acct [OF 3(2) _ assms(3)] acct_frame_inv assms(2) by blast
  qed (use assms(2,3) check_for_release_acct acct_inv_writers in blast)+
qed

lemma prepare_frame: "prepare_writer_rebuilder_release_request sys resp s = Some (rc, s') \<Longrightarrow> rp_writers s' = rp_writers s"
  by (auto simp: prepare_writer_rebuilder_release_request_def Let_def elim!: bind_SomeE split: prod.splits if_splits)

lemma start_split_acct:
  assumes "start_split sys ops s = Some (rc', s', reqs)" "acct_inv s" "few_extents s'"
  shows "acct_inv s'"
  using assms(1) unfolding start_split_def
proof (elim if_SomeE bind_Some2E)
  fix rc s1
  assume s1: "raid_writer_split_setup sys ops s = Some (rc, s1)" and "write_stage sys ops s1 = Some (rc', s', reqs)"
  then show ?thesis
    using raid_writer_split_setup_frame [OF s1] acct_frame_inv write_stage_acct assms(2,3) by blast
next
  fix rc s1
  assume s1: "raid_writer_split_setup sys ops s = Some (rc, s1)"
    and "check_for_release sys ops rc (no_write False) s1 = Some (rc', s', reqs)"
  then show ?thesis
    using raid_writer_split_setup_frame [OF s1] acct_frame_inv check_for_release_acct assms(2,3) by blast
qed (use assms(2,3) check_for_release_acct in blast)

lemma alloc_stage_acct:
  assumes "alloc_stage sys ops resp s = Some (rc', s', reqs)" "acct_inv s" "few_extents s'"
  shows "acct_inv s'"
proof -
  obtain rc1 s1 where p: "prepare_writer_rebuilder_release_request sys resp s = Some (rc1, s1)"
    using assms(1) by (auto simp: alloc_stage_def elim!: bind_Some2E)
  let ?s2 = "s1\<lparr>rp_need_alloc_to_write := False\<rparr>"
  have inv: "acct_inv s1" "acct_inv ?s2" using assms(2) prepare_frame [OF p] by (simp_all add: acct_inv_def)
  have "rp_writers s' = rp_writers s1 \<or> write_stage sys ops s1 = Some (rc', s', reqs) \<or> start_split sys ops ?s2 = Some (rc', s', reqs)"
    using assms(1) p unfolding alloc_stage_def
    by (auto dest!: set_target_rc_frame split: pho_resp.splits bool.splits if_splits)
  then show ?thesis
    using inv assms(3) write_stage_acct start_split_acct acct_inv_writers by blast
qed

subsection \<open>Release responses\<close>

text \<open>Two lists of writers that differ by what is released only.\<close>

definition marked :: "'f raid_target list \<Rightarrow> 'f raid_target list \<Rightarrow> bool" where
  "marked ws ws' \<longleftrightarrow> length ws' = length ws \<and> (\<forall>i < length ws. rt_ctx (ws' ! i) = rt_ctx (ws ! i) \<and>
     rt_written_extents (ws' ! i) = rt_written_extents (ws ! i) \<and> rt_released (ws' ! i) = rt_released (ws ! i))"

definition acct_list :: "'f raid_target list \<Rightarrow> bool" where
  "acct_list ws \<longleftrightarrow> (\<forall>w \<in> set ws. acct_ok (acct w) \<and> (\<forall>es. rt_written_extents w = Some es \<longrightarrow> length es < size_max))"

lemma marked_refl [simp]: "marked ws ws"
  by (simp add: marked_def)

lemma marked_trans: "marked a b \<Longrightarrow> marked b c \<Longrightarrow> marked a c"
  by (simp add: marked_def)

lemma acct_list_update:
  assumes "acct_list ws" "acct_ok (acct w)" "\<And>es. rt_written_extents w = Some es \<Longrightarrow> length es < size_max"
  shows "acct_list (ws[j := w])"
proof -
  have "set (ws[j := w]) \<subseteq> insert w (set ws)" by (rule set_update_subset_insert)
  then show ?thesis using assms unfolding acct_list_def by blast
qed

lemma mark_targets_acct:
  "mark_targets m js (ws, found) = Some (ws', found') \<Longrightarrow> acct_list ws \<Longrightarrow> acct_list ws' \<and> marked ws ws'"
proof (induction js arbitrary: ws found)
  case (Cons j js)
  obtain w f where j: "j < length ws" and w: "mark_written_medium_released m (ws ! j) = Some (w, f)"
    and r: "mark_targets m js (ws[j := w], found \<or> f) = Some (ws', found')"
    using Cons.prems(1) by (auto elim!: bind_Some2E split: if_splits)
  have "ws ! j \<in> set ws" using j by simp
  then have ok: "acct_ok (acct w) \<and> rt_ctx w = rt_ctx (ws ! j) \<and> rt_written_extents w = rt_written_extents (ws ! j) \<and> rt_released w = rt_released (ws ! j)"
    using mark_acct [OF _ w] Cons.prems(2) by (auto simp: acct_list_def)
  have "length es < size_max" if "rt_written_extents (ws ! j) = Some es" for es
    using that Cons.prems(2) \<open>ws ! j \<in> set ws\<close> by (simp add: acct_list_def)
  then have "acct_list (ws[j := w])" using ok by (intro acct_list_update [OF Cons.prems(2)]) simp_all
  moreover have "marked ws (ws[j := w])" using ok j by (auto simp: marked_def nth_list_update)
  ultimately show ?case using Cons.IH [OF r] marked_trans by blast
qed simp

lemma common_release_media_acct:
  "common_release_media ms rc s = Some (rc', s') \<Longrightarrow> acct_list (rp_writers s) \<Longrightarrow>
   acct_list (rp_writers s') \<and> marked (rp_writers s) (rp_writers s') \<and> s' = s\<lparr>rp_writers := rp_writers s'\<rparr>"
proof (induction ms arbitrary: rc s)
  case (Cons m ms)
  obtain ws found where w: "mark_targets m [0..<length (rp_targets s)] (rp_writers s, False) = Some (ws, found)"
    and r: "common_release_media ms (if found then rc else - EINVAL) (s\<lparr>rp_writers := ws\<rparr>) = Some (rc', s')"
    using Cons.prems(1) by (auto elim!: bind_Some2E)
  have "acct_list ws \<and> marked (rp_writers s) ws" using mark_targets_acct [OF w] Cons.prems(2) by blast
  then show ?case using Cons.IH [OF r] marked_trans by fastforce
qed simp

text \<open>What it takes for a target to be released by a release response.\<close>

definition completes :: "'f raid_target \<Rightarrow> 'f raid_target \<Rightarrow> layout_info \<Rightarrow> bool" where
  "completes w w' lyt \<longleftrightarrow> ric_all_is_written (rt_ctx w) \<and> rt_to_release_media w' = [] \<and>
     (\<exists>es. rt_written_extents w = Some es \<and> es \<noteq> [] \<and> lyt_extents lyt = map (\<lambda>e. e\<lparr>ext_state := PHO_EXT_ST_SYNC\<rparr>) es)"

lemma release_target_completes:
  assumes "release_target i s = Some s'" "acct_list (rp_writers s)" "ric_all_is_written (rt_ctx (rp_writers s ! i))"
    "rt_written_extents (rp_writers s ! i) = Some es" "es \<noteq> []" "length es = rt_n_released_media (rp_writers s ! i)"
  shows "i < length (rp_writers s) \<and> acct_list (rp_writers s') \<and>
     rp_writers s' = (rp_writers s)[i := rp_writers s' ! i] \<and> rt_released (rp_writers s' ! i) \<and>
     rp_dest_layout s' = (rp_dest_layout s)[i := rp_dest_layout s' ! i] \<and> length (rp_dest_layout s') > i \<and>
     completes (rp_writers s ! i) (rp_writers s' ! i) (rp_dest_layout s' ! i) \<and> rp_targets s' = rp_targets s \<and> rp_proc s' = rp_proc s"
proof -
  let ?w = "rp_writers s ! i"
  have i: "i < length (rp_writers s)" "i < length (rp_dest_layout s)"
    and s': "s' = s\<lparr>rp_writers := (rp_writers s)[i := ?w\<lparr>rt_written_extents := None, rt_n_released_media := 0, rt_released := True\<rparr>],
        rp_dest_layout := (rp_dest_layout s)[i := (rp_dest_layout s ! i)\<lparr>lyt_extents := map (\<lambda>e. e\<lparr>ext_state := PHO_EXT_ST_SYNC\<rparr>) es\<rparr>]\<rparr>"
    using assms(1,4) by (auto simp: release_target_def common_fill_layout_def split: if_splits)
  have w: "acct_ok (acct ?w)" using i assms(2) by (simp add: acct_list_def)
  then have "refs_total (rt_to_release_media ?w) = 0" using assms(4,6) by (auto simp: acct_ok_def acct_def)
  then have e: "rt_to_release_media ?w = []" using w refs_total_0 by (auto simp: acct_ok_def acct_def)
  have "acct_list ((rp_writers s)[i := ?w\<lparr>rt_written_extents := None, rt_n_released_media := 0, rt_released := True\<rparr>])"
    using w by (intro acct_list_update [OF assms(2)]) (auto simp: acct_ok_def acct_def)
  then show ?thesis using i assms(3-5) e by (simp add: s' completes_def)
qed


lemma released_targets_Cons:
  assumes "released_targets (i # is) n s = Some (n', s')"
  obtains (finished) "i < length (rp_writers s)" "rt_released (rp_writers s ! i)" "released_targets is (n + 1) s = Some (n', s')"
  | (pending) "i < length (rp_writers s)" "\<not> rt_released (rp_writers s ! i)" "released_targets is n s = Some (n', s')"
  | (complete) es s1 where "i < length (rp_writers s)" "\<not> rt_released (rp_writers s ! i)" "ric_all_is_written (rt_ctx (rp_writers s ! i))"
      "rt_written_extents (rp_writers s ! i) = Some es" "es \<noteq> []" "length es = rt_n_released_media (rp_writers s ! i)"
      "release_target i s = Some s1" "released_targets is (n + 1) s1 = Some (n', s')"
  using assms by (auto simp: Let_def elim!: bind_SomeE split: if_splits option.splits)

lemma released_targets_spec:
  "released_targets is n s = Some (n', s') \<Longrightarrow> acct_list (rp_writers s) \<Longrightarrow> distinct is \<Longrightarrow>
   acct_list (rp_writers s') \<and> length (rp_writers s') = length (rp_writers s) \<and> rp_targets s' = rp_targets s \<and> rp_proc s' = rp_proc s \<and>
   n' = n + length (filter (\<lambda>i. rt_released (rp_writers s' ! i)) is) \<and>
   (\<forall>i. i \<notin> set is \<longrightarrow> rp_writers s' ! i = rp_writers s ! i \<and> rp_dest_layout s' ! i = rp_dest_layout s ! i) \<and>
   (\<forall>i \<in> set is. rt_released (rp_writers s' ! i) \<longrightarrow> rt_released (rp_writers s ! i) \<or>
      completes (rp_writers s ! i) (rp_writers s' ! i) (rp_dest_layout s' ! i))"
proof (induction "is" arbitrary: n s)
  case (Cons i "is")
  have notin: "i \<notin> set is" "distinct is" using Cons.prems(3) by auto
  show ?case
    using Cons.prems(1)
  proof (cases rule: released_targets_Cons)
    case finished
    then show ?thesis using Cons.IH [OF finished(3) Cons.prems(2) notin(2)] notin(1) by auto
  next
    case pending
    then show ?thesis using Cons.IH [OF pending(3) Cons.prems(2) notin(2)] notin(1) by auto
  next
    case (complete es s1)
    have R: "acct_list (rp_writers s1)" "rp_writers s1 = (rp_writers s)[i := rp_writers s1 ! i]" "rt_released (rp_writers s1 ! i)"
      "rp_dest_layout s1 = (rp_dest_layout s)[i := rp_dest_layout s1 ! i]" "completes (rp_writers s ! i) (rp_writers s1 ! i) (rp_dest_layout s1 ! i)"
      "rp_targets s1 = rp_targets s" "rp_proc s1 = rp_proc s"
      using release_target_completes [OF complete(7) Cons.prems(2) complete(3-6)] by auto
    have other: "rp_writers s1 ! k = rp_writers s ! k \<and> rp_dest_layout s1 ! k = rp_dest_layout s ! k" if "k \<noteq> i" for k
      using R(2,4) that by (metis nth_list_update_neq)
    have "length (rp_writers s1) = length (rp_writers s)" using R(2) by (metis length_list_update)
    moreover have "\<forall>k \<in> set is. rp_writers s1 ! k = rp_writers s ! k" using other notin(1) by metis
    ultimately show ?thesis
      using Cons.IH [OF complete(8) R(1) notin(2)] notin(1) R(3,5-7) other by auto
  qed
qed simp

lemma released_targets_range: "released_targets is n s = Some (n', s') \<Longrightarrow> i \<in> set is \<Longrightarrow> i < length (rp_writers s)"
proof (induction "is" arbitrary: n s)
  case (Cons j "is")
  note * = Cons.prems(1)
  show ?case
    using *
  proof (cases rule: released_targets_Cons)
    case (complete es s1)
    have "length (rp_writers s1) = length (rp_writers s)"
      using complete(7) by (auto simp: release_target_def elim!: bind_Some2E split: if_splits)
    then show ?thesis using Cons.IH [OF complete(8)] Cons.prems(2) complete(1) by auto
  qed (use Cons.IH Cons.prems(2) in auto)
qed simp

lemma release_target_acct:
  assumes "release_target i s = Some s'" "acct_inv s"
  shows "acct_inv s'"
proof -
  let ?w = "(rp_writers s ! i)\<lparr>rt_written_extents := None, rt_n_released_media := 0, rt_released := True\<rparr>"
  have i: "i < length (rp_writers s)" "rp_writers s' = (rp_writers s)[i := ?w]"
    using assms(1) by (auto simp: release_target_def common_fill_layout_def elim!: bind_SomeE split: if_splits)
  then have "acct_ok (acct (rp_writers s ! i))" using assms(2) by (simp add: acct_inv_def)
  then have "acct_ok (acct ?w)" by (simp add: acct_ok_def acct_def)
  then show ?thesis
    using assms(2) set_update_subset_insert [of "rp_writers s" i ?w] unfolding acct_inv_def i(2) by blast
qed

lemma partial_release_acct: "partial_release_loop is s = Some s' \<Longrightarrow> acct_inv s \<Longrightarrow> acct_inv s'"
  by (induction "is" arbitrary: s) (auto elim!: bind_SomeE dest: release_target_acct split: if_splits)

text \<open>
  C18. Every extent that a target has written is either counted as released or still in the
  table of the media to release, whatever the step, the responses and the errors: the accounting
  that decides when a put is complete is an invariant of the RAID writer.
\<close>

theorem raid_writer_accounting:
  assumes "acct_inv s" "few_extents s" "raid_writer_processor_step sys ops resp s = Some (rc, s', reqs)" "few_extents s'"
  shows "acct_inv s'"
proof -
  have L: "acct_list (rp_writers s)" using assms(1,2) by (simp add: acct_list_def acct_inv_def few_extents_def)
  consider "rp_writers s' = rp_writers s" | "write_stage sys ops s = Some (rc, s', reqs)"
    | r where "alloc_stage sys ops r s = Some (rc, s', reqs)"
    | ms rc1 s1 where "raid_writer_handle_release_resp ms s = Some (rc1, s1)" "rp_writers s' = rp_writers s1"
    | s1 r where "partial_release_loop [0..<current_target s] s = Some s1" "alloc_stage sys ops r s1 = Some (rc, s', reqs)"
    using assms(3) unfolding raid_writer_processor_step_def
    by (auto simp: raid_writer_handle_partial_release_resp_def elim!: bind_SomeE bind_Some2E if_SomeE dest!: set_target_rc_frame
        split: option.splits pho_resp.splits bool.splits)
  then show ?thesis
  proof cases
    case (4 ms rc1 s1)
    obtain rc2 s2 n s3 where m: "common_release_media ms 0 s = Some (rc2, s2)"
      "released_targets [0..<length (rp_targets s2)] 0 s2 = Some (n, s3)" "rp_writers s1 = rp_writers s3"
      using 4(1) by (auto simp: raid_writer_handle_release_resp_def elim!: bind_Some2E split: if_splits)
    have "acct_list (rp_writers s3)"
      using released_targets_spec [OF m(2)] common_release_media_acct [OF m(1) L] by auto
    then show ?thesis using 4(2) m(3) by (simp add: acct_list_def acct_inv_def)
  next
    case (5 s1 r)
    have "acct_inv s1" using partial_release_acct [OF 5(1) assms(1)] .
    then show ?thesis using 5(2) alloc_stage_acct assms(4) by blast
  qed (use assms write_stage_acct alloc_stage_acct acct_inv_writers in blast)+
qed


text \<open>
  C19. A target that becomes complete when a release response arrives had all its data written,
  and every one of its extents was released: its layout holds exactly the extents written for it,
  all of them synchronised, and nothing is left to release. The processor is done only when every
  target is complete.
\<close>

theorem raid_writer_release_completes:
  assumes "acct_inv s" "few_extents s" "raid_writer_processor_step sys ops (Some (RespRelease med_ids False)) s = Some (rc, s', reqs)"
  shows "(\<forall>i < length (rp_targets s). rt_released (rp_writers s' ! i) \<and> \<not> rt_released (rp_writers s ! i) \<longrightarrow>
      completes (rp_writers s ! i) (rp_writers s' ! i) (rp_dest_layout s' ! i)) \<and>
    (dp_done (rp_proc s') \<and> \<not> dp_done (rp_proc s) \<longrightarrow> (\<forall>i < length (rp_targets s). rt_released (rp_writers s' ! i)))"
proof -
  have L: "acct_list (rp_writers s)" using assms(1,2) by (simp add: acct_list_def acct_inv_def few_extents_def)
  obtain rc1 s1 where h: "raid_writer_handle_release_resp med_ids s = Some (rc1, s1)" and t: "set_target_rc rc1 [] s1 = Some (rc, s', reqs)"
    using assms(3) by (auto simp: raid_writer_processor_step_def elim!: bind_Some2E)
  obtain rc2 s2 n s3 where m: "common_release_media med_ids 0 s = Some (rc2, s2)"
    "released_targets [0..<length (rp_targets s2)] 0 s2 = Some (n, s3)"
    and s1: "(if n = length (rp_targets s3) then Some (0, s3\<lparr>rp_proc := (rp_proc s3)\<lparr>dp_done := True\<rparr>\<rparr>) else Some (rc2, s3)) = Some (rc1, s1)"
    using h by (auto simp: raid_writer_handle_release_resp_def elim!: bind_Some2E)
  have C: "acct_list (rp_writers s2)" "marked (rp_writers s) (rp_writers s2)" "s2 = s\<lparr>rp_writers := rp_writers s2\<rparr>"
    using common_release_media_acct [OF m(1) L] by auto
  have s2: "rp_targets s2 = rp_targets s" "rp_proc s2 = rp_proc s" by (subst C(3), simp)+
  have R: "rp_targets s3 = rp_targets s" "rp_proc s3 = rp_proc s"
    "n = length (filter (\<lambda>i. rt_released (rp_writers s3 ! i)) [0..<length (rp_targets s)])"
    "\<forall>i \<in> set [0..<length (rp_targets s)]. rt_released (rp_writers s3 ! i) \<longrightarrow> rt_released (rp_writers s2 ! i) \<or>
      completes (rp_writers s2 ! i) (rp_writers s3 ! i) (rp_dest_layout s3 ! i)"
    using released_targets_spec [OF m(2) C(1) distinct_upt] unfolding s2 add_0 by blast+
  have s': "rp_writers s' = rp_writers s3" "rp_dest_layout s' = rp_dest_layout s3" "dp_done (rp_proc s') = dp_done (rp_proc s1)"
    using t s1 by (auto simp: set_target_rc_def Let_def split: if_splits)
  have len: "i < length (rp_writers s2)" if "i < length (rp_targets s)" for i
    using that released_targets_range [OF m(2)] s2(1) by simp
  have mark: "rt_released (rp_writers s2 ! i) = rt_released (rp_writers s ! i)" "rt_ctx (rp_writers s2 ! i) = rt_ctx (rp_writers s ! i)"
    "rt_written_extents (rp_writers s2 ! i) = rt_written_extents (rp_writers s ! i)" if "i < length (rp_targets s)" for i
    using len [OF that] C(2) by (simp_all add: marked_def)
  have "completes (rp_writers s ! i) (rp_writers s' ! i) (rp_dest_layout s' ! i)"
    if i: "i < length (rp_targets s)" "rt_released (rp_writers s' ! i)" "\<not> rt_released (rp_writers s ! i)" for i
  proof -
    have "completes (rp_writers s2 ! i) (rp_writers s3 ! i) (rp_dest_layout s3 ! i)"
      using R(4) i mark(1) [OF i(1)] s'(1) by auto
    then show ?thesis using mark(2,3) [OF i(1)] s' by (simp add: completes_def)
  qed
  moreover have "\<forall>i < length (rp_targets s). rt_released (rp_writers s' ! i)" if "dp_done (rp_proc s')" "\<not> dp_done (rp_proc s)"
  proof -
    have "n = length (rp_targets s3)" using s1 that s'(3) R(2) by (auto split: if_splits)
    then have "length (filter (\<lambda>i. rt_released (rp_writers s3 ! i)) [0..<length (rp_targets s)]) = length [0..<length (rp_targets s)]"
      using R(1,3) by simp
    then have "\<forall>i \<in> set [0..<length (rp_targets s)]. rt_released (rp_writers s3 ! i)"
      using length_filter_less [of _ "[0..<length (rp_targets s)]" "\<lambda>i. rt_released (rp_writers s3 ! i)"] by (metis less_irrefl_nat)
    then show ?thesis by (simp add: s'(1))
  qed
  ultimately show ?thesis by blast
qed


subsection \<open>A put that waits for its last release\<close>

definition sample_target :: "extent list \<Rightarrow> (pho_id \<times> nat) list \<Rightarrow> nat \<Rightarrow> posix_fd raid_target" where
  "sample_target es refs n =
     \<lparr>rt_name = ''raid1'', rt_ctx = (sample_ctx [[], []] [extent_zero, extent_zero] 2 4)\<lparr>ric_n_data_extents := 1, ric_all_is_written := True\<rparr>,
      rt_ioa = [True, True], rt_user_md = '''', rt_written_extents = Some es, rt_to_release_media = refs,
      rt_n_released_media = n, rt_released = False, rt_missing_extents_remaining = 0\<rparr>"

definition sample_state :: "posix_fd raid_target list \<Rightarrow> data_processor \<Rightarrow> posix_fd raid_processor" where
  "sample_state ws proc =
     \<lparr>rp_proc = proc, rp_calls = 0,
      rp_targets = map (\<lambda>w. \<lparr>xt_objid = ''oid'', xt_objuuid = ''uuid'', xt_version = 1, xt_size = 4, xt_attrs = None, xt_fd = 0\<rparr>) ws,
      rp_put = \<lparr>pp_family = PHO_RSC_DIR, pp_tags = [], pp_no_split = False, pp_grouping = None, pp_lyt_params = None,
        pp_copy_name = ''c''\<rparr>,
      rp_rebuild = \<lparr>rb_extents_idx = [], rb_media_read = None\<rparr>, rp_src_layout = sample_layout [], rp_src_copy_ctime = (0, 0),
      rp_dest_layout = map (\<lambda>w. sample_layout []) ws, rp_writers = ws, rp_write_resp = None, rp_writer_release = None,
      rp_writer_start_req = \<lparr>tv_sec = 0, tv_nsec = 0\<rparr>, rp_need_alloc_to_write = False,
      rp_reader = sample_ctx [] [] 1 0, rp_read_resp = None, rp_hash_freed = [], rp_need_alloc_to_read = False,
      rp_eraser = sample_ctx [] [] 1 0, rp_to_delete = 0, rp_erased = [], rp_posix = [], rp_destroyed = False, rp_media = []\<rparr>"

definition sample_medium :: "string \<Rightarrow> pho_id" where
  "sample_medium nm = \<lparr>family = PHO_RSC_DIR, name = nm, library = ''l''\<rparr>"

definition sample_on :: "string \<Rightarrow> nat \<Rightarrow> extent" where
  "sample_on nm i = (sample_extent i 4)\<lparr>ext_media := sample_medium nm, ext_state := PHO_EXT_ST_PENDING\<rparr>"

lemma sample_release_step:
  "raid_writer_processor_step sys ops (Some (RespRelease [sample_medium ''b''] False))
     (sample_state [sample_target [sample_on ''a'' 0, sample_on ''b'' 1] [(sample_medium ''b'', 1)] 1] (sample_proc [] 4 0)) =
   Some (0, (sample_state [(sample_target [] [] 0)\<lparr>rt_written_extents := None, rt_released := True\<rparr>] ((sample_proc [] 4 0)\<lparr>dp_done := True\<rparr>))
     \<lparr>rp_dest_layout := [(sample_layout [])\<lparr>lyt_extents := map (\<lambda>e. e\<lparr>ext_state := PHO_EXT_ST_SYNC\<rparr>) [sample_on ''a'' 0, sample_on ''b'' 1]\<rparr>]\<rparr>, [])"
  by (simp add: raid_writer_processor_step_def raid_writer_handle_release_resp_def mark_written_medium_released_def
      pho_id_copy_def pho_id_name_set_def PHO_URI_MAX_def sample_medium_def sample_state_def sample_target_def size_add_def size_max_def
      release_target_def common_fill_layout_def set_target_rc_def)

lemma sample_release_ok:
  "acct_inv (sample_state [sample_target [sample_on ''a'' 0, sample_on ''b'' 1] [(sample_medium ''b'', 1)] 1] (sample_proc [] 4 0))"
  "few_extents (sample_state [sample_target [sample_on ''a'' 0, sample_on ''b'' 1] [(sample_medium ''b'', 1)] 1] (sample_proc [] 4 0))"
  by (simp_all add: acct_inv_def acct_ok_def acct_def few_extents_def sample_state_def sample_target_def refs_total_def size_max_def)

theorem raid_writer_accounting_witness:
  "\<exists>s'. raid_writer_processor_step sample_sys (RAID1_OPS sample_env) (Some (RespRelease [sample_medium ''b''] False))
     (sample_state [sample_target [sample_on ''a'' 0, sample_on ''b'' 1] [(sample_medium ''b'', 1)] 1] (sample_proc [] 4 0)) = Some (0, s', []) \<and>
     acct_inv s'"
proof -
  note step = sample_release_step [of sample_sys "RAID1_OPS sample_env"]
  show ?thesis
    using raid_writer_accounting [OF sample_release_ok step] step by (simp add: few_extents_def sample_state_def)
qed

theorem raid_writer_release_completes_witness:
  "\<exists>s'. raid_writer_processor_step sample_sys (RAID1_OPS sample_env) (Some (RespRelease [sample_medium ''b''] False))
     (sample_state [sample_target [sample_on ''a'' 0, sample_on ''b'' 1] [(sample_medium ''b'', 1)] 1] (sample_proc [] 4 0)) = Some (0, s', []) \<and>
     map ext_state (lyt_extents (rp_dest_layout s' ! 0)) = [PHO_EXT_ST_SYNC, PHO_EXT_ST_SYNC]"
proof -
  note step = sample_release_step [of sample_sys "RAID1_OPS sample_env"]
  show ?thesis
    using raid_writer_release_completes [OF sample_release_ok step] step
    by (simp add: completes_def sample_state_def sample_target_def)
qed

end
