(* ===== verification/Raid_Sizes.thy ===== *)
theory Raid_Sizes
  imports Raid_Accounting
begin

text \<open>
  The sizes of the extents of a split: what \<open>raid_writer_split_setup\<close> computes from the space left
  on the media, that the data extents hold exactly the bytes of the split, and that the rebuilder
  finds the same sizes again from the offsets of the splits.
\<close>

subsection \<open>The size of each extent\<close>

text \<open>The size of the extent of index \<open>i\<close> in a split of \<open>L\<close> bytes on \<open>n\<close> data extents.\<close>

definition share_size :: "nat \<Rightarrow> nat \<Rightarrow> nat \<Rightarrow> nat" where
  "share_size n L i = L div n + (if L mod n > 0 \<and> (i < L mod n \<or> n \<le> i) then 1 else 0)"

lemma sum_share_size: "0 < n \<Longrightarrow> sum_list (map (share_size n L) [0..<n]) = L"
proof -
  assume n: "0 < n"
  have "sum_list (map (share_size n L) [0..<k]) = k * (L div n) + min k (L mod n)" if "k \<le> n" for k
    using that
  proof (induction k)
    case (Suc k)
    then have "share_size n L k = L div n + (if k < L mod n then 1 else 0)" by (auto simp: share_size_def)
    then show ?case using Suc by auto
  qed simp
  then have "sum_list (map (share_size n L) [0..<n]) = n * (L div n) + min n (L mod n)" by simp
  also have "\<dots> = L" using n by (simp add: min.absorb2 less_imp_le)
  finally show ?thesis .
qed

lemma share_size_1: "share_size 1 L i = L"
  by (simp add: share_size_def)

lemma share_size_2: "share_size 2 L 0 = (L + 1) div 2" "share_size 2 L 1 = L div 2" "share_size 2 L 2 = (L + 1) div 2"
proof -
  have "(L + 1) div 2 = L div 2 + L mod 2" by presburger
  then show "share_size 2 L 0 = (L + 1) div 2" "share_size 2 L 1 = L div 2" "share_size 2 L 2 = (L + 1) div 2"
    by (auto simp: share_size_def mod2_eq_if)
qed

lemma share_size_parity: "i < n \<Longrightarrow> n \<le> j \<Longrightarrow> share_size n L i \<le> share_size n L j"
  by (simp add: share_size_def)

text \<open>The size and the remainder for a split of \<open>L\<close> bytes.\<close>

lemma set_extent_size_writer:
  assumes "raid_io_context_set_extent_size ty (L div n) (L mod n) ctx = Some ctx'" "ty \<noteq> PHO_PROC_REBUILDER"
    "n = ric_n_data_extents ctx" "L div n + 1 < size_max"
  shows "ctx' = ctx\<lparr>ric_out_extents := ric_out_extents ctx'\<rparr> \<and> length (ric_out_extents ctx') = length (ric_out_extents ctx) \<and>
    n_total_extents ctx \<le> length (ric_out_extents ctx) \<and>
    (\<forall>i < n_total_extents ctx. ric_out_extents ctx' ! i = (ric_out_extents ctx ! i)\<lparr>ext_size := share_size n L i\<rparr>)"
  using assms
  by (auto simp: raid_io_context_set_extent_size_def Let_def get_n_extents_def nth_append nth_enumerate_eq share_size_def size_add_exact
      split: if_splits)

text \<open>The loop that limits the size to the space left on every medium.\<close>

lemma limit_loop:
  "foldl (\<lambda>(es, rem) m. if we_avail_size m < es then (we_avail_size m, 0) else (es, rem)) (e0, r0) media = (es, rem) \<Longrightarrow>
   es \<le> e0 \<and> (\<forall>m \<in> set media. es \<le> we_avail_size m) \<and> (es = e0 \<and> rem = r0 \<or> es < e0 \<and> rem = 0 \<and> es \<in> we_avail_size ` set media)"
proof (induction media arbitrary: e0 r0)
  case (Cons m media)
  show ?case
  proof (cases "we_avail_size m < e0")
    case True
    have "foldl (\<lambda>(es, rem) m. if we_avail_size m < es then (we_avail_size m, 0) else (es, rem)) (we_avail_size m, 0) media = (es, rem)"
      using Cons.prems True by simp
    from Cons.IH [OF this] show ?thesis using True by auto
  next
    case False
    then show ?thesis using Cons.IH [of e0 r0] Cons.prems by auto
  qed
qed simp

lemma split_extent_size_spec:
  assumes "split_extent_size ctx proc media = Some (es, rem)" "n = ric_n_data_extents ctx" "off = ric_current_split_offset ctx"
    "dp_writer_offset proc = off" "off \<le> dp_object_size proc" "dp_object_size proc < size_max" "c = ric_current_split_chunk_size ctx"
  shows "\<exists>L. 0 < n \<and> es = L div n \<and> rem = L mod n \<and> off + L \<le> dp_object_size proc \<and>
    (\<forall>m \<in> set (take (n_total_extents ctx) media). es \<le> we_avail_size m) \<and>
    (off + L = dp_object_size proc \<or> L = es * n \<and> (c dvd es \<or> es < c \<and> es \<in> we_avail_size ` set (take (n_total_extents ctx) media))) \<and>
    (off < dp_object_size proc \<and> (\<forall>m \<in> set (take (n_total_extents ctx) media). 0 < we_avail_size m) \<longrightarrow> 0 < L)"
proof -
  define media' where "media' = take (n_total_extents ctx) media"
  define remain where "remain = dp_object_size proc - off"
  have n: "0 < n" using assms(1,2) by (auto simp: split_extent_size_def Let_def split: if_splits)
  obtain e1 r1 where loop: "foldl (\<lambda>(es, rem) m. if we_avail_size m < es then (we_avail_size m, 0) else (es, rem))
      (remain div n, remain mod n) media' = (e1, r1)" by (cases "foldl (\<lambda>(es, rem) m. if we_avail_size m < es then (we_avail_size m, 0) else (es, rem))
      (remain div n, remain mod n) media'")
  note lim = limit_loop [OF loop]
  have "e1 * n \<le> remain div n * n" using lim by simp
  then have e1: "e1 * n + r1 \<le> remain" using lim div_mult_mod_eq [of remain n] by linarith
  then have whole: "size_add (size_add off (size_mul e1 n)) r1 = off + e1 * n + r1"
    using assms(5,6) by (simp add: size_add_def size_mul_def remain_def)
  have res: "(if c < e1 \<and> dp_object_size proc \<noteq> off + e1 * n + r1 then (if c = 0 then None else Some (e1 - e1 mod c, r1)) else Some (e1, r1)) = Some (es, rem)"
    using assms(1,5) n loop whole
    by (auto simp: split_extent_size_def Let_def assms(2,3,4,7) [symmetric] size_sub_exact remain_def media'_def split: if_splits)
  show ?thesis
  proof (cases "e1 = remain div n \<and> r1 = remain mod n")
    case True
    then have "off + e1 * n + r1 = dp_object_size proc" using assms(5) by (simp add: remain_def)
    then have "es = remain div n" "rem = remain mod n" using res True by auto
    then show ?thesis
      using n lim True assms(5) unfolding media'_def [symmetric] by (intro exI [of _ remain]) (auto simp: remain_def)
  next
    case False
    then have l: "e1 < remain div n" "r1 = 0" "e1 \<in> we_avail_size ` set media'" using lim by auto
    then have "e1 * n < remain div n * n" using n by simp
    then have "e1 * n < remain" using div_mult_mod_eq [of remain n] by linarith
    then have "off + e1 * n + r1 \<noteq> dp_object_size proc" using l(2) by (simp add: remain_def)
    then have es: "rem = 0" "es = (if c < e1 then e1 - e1 mod c else e1)" "c < e1 \<Longrightarrow> 0 < c" using res l(2) by (auto split: if_splits)
    have le: "es \<le> e1" using es(2) by auto
    have "c dvd es \<or> es < c \<and> es \<in> we_avail_size ` set media'"
      using es(2) l(3) by (cases "c < e1"; cases "e1 = c") (auto simp: minus_mod_eq_mult_div)
    moreover have "es * n \<le> remain" using le e1 l(2) by (metis add.right_neutral mult_le_mono1 order_trans)
    moreover have "0 < es" if "\<forall>m \<in> set media'. 0 < we_avail_size m"
    proof -
      have "0 < e1" using l(3) that by auto
      moreover have "e1 mod c < e1" if "c < e1" using that es(3) by (meson less_trans mod_less_divisor)
      ultimately show ?thesis using es(2) by auto
    qed
    ultimately show ?thesis
      using n es(1) lim le assms(5) unfolding media'_def [symmetric] by (intro exI [of _ "es * n"]) (auto simp: remain_def)
  qed
qed


text \<open>
  C20. A split that the writer sets up starts where the last one ended and stays inside the
  object. Its data extents share its bytes, and every parity extent is as large as the largest data
  extent. Unless it ends the object, no extent is larger than the space left on any of the
  allocated media; an extent of the last split may need one byte more. When some space is left on
  every medium, the split is not empty.
\<close>

theorem writer_split_sizes:
  assumes "split_extent_size ctx proc media = Some (es, rem)" "raid_io_context_set_extent_size ty es rem ctx = Some ctx'"
    and "ty \<noteq> PHO_PROC_REBUILDER" "dp_writer_offset proc = ric_current_split_offset ctx"
    and "dp_writer_offset proc \<le> dp_object_size proc" "dp_object_size proc + 1 < size_max"
  shows "\<exists>L. dp_writer_offset proc + L \<le> dp_object_size proc \<and>
    map ext_size (take (n_total_extents ctx) (ric_out_extents ctx')) = map (share_size (ric_n_data_extents ctx) L) [0..<n_total_extents ctx] \<and>
    sum_list (map ext_size (take (ric_n_data_extents ctx) (ric_out_extents ctx'))) = L \<and>
    (\<forall>i < n_total_extents ctx. \<forall>m \<in> set (take (n_total_extents ctx) media).
       ext_size (ric_out_extents ctx' ! i) \<le> we_avail_size m + (if dp_writer_offset proc + L = dp_object_size proc then 1 else 0)) \<and>
    (dp_writer_offset proc < dp_object_size proc \<and> (\<forall>m \<in> set (take (n_total_extents ctx) media). 0 < we_avail_size m) \<longrightarrow> 0 < L)"
proof -
  define n where "n = ric_n_data_extents ctx"
  obtain L where L: "0 < n" "es = L div n" "rem = L mod n" "dp_writer_offset proc + L \<le> dp_object_size proc"
    "\<forall>m \<in> set (take (n_total_extents ctx) media). es \<le> we_avail_size m"
    "dp_writer_offset proc + L = dp_object_size proc \<or> L = es * n"
    "dp_writer_offset proc < dp_object_size proc \<and> (\<forall>m \<in> set (take (n_total_extents ctx) media). 0 < we_avail_size m) \<longrightarrow> 0 < L"
    using split_extent_size_spec [OF assms(1) n_def refl assms(4) _ _ refl] assms(4-6) by auto
  have small: "L div n + 1 < size_max" using L(4) assms(6) div_le_dividend [of L n] by linarith
  note S = set_extent_size_writer [OF assms(2) [unfolded L(2,3)] assms(3) n_def small]
  have sizes: "ext_size (ric_out_extents ctx' ! i) = share_size n L i" if "i < n_total_extents ctx" for i
    using S that by simp
  have len: "n_total_extents ctx \<le> length (ric_out_extents ctx')" "n \<le> n_total_extents ctx"
    using S by (simp_all add: n_def n_total_extents_def)
  have take: "map ext_size (take k (ric_out_extents ctx')) = map (share_size n L) [0..<k]" if "k \<le> n_total_extents ctx" for k
    using that len(1) sizes by (intro nth_equalityI) auto
  have "ext_size (ric_out_extents ctx' ! i) \<le> we_avail_size m + (if dp_writer_offset proc + L = dp_object_size proc then 1 else 0)"
    if "i < n_total_extents ctx" "m \<in> set (take (n_total_extents ctx) media)" for i m
  proof -
    have "share_size n L i \<le> es + (if L mod n = 0 then 0 else 1)" by (simp add: share_size_def L(2))
    moreover have "L mod n = 0" if "dp_writer_offset proc + L \<noteq> dp_object_size proc" using L(6) that by simp
    moreover have "es \<le> we_avail_size m" using L(5) that(2) by blast
    ultimately show ?thesis using sizes [OF that(1)] by (auto split: if_splits)
  qed
  then show ?thesis
    using L(4,7) take [OF order_refl] take [OF len(2)] sum_share_size [OF L(1), of L]
    unfolding n_def [symmetric] by (intro exI [of _ L]) simp
qed

subsection \<open>The rebuilder finds the same sizes\<close>

text \<open>
  C21. The rebuilder gives an extent the size it was written with. For the split that starts at
  \<open>off\<close> and has \<open>L\<close> bytes, which the layout shows by the offset of the next split, or by the end
  of the object when there is none, the extent of index \<open>i\<close> in the split gets the size that the
  writer gave to the extent \<open>i\<close> of a split of \<open>L\<close> bytes.
\<close>

theorem rebuilt_extent_size:
  assumes "rebuilder_get_extent_size lyt object_size ctx = Some ctx1"
    and "raid_io_context_set_extent_size PHO_PROC_REBUILDER (ric_rebuild_extent_size ctx1) (ric_extent_remainder ctx1) ctx1 = Some ctx2"
    and "off = ric_current_split_offset ctx" "off + L \<le> object_size" "object_size + 1 < size_max"
    and "case find (\<lambda>e. \<not> c_size (ext_layout_idx e) < (ric_current_split ctx + 1) * n_total_extents ctx) (lyt_extents lyt) of
           None \<Rightarrow> off + L = object_size | Some e \<Rightarrow> ext_offset e = off + L"
    and "j < ric_missing_count ctx" "ext_layout_idx (ric_out_extents ctx ! j) = int (ric_current_split ctx * n_total_extents ctx + i)"
    and "i < n_total_extents ctx" "(ric_current_split ctx + 1) * n_total_extents ctx < size_max"
  shows "ext_size (ric_out_extents ctx2 ! j) = share_size (ric_n_data_extents ctx) L i \<and> ric_current_split_size ctx1 = L"
proof -
  define n t where "n = ric_n_data_extents ctx" and "t = n_total_extents ctx"
  have size: "raid_get_current_split_size lyt t (ric_current_split ctx) off object_size = L"
    using assms(4,6) by (auto simp: raid_get_current_split_size_def Let_def size_sub_exact t_def split: option.splits)
  have n: "0 < n" and ctx1: "ctx1 = ctx\<lparr>ric_current_split_size := L, ric_rebuild_extent_size := L div n, ric_extent_remainder := L mod n\<rparr>"
    using assms(1) size by (auto simp: rebuilder_get_extent_size_def Let_def n_def t_def assms(3) [symmetric] split: if_splits)
  have t: "n_total_extents ctx1 = t" by (simp add: ctx1 t_def n_total_extents_def)
  have "ric_current_split ctx * t + i < size_max" using assms(9,10) by (simp add: t_def)
  then have "c_size (int (ric_current_split ctx * t + i)) = ric_current_split ctx * t + i"
    by (intro c_size_index) (simp add: size_max_def)
  then have "c_size (int (ric_current_split ctx * t + i)) mod t = i"
    using assms(9) by (simp add: t_def)
  moreover have "L div n + 1 < size_max" using assms(4,5) div_le_dividend [of L n] by linarith
  ultimately have "ext_size (ric_out_extents ctx2 ! j) = share_size n L i"
    using assms(2,7,8)
    by (auto simp: raid_io_context_set_extent_size_def Let_def get_n_extents_def t [unfolded ctx1] ctx1 nth_append nth_enumerate_eq share_size_def
        size_add_exact n_def [symmetric] t_def [symmetric] split: if_splits)
  then show ?thesis by (simp add: n_def ctx1)
qed


definition sample_elt :: "string \<Rightarrow> nat \<Rightarrow> write_elt" where
  "sample_elt nm avail = \<lparr>we_med_id = sample_medium nm, we_avail_size = avail, we_root_path = ''/m'', we_fs_type = PHO_FS_POSIX,
     we_addr_type = PHO_ADDR_HASH1\<rparr>"

lemmas sample_sizes = sample_ctx_def sample_proc_def sample_elt_def n_total_extents_def get_n_extents_def size_sub_def size_mul_def
  size_add_def size_max_def

theorem writer_split_sizes_witness:
  "\<exists>ctx'. raid_io_context_set_extent_size PHO_PROC_ENCODER 2 0 (sample_ctx [[], [], []] [extent_zero, extent_zero, extent_zero] 2 0) = Some ctx' \<and>
     map ext_size (take 3 (ric_out_extents ctx')) = map (share_size 2 (sum_list (map ext_size (take 2 (ric_out_extents ctx'))))) [0..<3] \<and>
     0 < sum_list (map ext_size (take 2 (ric_out_extents ctx'))) \<and> sum_list (map ext_size (take 2 (ric_out_extents ctx'))) \<le> 9"
proof -
  let ?ctx = "sample_ctx [[], [], []] [extent_zero, extent_zero, extent_zero] 2 0"
  let ?media = "[sample_elt ''a'' 3, sample_elt ''b'' 5, sample_elt ''c'' 5]"
  obtain ctx' where c: "raid_io_context_set_extent_size PHO_PROC_ENCODER 2 0 ?ctx = Some ctx'"
    by (simp add: raid_io_context_set_extent_size_def sample_sizes Let_def)
  have "split_extent_size ?ctx (sample_proc [] 9 0) ?media = Some (2, 0)"
    by (simp add: split_extent_size_def sample_sizes Let_def)
  from writer_split_sizes [OF this c] have
    "map ext_size (take 3 (ric_out_extents ctx')) = map (share_size 2 (sum_list (map ext_size (take 2 (ric_out_extents ctx'))))) [0..<3] \<and>
     0 < sum_list (map ext_size (take 2 (ric_out_extents ctx'))) \<and> sum_list (map ext_size (take 2 (ric_out_extents ctx'))) \<le> 9"
    by (simp add: sample_sizes)
  with c show ?thesis by blast
qed

theorem rebuilt_extent_size_witness:
  "\<exists>ctx1 ctx2. rebuilder_get_extent_size (sample_layout [(1, 3), (2, 3)]) 5
       ((sample_ctx [[]] [sample_extent 0 0] 2 0)\<lparr>ric_missing_count := 1\<rparr>) = Some ctx1 \<and>
     raid_io_context_set_extent_size PHO_PROC_REBUILDER (ric_rebuild_extent_size ctx1) (ric_extent_remainder ctx1) ctx1 = Some ctx2 \<and>
     ext_size (ric_out_extents ctx2 ! 0) = 3"
proof -
  let ?ctx = "(sample_ctx [[]] [sample_extent 0 0] 2 0)\<lparr>ric_missing_count := 1\<rparr>" and ?lyt = "sample_layout [(1, 3), (2, 3)]"
  have next_split: "find (\<lambda>e. \<not> c_size (ext_layout_idx e) < (ric_current_split ?ctx + 1) * n_total_extents ?ctx) (lyt_extents ?lyt) = None"
    by (simp add: sample_layout_def sample_extent_def sample_ctx_def n_total_extents_def c_size_def)
  have find: "find (\<lambda>e. \<not> c_size (ext_layout_idx e) < 3) (lyt_extents ?lyt) = None"
    using next_split by (simp add: sample_ctx_def n_total_extents_def)
  obtain ctx1 where 1: "rebuilder_get_extent_size ?lyt 5 ?ctx = Some ctx1"
    by (simp add: rebuilder_get_extent_size_def sample_ctx_def Let_def)
  then have c1: "ctx1 = ?ctx\<lparr>ric_current_split_size := 5, ric_rebuild_extent_size := 2, ric_extent_remainder := 1\<rparr>"
    using find by (simp add: rebuilder_get_extent_size_def raid_get_current_split_size_def sample_sizes Let_def)
  obtain ctx2 where 2: "raid_io_context_set_extent_size PHO_PROC_REBUILDER (ric_rebuild_extent_size ctx1) (ric_extent_remainder ctx1) ctx1 = Some ctx2"
    by (simp add: c1 raid_io_context_set_extent_size_def sample_sizes Let_def)
  have "ext_size (ric_out_extents ctx2 ! 0) = share_size 2 5 0"
    using rebuilt_extent_size [OF 1 2, of 0 5 0 0] next_split
    by (simp add: sample_ctx_def n_total_extents_def sample_extent_def size_max_def)
  then show ?thesis using 1 2 by (simp add: share_size_def)
qed


end
