(* ===== verification/Raid_Frames.thy ===== *)
theory Raid_Frames
  imports Raid_Ops
begin

text \<open>
  What the write operations of the layouts leave unchanged, on success and on every error: they only
  touch the descriptors, the hashes, the buffer and the offsets of the writer, and note the end of the
  object only when it is reached.
\<close>

definition ctx_write_frame :: "'f raid_io_context \<Rightarrow> 'f raid_io_context \<Rightarrow> bool" where
  "ctx_write_frame ctx ctx' \<longleftrightarrow>
     ctx' = ctx\<lparr>ric_iods := ric_iods ctx', ric_hashes := ric_hashes ctx'\<rparr> \<and>
     length (ric_iods ctx') = length (ric_iods ctx) \<and> length (ric_hashes ctx') = length (ric_hashes ctx)"

definition proc_write_frame :: "rc \<Rightarrow> data_processor \<Rightarrow> data_processor \<Rightarrow> bool" where
  "proc_write_frame rc proc p \<longleftrightarrow>
     p = proc\<lparr>dp_buff := dp_buff p, dp_writer_offset := dp_writer_offset p, dp_buffer_offset := dp_buffer_offset p,
              dp_xd_rc := dp_xd_rc p, dp_xt_rc := dp_xt_rc p\<rparr> \<and>
     length (dp_xt_rc p) = length (dp_xt_rc proc) \<and> length (dp_buff p) = length (dp_buff proc) \<and>
     (rc = 0 \<longrightarrow> dp_xd_rc p = dp_xd_rc proc \<and> dp_xt_rc p = dp_xt_rc proc)"

definition frames :: "data_processor \<Rightarrow> 'f raid_io_context \<Rightarrow> 'f raid_res \<Rightarrow> bool" where
  "frames proc ctx r \<longleftrightarrow> (\<forall>rc p ctx'. r = Some (rc, p, ctx') \<longrightarrow> ctx_write_frame ctx ctx' \<and> proc_write_frame rc proc p)"

lemma ctx_write_frame_refl [simp]: "ctx_write_frame ctx ctx"
  by (simp add: ctx_write_frame_def)

lemma proc_write_frame_refl [simp]: "proc_write_frame rc proc proc"
  by (simp add: proc_write_frame_def)

lemma ctx_write_frame_trans: "ctx_write_frame a b \<Longrightarrow> ctx_write_frame b c \<Longrightarrow> ctx_write_frame a c"
  by (cases a; cases b; cases c) (auto simp: ctx_write_frame_def)

lemma proc_write_frame_trans: "proc_write_frame 0 a b \<Longrightarrow> proc_write_frame rc b c \<Longrightarrow> proc_write_frame rc a c"
  by (cases a; cases b; cases c) (auto simp: proc_write_frame_def)

lemma ctx_write_frameD:
  assumes "ctx_write_frame ctx ctx'"
  shows "ric_current_split ctx' = ric_current_split ctx" "ric_current_split_size ctx' = ric_current_split_size ctx"
    "ric_current_split_offset ctx' = ric_current_split_offset ctx" "ric_current_split_chunk_size ctx' = ric_current_split_chunk_size ctx"
    "ric_n_data_extents ctx' = ric_n_data_extents ctx" "ric_n_parity_extents ctx' = ric_n_parity_extents ctx"
    "ric_out_extents ctx' = ric_out_extents ctx" "length (ric_iods ctx') = length (ric_iods ctx)"
    "length (ric_hashes ctx') = length (ric_hashes ctx)" "n_total_extents ctx' = n_total_extents ctx"
  using assms by (cases ctx; cases ctx'; simp add: ctx_write_frame_def n_total_extents_def)+

lemma proc_write_frameD:
  assumes "proc_write_frame rc proc p"
  shows "dp_type p = dp_type proc" "dp_done p = dp_done proc" "dp_current_target p = dp_current_target proc"
    "dp_object_size p = dp_object_size proc" "dp_reader_offset p = dp_reader_offset proc"
    "dp_reader_stripe_size p = dp_reader_stripe_size proc" "dp_writer_stripe_size p = dp_writer_stripe_size proc"
    "dp_io_block_size p = dp_io_block_size proc" "length (dp_xt_rc p) = length (dp_xt_rc proc)"
    "length (dp_buff p) = length (dp_buff proc)"
    "rc = 0 \<Longrightarrow> dp_xd_rc p = dp_xd_rc proc" "rc = 0 \<Longrightarrow> dp_xt_rc p = dp_xt_rc proc"
  using assms by (cases proc; cases p; simp add: proc_write_frame_def)+

lemma frames_Some [simp]: "frames proc ctx (Some (rc, p, c)) \<longleftrightarrow> ctx_write_frame ctx c \<and> proc_write_frame rc proc p"
  by (simp add: frames_def)

lemma frames_None [simp]: "frames proc ctx None"
  by (simp add: frames_def)

lemma frames_seq:
  assumes "frames proc ctx r" "\<And>p c. frames p c (k p c)"
  shows "frames proc ctx (seq_res r k)"
proof -
  have "frames proc ctx (k p c)" if "ctx_write_frame ctx c" "proc_write_frame 0 proc p" for p c
    using assms(2) [of p c] that ctx_write_frame_trans [of ctx c] proc_write_frame_trans [of proc p] unfolding frames_def by blast
  then show ?thesis
    using assms(1) by (cases r) (auto simp: seq_res_def)
qed

lemma frames_if: "(b \<Longrightarrow> frames proc ctx r) \<Longrightarrow> (\<not> b \<Longrightarrow> frames proc ctx r') \<Longrightarrow> frames proc ctx (if b then r else r')"
  by simp

text \<open>The same, for an operation that may note that the object is written.\<close>

definition write_frames :: "data_processor \<Rightarrow> 'f raid_io_context \<Rightarrow> 'f raid_res \<Rightarrow> bool" where
  "write_frames proc ctx r \<longleftrightarrow> (\<forall>rc p ctx'. r = Some (rc, p, ctx') \<longrightarrow> proc_write_frame rc proc p \<and>
     ctx_write_frame ctx (ctx'\<lparr>ric_all_is_written := ric_all_is_written ctx\<rparr>) \<and>
     (ric_all_is_written ctx' \<longrightarrow> ric_all_is_written ctx \<or> dp_object_size p \<le> dp_writer_offset p))"

lemma n_total_all_written [simp]: "n_total_extents (ctx\<lparr>ric_all_is_written := b\<rparr>) = n_total_extents ctx"
  by (simp add: n_total_extents_def)

lemma write_framesD:
  assumes "write_frames proc ctx (Some (rc, p, ctx'))"
  shows "proc_write_frame rc proc p" "ctx_write_frame ctx (ctx'\<lparr>ric_all_is_written := ric_all_is_written ctx\<rparr>)"
    "ric_all_is_written ctx' \<Longrightarrow> ric_all_is_written ctx \<or> dp_object_size p \<le> dp_writer_offset p"
  using assms by (simp_all add: write_frames_def)

lemma write_frames_seq:
  assumes "frames proc ctx r"
  shows "write_frames proc ctx
     (seq_res r (\<lambda>p ctx. Some (0, p, if dp_writer_offset p \<ge> dp_object_size p then ctx\<lparr>ric_all_is_written := True\<rparr> else ctx)))"
proof (cases r)
  case (Some x)
  obtain rc p c where x: "x = (rc, p, c)" by (cases x)
  have f: "ctx_write_frame ctx c" "proc_write_frame rc proc p" using assms Some x by simp_all
  have c: "ctx_write_frame ctx (c\<lparr>ric_all_is_written := ric_all_is_written ctx\<rparr>)" "ric_all_is_written c = ric_all_is_written ctx"
    using f(1) by (cases ctx; cases c; simp add: ctx_write_frame_def)+
  show ?thesis
    using c f(2) by (cases "rc = 0"; cases "dp_writer_offset p \<ge> dp_object_size p") (simp_all add: write_frames_def seq_res_def Some x)
qed (simp add: seq_res_def write_frames_def)

lemma write_frames_None [simp]: "write_frames proc ctx None"
  by (simp add: write_frames_def)

subsection \<open>One extent\<close>

lemma write_from_buff_frame:
  assumes "data_processor_write_from_buff io_write proc iod n off = Some (rc, p, iod')"
  shows "proc_write_frame rc proc p"
  using assms by (auto simp: data_processor_write_from_buff_def proc_write_frame_def set_error_def Let_def split: option.splits prod.splits if_splits)

lemma write_hash_frame:
  "frames proc ctx
     (case data_processor_write_from_buff io_write proc iod0 n off of
        None \<Rightarrow> None
      | Some (rc, p, iod) \<Rightarrow>
          if rc \<noteq> 0 then Some (rc, p, ctx\<lparr>ric_iods := (ric_iods ctx)[i := iod]\<rparr>)
          else
            let ctx1 = ctx\<lparr>ric_iods := (ric_iods ctx)[i := f iod]\<rparr> in
            (case buf_get (dp_buff p) pos m of
               None \<Rightarrow> None
             | Some bs \<Rightarrow>
                 let (rc, h) = extent_hash_update env (ric_hashes ctx1 ! i) bs in
                 Some (rc, p, ctx1\<lparr>ric_hashes := (ric_hashes ctx1)[i := h]\<rparr>)))"
proof (cases "data_processor_write_from_buff io_write proc iod0 n off")
  case None
  then show ?thesis by simp
next
  case (Some r)
  then obtain rc p iod where r: "data_processor_write_from_buff io_write proc iod0 n off = Some (rc, p, iod)"
    by (cases r) auto
  note f = write_from_buff_frame [OF r]
  show ?thesis
  proof (cases "rc = 0")
    case True
    then have "proc_write_frame rc' proc p" for rc' using f by (auto simp: proc_write_frame_def)
    then show ?thesis using r True by (auto simp: ctx_write_frame_def Let_def split: option.splits prod.splits)
  next
    case False
    then show ?thesis using r f by (auto simp: ctx_write_frame_def)
  qed
qed

lemma write_and_hash_frame: "frames proc ctx (write_and_hash env proc ctx i n off)"
  unfolding write_and_hash_def by (rule write_hash_frame)

subsection \<open>RAID1\<close>

lemma write_replicas_frame: "frames proc ctx (write_replicas env to_write is proc ctx)"
  by (induction "is" arbitrary: proc ctx) (auto intro!: frames_seq write_and_hash_frame)

lemma buffer_offset_frame: "frames p c (Some (0, if b then p\<lparr>dp_buffer_offset := x\<rparr> else p, c))"
  by (simp add: proc_write_frame_def)

lemma raid1_write_frame: "write_frames proc ctx (raid1_write_from_buff env proc ctx)"
  unfolding raid1_write_from_buff_def common_write_from_buff_def Let_def
  by (cases "ric_out_extents ctx = []")
    (auto intro!: write_frames_seq frames_seq write_replicas_frame simp: proc_write_frame_def)

subsection \<open>RAID4\<close>

lemma raid4_write_extent_frame: "frames proc ctx (raid4_write_extent_from_buff env proc ctx ei to_write offset hash_pos)"
  unfolding raid4_write_extent_from_buff_def Let_def [of "raid4_iod_idx proc ei"] by (intro frames_if write_hash_frame frames_None)

lemma frames_buff: "length buff = length (dp_buff proc) \<Longrightarrow> frames (proc\<lparr>dp_buff := buff\<rparr>) ctx r \<Longrightarrow> frames proc ctx r"
  by (cases proc) (auto simp: frames_def proc_write_frame_def)

lemma raid4_write_parity_frame: "frames proc ctx (raid4_write_parity env start t0 t1 proc ctx)"
proof -
  have "frames proc ctx (raid4_write_extent_from_buff env (proc\<lparr>dp_buff := buff\<rparr>) ctx 2 t0 t0 (start + t0))"
    if "length buff = length (dp_buff proc)" for buff
    using frames_buff [OF that raid4_write_extent_frame] .
  then show ?thesis
    by (auto simp: raid4_write_parity_def memset_zero_def xor_in_place_def dest!: buf_put_length split: option.splits if_splits)
qed

lemma raid4_write_stripe_frame: "frames proc ctx (raid4_write_stripe env target t0 t1 proc ctx)"
  unfolding raid4_write_stripe_def Let_def
  by (intro frames_seq frames_if raid4_write_extent_frame raid4_write_parity_frame) (simp_all add: proc_write_frame_def)

lemma raid4_stripes_loop_frame: "frames proc ctx (raid4_stripes_loop env target e0 e1 to_write proc ctx)"
proof -
  have "frames proc ctx (Some r)" if "raid4_stripes_loop env target e0 e1 to_write proc ctx = Some r" for r
  proof (rule raid4_stripes_loop.raw_induct [where P = "\<lambda>_ _ _ _ _ proc ctx r. frames proc ctx (Some r)", OF _ that], goal_cases)
    case (1 loop env target e0 e1 to_write proc ctx r)
    show ?case
    proof (cases "to_write = 0 \<or> \<not> raid4_iod_idx proc 1 < length (ric_iods ctx)")
      case True
      then show ?thesis using 1(2) by (cases r) (auto split: if_splits)
    next
      case False
      define t0 t1 where "t0 = stripe_size_0 proc ctx to_write e0" and "t1 = stripe_size_1 proc ctx to_write t0 e1"
      have "Option.bind (raid4_write_stripe env target t0 t1 proc ctx) (\<lambda>(rc, p, c).
          if rc \<noteq> 0 then Some (rc, p, c) else loop env target e0 e1 (size_sub to_write (size_add t0 t1)) p c) = Some r"
        using 1(2) False unfolding t0_def t1_def by (simp add: Let_def)
      then obtain rc p c where s: "raid4_write_stripe env target t0 t1 proc ctx = Some (rc, p, c)"
        and k: "(if rc \<noteq> 0 then Some (rc, p, c) else loop env target e0 e1 (size_sub to_write (size_add t0 t1)) p c) = Some r"
        by (elim bind_Some3E)
      have f: "ctx_write_frame ctx c" "proc_write_frame rc proc p"
        using raid4_write_stripe_frame [of proc ctx env target t0 t1] s by simp_all
      show ?thesis
      proof (cases "rc = 0")
        case True
        then have "frames p c (Some r)" using 1(1) k by simp
        then show ?thesis
          using f True by (cases r) (auto intro: ctx_write_frame_trans proc_write_frame_trans)
      next
        case False
        then show ?thesis using k f by auto
      qed
    qed
  qed
  then show ?thesis by (cases "raid4_stripes_loop env target e0 e1 to_write proc ctx") auto
qed

lemma raid4_write_frame: "write_frames proc ctx (raid4_write_from_buff env proc ctx)"
proof (cases "1 < length (ric_out_extents ctx)")
  case True
  show ?thesis
    unfolding raid4_write_from_buff_def raid4_write_stripes_from_buff_def Let_def if_P [OF True]
    by (intro write_frames_seq frames_seq raid4_stripes_loop_frame buffer_offset_frame)
qed (simp add: raid4_write_from_buff_def)

end
