(* ===== verification/Raid_Object.thy ===== *)
theory Raid_Object
  imports Raid_Frames Raid_Sizes
begin

text \<open>
  What a layout promises of the extents of an object. A \<open>layout_code\<close> gives the contents of the
  extents of a split as a function of its bytes. The locale \<open>raid_code\<close> is the contract between the
  operations of a layout and the code that both layouts share: it is interpreted on the
  operations of RAID1 and RAID4 with the POSIX adapter.
\<close>

subsection \<open>Codes\<close>

text \<open>
  \<open>code_content c S\<close> lists the contents of the extents of a split that holds the bytes \<open>S\<close>, with chunks
  of \<open>c\<close> bytes. \<open>code_strict\<close> says that the layout needs splits of whole stripes, and \<open>code_info\<close> what the
  layout notes in the attributes of an extent.
\<close>

record layout_code =
  code_n_data :: nat
  code_n_parity :: nat
  code_content :: "nat \<Rightarrow> byte list \<Rightarrow> byte list list"
  code_strict :: bool
  code_info :: "nat \<Rightarrow> pho_attrs \<Rightarrow> bool"

definition code_n_total :: "layout_code \<Rightarrow> nat" where
  "code_n_total K = code_n_data K + code_n_parity K"

definition RAID1_CODE :: "nat \<Rightarrow> layout_code" where
  "RAID1_CODE k = \<lparr>code_n_data = 1, code_n_parity = k, code_content = (\<lambda>c S. replicate (Suc k) S), code_strict = False, code_info = (\<lambda>c a. True)\<rparr>"

definition RAID4_CODE :: layout_code where
  "RAID4_CODE = \<lparr>code_n_data = 2, code_n_parity = 1, code_content = (\<lambda>c S. [r4_ext0 c S, r4_ext1 c S, r4_parity c S]), code_strict = True,
     code_info = (\<lambda>c a. pho_attr_get a ''raid4.chunk_size'' = Some (nat2str c))\<rparr>"

lemma code_simps [simp]:
  "code_n_data (RAID1_CODE k) = 1" "code_n_parity (RAID1_CODE k) = k" "code_content (RAID1_CODE k) c S = replicate (Suc k) S"
  "code_strict (RAID1_CODE k) = False" "code_info (RAID1_CODE k) c a = True" "code_n_total (RAID1_CODE k) = Suc k"
  "code_n_data RAID4_CODE = 2" "code_n_parity RAID4_CODE = 1"
  "code_content RAID4_CODE c S = [r4_ext0 c S, r4_ext1 c S, r4_parity c S]" "code_strict RAID4_CODE = True"
  "code_info RAID4_CODE c a = (pho_attr_get a ''raid4.chunk_size'' = Some (nat2str c))" "code_n_total RAID4_CODE = 3"
  by (simp_all add: RAID1_CODE_def RAID4_CODE_def code_n_total_def)

text \<open>The context of a writer has the shape of the code.\<close>

definition ctx_shape :: "layout_code \<Rightarrow> 'f raid_io_context \<Rightarrow> bool" where
  "ctx_shape K ctx \<longleftrightarrow> ric_n_data_extents ctx = code_n_data K \<and> ric_n_parity_extents ctx = code_n_parity K \<and>
     length (ric_iods ctx) = code_n_total K \<and> length (ric_hashes ctx) = code_n_total K \<and> length (ric_out_extents ctx) = code_n_total K"

lemma ctx_shape_total: "ctx_shape K ctx \<Longrightarrow> n_total_extents ctx = code_n_total K"
  by (simp add: ctx_shape_def n_total_extents_def code_n_total_def)

text \<open>A writer inside a split: its extents have received the contents of the bytes of the split written so far.\<close>

definition split_state ::
  "layout_code \<Rightarrow> ('f \<Rightarrow> byte list) \<Rightarrow> ('f \<Rightarrow> bool) \<Rightarrow> byte list \<Rightarrow> data_processor \<Rightarrow> 'f raid_io_context \<Rightarrow> bool" where
  "split_state K written writable D proc ctx \<longleftrightarrow>
     (let c = ric_current_split_chunk_size ctx; off = ric_current_split_offset ctx; L = ric_current_split_size ctx; w = dp_writer_offset proc
      in \<not> is_rebuilder proc \<and> offsets_order D proc \<and> pending D proc \<and> (code_strict K \<longrightarrow> stripes_aligned D proc ctx) \<and> 0 < c \<and>
         off + L \<le> length D \<and> off \<le> w \<and> w \<le> off + L \<and> ctx_shape K ctx \<and>
         (\<forall>i < code_n_total K. ext_size (ric_out_extents ctx ! i) = share_size (code_n_data K) L i) \<and>
         extents_are written writable ctx (code_content K c (take (w - off) (drop off D))))"

text \<open>A context whose extents and descriptors only got attributes.\<close>

definition extra_frame :: "(extent \<Rightarrow> bool) \<Rightarrow> 'f raid_io_context \<Rightarrow> 'f raid_io_context \<Rightarrow> bool" where
  "extra_frame info ctx ctx' \<longleftrightarrow>
     ctx' = ctx\<lparr>ric_out_extents := ric_out_extents ctx', ric_iods := ric_iods ctx'\<rparr> \<and>
     list_all2 (\<lambda>e e'. e' = e\<lparr>ext_info := ext_info e'\<rparr> \<and> info e') (ric_out_extents ctx) (ric_out_extents ctx') \<and>
     list_all2 (\<lambda>d d'. d' = d\<lparr>iod_attrs := iod_attrs d'\<rparr>) (ric_iods ctx) (ric_iods ctx')"

locale raid_code = raid_adapter env unread readable written writable
  for env :: "'f raid_env" and unread readable written writable +
  fixes ops :: "'f raid_ops" and K :: layout_code
  assumes n_data: "0 < code_n_data K"
    and strict_data: "code_strict K \<Longrightarrow> code_n_data K = 2"
    and content_length: "length (code_content K c S) = code_n_total K"
    and content_size: "0 < c \<Longrightarrow> i < code_n_total K \<Longrightarrow> length (code_content K c S ! i) = share_size (code_n_data K) (length S) i"
    and write_law: "split_state K written writable D proc ctx \<Longrightarrow>
      \<exists>rc p ctx'. op_write_from_buff ops proc ctx = Some (rc, p, ctx') \<and> rc \<le> 0 \<and>
        (rc = 0 \<longrightarrow> split_state K written writable D p ctx' \<and>
           dp_writer_offset p = min (ric_current_split_offset ctx + ric_current_split_size ctx) (dp_reader_offset proc) \<and>
           (dp_writer_offset p = length D \<longrightarrow> ric_all_is_written ctx'))"
    and write_frame: "write_frames proc ctx (op_write_from_buff ops proc ctx)"
    and extra_law: "ty \<noteq> PHO_PROC_REBUILDER \<Longrightarrow> ctx_shape K ctx \<Longrightarrow>
      \<exists>ctx'. op_set_extra_attrs ops ty ctx = Some (0, ctx') \<and> extra_frame (\<lambda>e. code_info K (ric_current_split_chunk_size ctx) (ext_info e)) ctx ctx'"

subsection \<open>The two layouts keep the contract\<close>

lemma split_state_frames:
  assumes "split_state K written writable D proc ctx" "ctx_write_frame ctx (ctx'\<lparr>ric_all_is_written := b\<rparr>)" "proc_write_frame rc proc p"
    and "offsets_order D p" "pending D p" "code_strict K \<Longrightarrow> stripes_aligned D p ctx'"
    and "ric_current_split_offset ctx \<le> dp_writer_offset p" "dp_writer_offset p \<le> ric_current_split_offset ctx + ric_current_split_size ctx"
    and "extents_are written writable ctx' (code_content K (ric_current_split_chunk_size ctx)
           (take (dp_writer_offset p - ric_current_split_offset ctx) (drop (ric_current_split_offset ctx) D)))"
  shows "split_state K written writable D p ctx'"
  using assms by (simp add: split_state_def Let_def ctx_shape_def ctx_write_frameD [OF assms(2), simplified] proc_write_frameD [OF assms(3)] is_rebuilder_def)

lemma split_state_raid1:
  assumes "split_state (RAID1_CODE k) written writable D proc ctx"
  shows "r1_writer_inv written writable D proc ctx"
  using assms by (auto simp: split_state_def r1_writer_inv_def Let_def ctx_shape_def n_total_extents_def share_size_1 [simplified] simp del: replicate_Suc)

lemma split_state_raid4:
  assumes "split_state RAID4_CODE written writable D proc ctx"
  shows "r4_writer_inv written writable D proc ctx"
  using assms share_size_2(1,2) [of "ric_current_split_size ctx"]
  by (auto simp: split_state_def r4_writer_inv_def Let_def ctx_shape_def)

lemma raid1_extra_law:
  assumes "ty \<noteq> PHO_PROC_REBUILDER" "ctx_shape (RAID1_CODE k) ctx"
  shows "\<exists>ctx'. raid1_extra_attrs ty ctx = Some (0, ctx') \<and> extra_frame (\<lambda>e. code_info (RAID1_CODE k) c (ext_info e)) ctx ctx'"
  using assms by (auto simp: raid1_extra_attrs_def extra_frame_def ctx_shape_def n_total_extents_def get_n_extents_def Let_def list_all2_conv_all_nth)

lemma raid4_extra_law:
  assumes "ty \<noteq> PHO_PROC_REBUILDER" "ctx_shape RAID4_CODE ctx"
  shows "\<exists>ctx'. raid4_extra_attrs ty ctx = Some (0, ctx') \<and> extra_frame (\<lambda>e. code_info RAID4_CODE (ric_current_split_chunk_size ctx) (ext_info e)) ctx ctx'"
  using assms
  by (auto simp: raid4_extra_attrs_def set_raid4_md_def extra_frame_def ctx_shape_def n_total_extents_def get_n_extents_def Let_def
      list_all2_conv_all_nth set_extent_extra_attrs_def pho_attr_get_set)

lemma raid4_content_size:
  assumes "0 < c" "i < 3"
  shows "length ([r4_ext0 c S, r4_ext1 c S, r4_parity c S] ! i) = share_size 2 (length S) i"
proof -
  consider "i = 0" | "i = 1" | "i = 2" using assms(2) by linarith
  then show ?thesis by cases (simp_all add: r4_lengths [OF assms(1)] share_size_2 del: One_nat_def)
qed

context raid_adapter
begin

lemma raid1_write_law:
  assumes "split_state (RAID1_CODE k) written writable D proc ctx"
  shows "\<exists>rc p ctx'. raid1_write_from_buff env proc ctx = Some (rc, p, ctx') \<and> rc \<le> 0 \<and>
        (rc = 0 \<longrightarrow> split_state (RAID1_CODE k) written writable D p ctx' \<and>
           dp_writer_offset p = min (ric_current_split_offset ctx + ric_current_split_size ctx) (dp_reader_offset proc) \<and>
           (dp_writer_offset p = length D \<longrightarrow> ric_all_is_written ctx'))"
proof -
  obtain rc p ctx' where w: "raid1_write_from_buff env proc ctx = Some (rc, p, ctx')" "rc \<le> 0"
    and ok: "rc = 0 \<Longrightarrow> r1_writer_inv written writable D p ctx'"
      "rc = 0 \<Longrightarrow> dp_writer_offset p = min (ric_current_split_offset ctx + ric_current_split_size ctx) (dp_reader_offset proc)"
      "rc = 0 \<Longrightarrow> dp_writer_offset p = length D \<longrightarrow> ric_all_is_written ctx'"
    using r1_write_step [OF split_state_raid1 [OF assms]] by blast
  note f = write_framesD(2,1) [OF raid1_write_frame [of proc ctx env, unfolded w(1)]]
  have "n_total_extents ctx = Suc k" using assms ctx_shape_total [of "RAID1_CODE k" ctx] by (simp add: split_state_def Let_def)
  then have "split_state (RAID1_CODE k) written writable D p ctx'" if "rc = 0"
    using ok(1) [OF that]
    by (intro split_state_frames [OF assms f]) (simp_all add: r1_writer_inv_def Let_def ctx_write_frameD [OF f(1), simplified] del: replicate_Suc)
  then show ?thesis using w ok by blast
qed

lemma raid4_write_law:
  assumes "split_state RAID4_CODE written writable D proc ctx"
  shows "\<exists>rc p ctx'. raid4_write_from_buff env proc ctx = Some (rc, p, ctx') \<and> rc \<le> 0 \<and>
        (rc = 0 \<longrightarrow> split_state RAID4_CODE written writable D p ctx' \<and>
           dp_writer_offset p = min (ric_current_split_offset ctx + ric_current_split_size ctx) (dp_reader_offset proc) \<and>
           (dp_writer_offset p = length D \<longrightarrow> ric_all_is_written ctx'))"
proof -
  obtain rc p ctx' where w: "raid4_write_from_buff env proc ctx = Some (rc, p, ctx')" "rc \<le> 0"
    and ok: "rc = 0 \<Longrightarrow> r4_writer_inv written writable D p ctx'"
      "rc = 0 \<Longrightarrow> dp_writer_offset p = min (ric_current_split_offset ctx + ric_current_split_size ctx) (dp_reader_offset proc)"
      "rc = 0 \<Longrightarrow> dp_writer_offset p = length D \<longrightarrow> ric_all_is_written ctx'"
    using r4_write_step [OF split_state_raid4 [OF assms]] by blast
  note f = write_framesD(2,1) [OF raid4_write_frame [of proc ctx env, unfolded w(1)]]
  have "split_state RAID4_CODE written writable D p ctx'" if "rc = 0"
    using ok(1) [OF that]
    by (intro split_state_frames [OF assms f]) (simp_all add: r4_writer_inv_def Let_def ctx_write_frameD [OF f(1), simplified])
  then show ?thesis using w ok by blast
qed

end

interpretation raid1_posix: raid_code "posix_env md5 xxh128 hash_fails" posix_unread posix_readable fd_data posix_writable
  "RAID1_OPS (posix_env md5 xxh128 hash_fails)" "RAID1_CODE k" for md5 xxh128 hash_fails k
proof (unfold_locales, goal_cases)
  case (4 c i S)
  then show ?case by (simp add: share_size_1 [simplified] del: replicate_Suc)
next
  case 5
  then show ?case unfolding RAID1_OPS_def raid_ops.simps by (rule posix_raid.raid1_write_law)
next
  case 6
  then show ?case unfolding RAID1_OPS_def raid_ops.simps by (rule raid1_write_frame)
next
  case 7
  then show ?case unfolding RAID1_OPS_def raid_ops.simps by (rule raid1_extra_law)
qed simp_all

interpretation raid4_posix: raid_code "posix_env md5 xxh128 hash_fails" posix_unread posix_readable fd_data posix_writable
  "RAID4_OPS (posix_env md5 xxh128 hash_fails)" RAID4_CODE for md5 xxh128 hash_fails
proof (unfold_locales, goal_cases)
  case (4 c i S)
  then show ?case by (simp add: raid4_content_size)
next
  case 5
  then show ?case unfolding RAID4_OPS_def raid_ops.simps by (rule posix_raid.raid4_write_law)
next
  case 6
  then show ?case unfolding RAID4_OPS_def raid_ops.simps by (rule raid4_write_frame)
next
  case 7
  then show ?case unfolding RAID4_OPS_def raid_ops.simps by (rule raid4_extra_law)
qed simp_all

end
