(* ===== verification/Raid_Reader.thy ===== *)
theory Raid_Reader
  imports Raid_Split
begin

text \<open>
  The RAID reader (\<^verbatim>\<open>src/layout/raid_common.c\<close>): it asks the LRS for media of a split, opens the
  extents found on them, gives the bytes of the split to the buffer, checks the hashes at the end of
  the split and goes on with the next one.
\<close>

subsection \<open>Extents of the received media\<close>

text \<open>Media are compared by their name and their library.\<close>

definition same_medium :: "pho_id \<Rightarrow> pho_id \<Rightarrow> bool" where
  "same_medium a b \<longleftrightarrow> name a = name b \<and> library a = library b"

definition extent_index :: "layout_info \<Rightarrow> pho_id \<Rightarrow> int \<Rightarrow> int \<Rightarrow> nat option" where
  "extent_index lyt medium first_layout_index first_excluded_layout_index =
     find (\<lambda>i. let e = lyt_extents lyt ! i in
             first_layout_index \<le> ext_layout_idx e \<and> ext_layout_idx e < first_excluded_layout_index \<and> same_medium (ext_media e) medium)
       [0..<length (lyt_extents lyt)]"

definition split_extent_index :: "layout_info \<Rightarrow> pho_id \<Rightarrow> 'f raid_io_context \<Rightarrow> nat option" where
  "split_extent_index lyt medium ctx =
     extent_index lyt medium (c_int (int (ric_current_split ctx * n_total_extents ctx)))
       (c_int (int ((ric_current_split ctx + 1) * n_total_extents ctx)))"

definition find_extent :: "extent list \<Rightarrow> pho_id \<Rightarrow> nat option" where
  "find_extent extents medium = find (\<lambda>i. same_medium (ext_media (extents ! i)) medium) [0..<length extents]"

text \<open>
  The extents are sorted by layout index, and the media like their extents. Extents with equal
  indices are one extent found twice, so that the order of equal keys does not matter. The
  comparison of two media aborts when one of them has no extent.
\<close>

definition sort_extents_by_layout_index :: "read_elt list \<Rightarrow> extent list \<Rightarrow> (read_elt list \<times> extent list) option" where
  "sort_extents_by_layout_index media extents =
     (let sorted = sort_key ext_layout_idx extents in
      if 1 < length media \<and> list_ex (\<lambda>m. find_extent sorted (rd_med_id m) = None) media then None
      else Some (sort_key (\<lambda>m. case find_extent sorted (rd_med_id m) of None \<Rightarrow> 0 | Some i \<Rightarrow> i) media, sorted))"

text \<open>The loop on the media: the extents found until an error.\<close>

fun identify_extents :: "'f raid_sys \<Rightarrow> layout_info \<Rightarrow> 'f raid_io_context \<Rightarrow> read_elt list \<Rightarrow> rc \<times> extent list" where
  "identify_extents sys lyt ctx [] = (0, [])"
| "identify_extents sys lyt ctx (m # ms) =
     (let rc = sys_get_io_adapter sys (rd_fs_type m) in
      if rc \<noteq> 0 then (rc, [])
      else (case split_extent_index lyt (rd_med_id m) ctx of
          None \<Rightarrow> (- ENOMEDIUM, [])
        | Some i \<Rightarrow> let (rc, es) = identify_extents sys lyt ctx ms in (rc, lyt_extents lyt ! i # es)))"

fun open_read_extents ::
  "'f raid_sys \<Rightarrow> string \<Rightarrow> (read_elt \<times> extent) list \<Rightarrow> nat \<Rightarrow> 'f pho_io_descr list \<times> nat \<Rightarrow> (rc \<times> 'f pho_io_descr list \<times> nat) option" where
  "open_read_extents sys objid [] i (iods, n) = Some (0, iods, n)"
| "open_read_extents sys objid ((m, e) # mes) i (iods, n) =
     (if i < length iods then
        let (rc, f) = sys_open sys n objid \<lparr>loc_root_path = rd_root_path m, loc_extent = e, loc_addr_type = rd_addr_type m\<rparr> False;
            iods1 = iods[i := (iods ! i)\<lparr>iod_size := 0, iod_ctx := f\<rparr>]
        in if rc \<noteq> 0 then Some (rc, iods1, n + 1 + i) else open_read_extents sys objid mes (i + 1) (iods1, n + 1)
      else None)"

text \<open>The sizes of the open extents; the check stops at an adapter that cannot tell them.\<close>

fun check_extent_sizes :: "'f raid_sys \<Rightarrow> ('f pho_io_descr \<times> extent) list \<Rightarrow> rc" where
  "check_extent_sizes sys [] = 0"
| "check_extent_sizes sys ((iod, e) # rest) =
     (let size = sys_size sys (iod_ctx iod) in
      if size = - ENOTSUP then 0
      else if size < 0 then c_int size
      else if size \<noteq> int (ext_size e) then - EINVAL
      else check_extent_sizes sys rest)"

subsection \<open>Hashes of a split\<close>

text \<open>
  A hash of the reader at the start of a split, with the contexts freed at the end of the split
  before. Resetting a context that was freed and not created again has no result.
\<close>

definition start_hash :: "'f raid_env \<Rightarrow> extent \<Rightarrow> bool \<times> bool \<Rightarrow> extent_hash \<Rightarrow> (rc \<times> extent_hash) option" where
  "start_hash env e freed h =
     (let with_md5 = ext_md5 e \<noteq> None; with_xxh128 = ext_xxh128 e \<noteq> None; (rc, h1) = extent_hash_init env h with_md5 with_xxh128 in
      if rc \<noteq> 0 then Some (rc, h1)
      else if fst freed \<and> \<not> with_md5 \<or> snd freed \<and> \<not> with_xxh128 then None
      else Some (extent_hash_reset env h1))"

fun start_hashes :: "'f raid_env \<Rightarrow> extent list \<Rightarrow> (bool \<times> bool) list \<Rightarrow> extent_hash list \<Rightarrow> (rc \<times> extent_hash list) option" where
  "start_hashes env es freed [] = Some (0, [])"
| "start_hashes env (e # es) (f # freed) (h # hs) = do {
     (rc, h) \<leftarrow> start_hash env e f h;
     if rc \<noteq> 0 then Some (rc, h # hs) else do { (rc, hs) \<leftarrow> start_hashes env es freed hs; Some (rc, h # hs) }
   }"
| "start_hashes env _ _ (h # hs) = None"

text \<open>The end of a split: each hash is compared with the one stored with its extent, then freed.\<close>

fun check_hashes :: "'f raid_env \<Rightarrow> extent list \<Rightarrow> extent_hash list \<Rightarrow> rc \<times> extent_hash list" where
  "check_hashes env (e # es) (h # hs) =
     (let (rc, h) = extent_hash_digest env h in
      if rc \<noteq> 0 then (rc, h # hs)
      else if extent_hash_compare h e \<noteq> 0 then (extent_hash_compare h e, h # hs)
      else let (rc, hs) = check_hashes env es hs in (rc, h # hs))"
| "check_hashes env _ hs = (0, hs)"

subsection \<open>Start and end of a split\<close>

definition reader_seek :: "bool \<Rightarrow> 'f raid_processor \<Rightarrow> (bool \<times> 'f raid_processor) option" where
  "reader_seek update_offset s = do {
     let ctx = rp_reader s;
     r \<leftarrow> raid_seek_next_missing_split (rp_src_layout s) (rp_rebuild s) (n_total_extents ctx) (ric_current_split ctx);
     case r of
       Inl split \<Rightarrow> Some (False, s\<lparr>rp_reader := ctx\<lparr>ric_current_split := split\<rparr>\<rparr>)
     | Inr (split, n, off) \<Rightarrow>
         Some (True, s\<lparr>rp_reader := ctx\<lparr>ric_current_split := split, ric_current_split_offset := off\<rparr>,
                       rp_proc := (if update_offset then (rp_proc s)\<lparr>dp_reader_offset := off, dp_buffer_offset := off\<rparr> else rp_proc s)\<rparr>)
   }"

text \<open>The extents of the media, sorted and open; an error in between leaves what was done.\<close>

definition open_read_split :: "'f raid_sys \<Rightarrow> read_elt list \<Rightarrow> 'f raid_processor \<Rightarrow> 'f proc_res" where
  "open_read_split sys media s = do {
     let ctx = rp_reader s;
     let (rc, found) = identify_extents sys (rp_src_layout s) ctx media;
     if rc \<noteq> 0 then Some (rc, s\<lparr>rp_reader := ctx\<lparr>ric_read_extents := found @ drop (length found) (ric_read_extents ctx)\<rparr>\<rparr>)
     else if rp_targets s = [] then None
     else do {
       (media, extents) \<leftarrow> sort_extents_by_layout_index media found;
       (rc, iods, n) \<leftarrow> open_read_extents sys (xt_objid (hd (rp_targets s))) (zip media extents) 0 (ric_iods ctx, rp_calls s);
       Some (rc, s\<lparr>rp_read_resp := Some media, rp_reader := ctx\<lparr>ric_read_extents := extents, ric_iods := iods\<rparr>, rp_calls := n\<rparr>)
     }
   }"

text \<open>Once the extents are open: their sizes, the chunk size and the hashes.\<close>

definition prepare_read_split :: "'f raid_sys \<Rightarrow> 'f raid_ops \<Rightarrow> 'f raid_processor \<Rightarrow> 'f proc_res" where
  "prepare_read_split sys ops s = do {
     let ctx = rp_reader s;
     let rc = check_extent_sizes sys (zip (ric_iods ctx) (ric_read_extents ctx));
     if rc \<noteq> 0 then Some (rc, s)
     else do {
       (rc, chunk_size) \<leftarrow> op_get_reader_chunk_size ops (rp_src_layout s) (ric_current_split_chunk_size ctx);
       let ctx = ctx\<lparr>ric_current_split_chunk_size := chunk_size\<rparr>;
       if rc \<noteq> 0 then Some (rc, s\<lparr>rp_reader := ctx\<rparr>)
       else do {
         ctx \<leftarrow> choose_chunk_size sys (rp_proc s) (ric_n_data_extents ctx) ctx;
         let proc = rp_proc s;
         let stripe = (if dp_reader_stripe_size proc = 0 then size_mul (ric_current_split_chunk_size ctx) (ric_n_data_extents ctx)
                       else dp_reader_stripe_size proc);
         (rc, hashes) \<leftarrow> (if ric_check_hash ctx then start_hashes (sys_env sys) (ric_read_extents ctx) (rp_hash_freed s) (ric_hashes ctx)
                         else Some (0, ric_hashes ctx));
         Some (rc, s\<lparr>rp_proc := proc\<lparr>dp_reader_stripe_size := stripe\<rparr>, rp_reader := ctx\<lparr>ric_hashes := hashes\<rparr>\<rparr>)
       }
     }
   }"

definition read_split_size :: "'f raid_processor \<Rightarrow> size_t" where
  "read_split_size s =
     (let ctx = rp_reader s in
      min (foldl (\<lambda>total e. size_add total (ext_size e)) 0 (take (ric_n_data_extents ctx) (ric_read_extents ctx)))
          (size_sub (dp_object_size (rp_proc s)) (dp_reader_offset (rp_proc s))))"

definition raid_reader_split_setup :: "'f raid_sys \<Rightarrow> 'f raid_ops \<Rightarrow> read_elt list \<Rightarrow> 'f raid_processor \<Rightarrow> 'f proc_res" where
  "raid_reader_split_setup sys ops media s =
     (if length media \<noteq> ric_n_data_extents (rp_reader s) then Some (- EINVAL, s)
      else seq_proc (open_read_split sys media (s\<lparr>rp_read_resp := Some media\<rparr>))
        (\<lambda>s. do {
           (rc, s) \<leftarrow> prepare_read_split sys ops s;
           if rc \<noteq> 0 then Some (rc, s\<lparr>rp_calls := rp_calls s + length media\<rparr>)
           else Some (0, s\<lparr>rp_reader := (rp_reader s)\<lparr>ric_current_split_size := read_split_size s\<rparr>\<rparr>)
         }))"

text \<open>The descriptors are closed in order, up to the first that cannot be.\<close>

fun close_read_extents :: "'f raid_sys \<Rightarrow> 'f pho_io_descr list \<Rightarrow> nat \<Rightarrow> rc \<times> nat" where
  "close_read_extents sys [] n = (0, n)"
| "close_read_extents sys (iod # iods) n =
     (let rc = sys_close sys n (iod_ctx iod) in if rc \<noteq> 0 then (rc, n + 1) else close_read_extents sys iods (n + 1))"

definition raid_reader_split_fini :: "'f raid_sys \<Rightarrow> 'f raid_processor \<Rightarrow> 'f proc_res" where
  "raid_reader_split_fini sys s = do {
     let ctx = rp_reader s;
     let n = ric_n_data_extents ctx;
     if n > length (ric_iods ctx) \<or> n > length (ric_read_extents ctx) \<or> ric_check_hash ctx \<and> n > length (ric_hashes ctx) then None
     else do {
       let (rc, hashes) = (if ric_check_hash ctx then check_hashes (sys_env sys) (take n (ric_read_extents ctx)) (ric_hashes ctx)
                           else (0, ric_hashes ctx));
       let s1 = s\<lparr>rp_reader := ctx\<lparr>ric_hashes := hashes\<rparr>,
                  rp_hash_freed := (if ric_check_hash ctx then map (\<lambda>h. (eh_md5context h \<noteq> None, eh_xxh128context h \<noteq> None)) hashes
                                    else rp_hash_freed s)\<rparr>;
       if rc \<noteq> 0 then Some (rc, s1)
       else do {
         let (rc, calls) = close_read_extents sys (take n (ric_iods ctx)) (rp_calls s);
         if rc \<noteq> 0 then Some (rc, s1\<lparr>rp_calls := calls\<rparr>)
         else Some (0, s1\<lparr>rp_calls := calls,
                          rp_reader := (rp_reader s1)\<lparr>ric_current_split := ric_current_split ctx + 1,
                                                      ric_current_split_offset := dp_reader_offset (rp_proc s),
                                                      ric_current_split_chunk_size := 0\<rparr>\<rparr>)
       }
     }
   }"

subsection \<open>The step\<close>

definition reader_alloc_req :: "'f raid_processor \<Rightarrow> pho_req option" where
  "reader_alloc_req s =
     raid_reader_eraser_build_allocation_req (dp_type (rp_proc s)) (rp_src_layout s) (rp_rebuild s) (rp_src_copy_ctime s) (rp_reader s)"

definition read_release_req :: "rc \<Rightarrow> bool \<Rightarrow> read_elt list \<Rightarrow> pho_req" where
  "read_release_req rc stop_io media =
     ReqRelease (map (\<lambda>m. (release_elt_init (rd_med_id m))\<lparr>rel_rc := (if stop_io then 0 else rc)\<rparr>) media) True False"

text \<open>The first error of the transfer and of the target is kept.\<close>

definition keep_first_error :: "rc \<Rightarrow> data_processor \<Rightarrow> data_processor" where
  "keep_first_error rc proc =
     (if rc = 0 then proc
      else proc\<lparr>dp_xd_rc := (if dp_xd_rc proc = 0 then rc else dp_xd_rc proc),
                dp_xt_rc := (if target_rc proc = 0 then (dp_xt_rc proc)[dp_current_target proc := rc] else dp_xt_rc proc)\<rparr>)"

text \<open>From the label \<open>release\<close> to the end.\<close>

definition reader_release :: "rc \<Rightarrow> bool \<Rightarrow> bool \<Rightarrow> 'f raid_processor \<Rightarrow> (rc \<times> 'f raid_processor \<times> pho_req list) option" where
  "reader_release rc split_ended stop_io s = do {
     (has_next, s) \<leftarrow> (if rc = 0 \<and> split_ended \<and> is_rebuilder (rp_proc s) then reader_seek False s else Some (True, s));
     let need_new_alloc = (rc = 0 \<and> split_ended \<and> has_next \<and> dp_reader_offset (rp_proc s) < dp_object_size (rp_proc s));
     release \<leftarrow> (if rc \<noteq> 0 \<or> split_ended then do { media \<leftarrow> rp_read_resp s; Some [read_release_req rc stop_io media] } else Some []);
     alloc \<leftarrow> (if need_new_alloc then do { req \<leftarrow> reader_alloc_req s; Some [req] } else Some []);
     Some (rc, s\<lparr>rp_proc := keep_first_error rc (rp_proc s),
                 rp_need_alloc_to_read := (need_new_alloc \<or> rp_need_alloc_to_read s)\<rparr>, release @ alloc)
   }"

definition read_stage :: "'f raid_sys \<Rightarrow> 'f raid_ops \<Rightarrow> 'f raid_processor \<Rightarrow> (rc \<times> 'f raid_processor \<times> pho_req list) option" where
  "read_stage sys ops s =
     (if target_rc (rp_proc s) \<noteq> 0 then reader_release (target_rc (rp_proc s)) False True s
      else if dp_buff (rp_proc s) = [] then Some (0, s, [])
      else do {
        (rc, proc, ctx) \<leftarrow> op_read_into_buff ops (rp_proc s) (rp_reader s);
        let s1 = s\<lparr>rp_proc := proc, rp_reader := ctx\<rparr>;
        if rc \<noteq> 0 then reader_release rc False False s1
        else if size_sub (dp_reader_offset proc) (ric_current_split_offset ctx) \<ge> ric_current_split_size ctx then do {
          (rc, s2) \<leftarrow> raid_reader_split_fini sys s1;
          reader_release rc True False s2
        }
        else reader_release 0 False False s1
      })"

text \<open>A rebuilder may have skipped splits since its last read.\<close>

definition skip_to_split :: "'f raid_processor \<Rightarrow> 'f raid_processor" where
  "skip_to_split s =
     (let off = ric_current_split_offset (rp_reader s) in
      if is_rebuilder (rp_proc s) \<and> dp_reader_offset (rp_proc s) < off
      then s\<lparr>rp_proc := (rp_proc s)\<lparr>dp_reader_offset := off, dp_buffer_offset := off\<rparr>\<rparr> else s)"

definition raid_reader_processor_step ::
  "'f raid_sys \<Rightarrow> 'f raid_ops \<Rightarrow> pho_resp option \<Rightarrow> 'f raid_processor \<Rightarrow> (rc \<times> 'f raid_processor \<times> pho_req list) option" where
  "raid_reader_processor_step sys ops resp s =
     (case resp of
        Some (RespError rc) \<Rightarrow>
          if current_target s < length (dp_xt_rc (rp_proc s)) then
            Some (rc, s\<lparr>rp_proc := (rp_proc s)\<lparr>dp_xd_rc := rc, dp_xt_rc := (dp_xt_rc (rp_proc s))[current_target s := rc], dp_done := True\<rparr>\<rparr>, [])
          else None
      | None \<Rightarrow>
          if dp_buff (rp_proc s) = [] then do {
            (found, s) \<leftarrow> (if is_rebuilder (rp_proc s) then reader_seek True s else Some (True, s));
            if \<not> found then Some (0, s, [])
            else do { req \<leftarrow> reader_alloc_req s; Some (0, s\<lparr>rp_need_alloc_to_read := True\<rparr>, [req]) }
          }
          else read_stage sys ops s
      | Some (RespRead media) \<Rightarrow> do {
          (rc, s) \<leftarrow> raid_reader_split_setup sys ops media ((skip_to_split s)\<lparr>rp_need_alloc_to_read := False\<rparr>);
          if rc \<noteq> 0 then reader_release rc False False s else read_stage sys ops s
        }
      | Some _ \<Rightarrow> None)"

end
