(* ===== verification/Raid_Eraser.thy ===== *)
theory Raid_Eraser
  imports Raid_Reader
begin

text \<open>
  The RAID eraser (\<^verbatim>\<open>src/layout/raid_common.c\<close>), which deletes the extents of an object split by split:
  it asks for the media of a split, deletes the extents found on them and waits for their release.
\<close>

definition eraser_n_extent :: "'f raid_processor \<Rightarrow> size_t" where
  "eraser_n_extent s =
     split_src_layout_n_extent (rp_src_layout s) (ric_current_split (rp_eraser s)) (n_total_extents (rp_eraser s))"

text \<open>The loop that skips the splits without extents; it does not end when there is none left.\<close>

partial_function (option) skip_empty_splits :: "'f raid_processor \<Rightarrow> 'f raid_processor option" where
  "skip_empty_splits s =
     (if eraser_n_extent s = 0
      then skip_empty_splits (s\<lparr>rp_eraser := (rp_eraser s)\<lparr>ric_current_split := ric_current_split (rp_eraser s) + 1\<rparr>\<rparr>)
      else Some s)"

definition eraser_alloc_req :: "'f raid_processor \<Rightarrow> pho_req option" where
  "eraser_alloc_req s =
     raid_reader_eraser_build_allocation_req (dp_type (rp_proc s)) (rp_src_layout s) (rp_rebuild s) (rp_src_copy_ctime s) (rp_eraser s)"

text \<open>The media of a release response are counted, up to one that is not in the split.\<close>

fun count_erased :: "pho_id list \<Rightarrow> 'f raid_processor \<Rightarrow> rc \<times> 'f raid_processor" where
  "count_erased [] s = (0, s)"
| "count_erased (m # ms) s =
     (case split_extent_index (rp_src_layout s) m (rp_eraser s) of
        None \<Rightarrow> (- ENOMEDIUM, s)
      | Some i \<Rightarrow> count_erased ms (s\<lparr>rp_to_delete := size_sub (rp_to_delete s) 1\<rparr>))"

definition next_erased_split :: "'f raid_processor \<Rightarrow> 'f raid_processor option" where
  "next_erased_split s =
     (let ctx = rp_eraser s in
      if rp_to_delete s = 0 then
        Some (s\<lparr>rp_eraser := ctx\<lparr>ric_current_split := 0\<rparr>, rp_proc := (rp_proc s)\<lparr>dp_current_target := current_target s + 1\<rparr>\<rparr>)
      else skip_empty_splits (s\<lparr>rp_eraser := ctx\<lparr>ric_current_split := ric_current_split ctx + 1\<rparr>\<rparr>))"

definition raid_eraser_handle_release_resp :: "pho_id list \<Rightarrow> 'f raid_processor \<Rightarrow> (rc \<times> 'f raid_processor \<times> pho_req list) option" where
  "raid_eraser_handle_release_resp med_ids s =
     (if length med_ids \<noteq> eraser_n_extent s then Some (- EINVAL, s, [])
      else
        let (rc, s1) = count_erased med_ids s in
        if rc \<noteq> 0 then Some (rc, s1, [])
        else do {
          s2 \<leftarrow> next_erased_split s1;
          if current_target s2 = length (rp_targets s2) then Some (0, s2\<lparr>rp_proc := (rp_proc s2)\<lparr>dp_done := True\<rparr>\<rparr>, [])
          else do { req \<leftarrow> eraser_alloc_req s2; Some (0, s2, [req]) }
        })"

text \<open>
  The loop that deletes the extents on the media of an allocation. The result is the return code,
  the elements of the release and the extents that were deleted; the sizes are those of \<open>uint64_t\<close>.
\<close>

fun erase_extents ::
  "'f raid_sys \<Rightarrow> layout_info \<Rightarrow> 'f raid_io_context \<Rightarrow> read_elt list \<Rightarrow> nat \<Rightarrow> (rc \<times> release_elt list \<times> extent list \<times> nat)" where
  "erase_extents sys lyt ctx [] n = (0, [], [], n)"
| "erase_extents sys lyt ctx (m # ms) n =
     (let r = release_elt_init (rd_med_id m); rest = map (release_elt_init \<circ> rd_med_id) ms; rc = sys_get_io_adapter sys (rd_fs_type m) in
      if rc \<noteq> 0 then (rc, r # rest, [], n)
      else (case split_extent_index lyt (rd_med_id m) ctx of
          None \<Rightarrow> (- ENOMEDIUM, r # rest, [], n)
        | Some i \<Rightarrow>
            let e = lyt_extents lyt ! i;
                rc = sys_del sys n \<lparr>loc_root_path = rd_root_path m, loc_extent = e, loc_addr_type = rd_addr_type m\<rparr>
            in if rc \<noteq> 0 then (rc, r # rest, [], n + 1)
               else
                 let (rc, rs, es, n) = erase_extents sys lyt ctx ms (n + 2) in
                 (rc, r\<lparr>rel_size_written := size_sub 0 (ext_size e), rel_nb_extents_written := size_sub 0 1, rel_to_sync := True\<rparr> # rs, e # es, n)))"

definition fail_release :: "rc \<Rightarrow> release_elt \<Rightarrow> release_elt" where
  "fail_release rc r = r\<lparr>rel_rc := rc, rel_to_sync := False, rel_size_written := 0, rel_nb_extents_written := 0\<rparr>"

definition erase_split :: "'f raid_sys \<Rightarrow> read_elt list \<Rightarrow> 'f raid_processor \<Rightarrow> (rc \<times> 'f raid_processor \<times> pho_req list) option" where
  "erase_split sys media s =
     (if length media \<noteq> eraser_n_extent s then Some (- EINVAL, s, [])
      else if media = [] then None
      else
        let (rc, release, erased, n) = erase_extents sys (rp_src_layout s) (rp_eraser s) media (rp_calls s);
            release = (if rc \<noteq> 0 then map (fail_release rc) release else release)
        in Some (rc, s\<lparr>rp_calls := n, rp_erased := rp_erased s @ erased\<rparr>, [ReqRelease release True False]))"

definition raid_eraser_processor_step ::
  "'f raid_sys \<Rightarrow> pho_resp option \<Rightarrow> 'f raid_processor \<Rightarrow> (rc \<times> 'f raid_processor \<times> pho_req list) option" where
  "raid_eraser_processor_step sys resp s =
     (case resp of
        None \<Rightarrow> do { s \<leftarrow> skip_empty_splits s; req \<leftarrow> eraser_alloc_req s; Some (0, s, [req]) }
      | Some (RespError rc) \<Rightarrow> Some (rc, s\<lparr>rp_proc := (rp_proc s)\<lparr>dp_xd_rc := rc, dp_done := True\<rparr>\<rparr>, [])
      | Some (RespRelease med_ids partial) \<Rightarrow> raid_eraser_handle_release_resp med_ids s
      | Some (RespRead media) \<Rightarrow> erase_split sys media s
      | Some (RespWrite _ _) \<Rightarrow> Some (- EPROTO, s\<lparr>rp_proc := (rp_proc s)\<lparr>dp_xd_rc := - EPROTO, dp_done := True\<rparr>\<rparr>, []))"

end
