(* ===== verification/Raid_Rebuilder.thy ===== *)
theory Raid_Rebuilder
  imports Raid_Writer
begin

text \<open>
  The writer of a rebuild (\<^verbatim>\<open>src/layout/raid_common.c\<close>): it goes from one split with missing extents
  to the next, writes the missing extents from the bytes the reader of the split gives, and is done
  when all the missing extents were written and released.
\<close>

subsection \<open>Splits\<close>

definition raid_rebuilder_split_setup :: "'f raid_sys \<Rightarrow> 'f raid_ops \<Rightarrow> 'f raid_processor \<Rightarrow> 'f proc_res" where
  "raid_rebuilder_split_setup sys ops s =
     seq_proc (common_split_setup sys s)
       (\<lambda>s. do {
          w \<leftarrow> current_writer s;
          let ctx = rt_ctx w; let proc = rp_proc s;
          ctx \<leftarrow> raid_io_context_set_extent_size (dp_type proc) (ric_rebuild_extent_size ctx) (ric_extent_remainder ctx) ctx;
          buff \<leftarrow> fit_buffer (ric_current_split_chunk_size ctx) (dp_buff proc);
          let (rc, hashes) = reset_hashes (sys_env sys) (ric_hashes ctx);
          let s1 = s\<lparr>rp_proc := proc\<lparr>dp_writer_stripe_size := ric_current_split_chunk_size ctx, dp_buff := buff\<rparr>\<rparr>;
          let ctx = ctx\<lparr>ric_hashes := hashes\<rparr>;
          if rc \<noteq> 0 then Some (rc, set_current_writer s1 (w\<lparr>rt_ctx := ctx\<rparr>))
          else do {
            (rc, ctx) \<leftarrow> op_set_extra_attrs ops (dp_type proc) ctx;
            Some (rc, set_current_writer s1 (w\<lparr>rt_ctx := ctx\<rparr>))
          }
        })"

definition rebuilder_object_md :: "'f raid_processor \<Rightarrow> 'f raid_target \<Rightarrow> object_metadata option" where
  "rebuilder_object_md s w =
     (if rp_targets s = [] then None
      else let lyt = rp_src_layout s in
        Some \<lparr>om_attrs = xt_attrs (hd (rp_targets s)), om_size = dp_object_size (rp_proc s), om_version = lyt_version lyt,
              om_layout_name = rt_name w, om_uuid = lyt_uuid lyt, om_copy_name = lyt_copy_name lyt\<rparr>)"

definition raid_rebuilder_split_close :: "'f raid_sys \<Rightarrow> rc \<Rightarrow> 'f raid_processor \<Rightarrow> 'f proc_res" where
  "raid_rebuilder_split_close sys rc s = do {
     w \<leftarrow> current_writer s;
     md \<leftarrow> rebuilder_object_md s w;
     (rc, s) \<leftarrow> common_writer_rebuilder_split_close sys md rc s;
     if rc \<noteq> 0 then Some (rc, s)
     else do {
       w \<leftarrow> current_writer s;
       let ctx = rt_ctx w;
       Some (0, set_current_writer s (w\<lparr>rt_ctx := ctx\<lparr>ric_current_split := ric_current_split ctx + 1, ric_missing_count := 0\<rparr>\<rparr>))
     }
   }"

definition raid_rebuilder_handle_release_resp :: "pho_id list \<Rightarrow> 'f raid_processor \<Rightarrow> 'f proc_res" where
  "raid_rebuilder_handle_release_resp med_ids s = do {
     (rc, s) \<leftarrow> common_release_media med_ids 0 s;
     w \<leftarrow> current_writer s;
     if rt_missing_extents_remaining w = 0 then do {
       written \<leftarrow> rt_written_extents w;
       if length written > 0 \<and> length written = rt_n_released_media w then
         (case rp_dest_layout s of
            [] \<Rightarrow> None
          | lyt # lyts \<Rightarrow> do {
              (w, lyt) \<leftarrow> common_fill_layout w lyt;
              Some (rc, (set_current_writer s w)\<lparr>rp_dest_layout := lyt # lyts, rp_proc := (rp_proc s)\<lparr>dp_done := True\<rparr>\<rparr>)
            })
       else Some (rc, s)
     }
     else Some (rc, s)
   }"

definition rebuilder_seek :: "'f raid_processor \<Rightarrow> (bool \<times> 'f raid_processor) option" where
  "rebuilder_seek s = do {
     w \<leftarrow> current_writer s;
     let ctx = rt_ctx w;
     r \<leftarrow> raid_seek_next_missing_split (rp_src_layout s) (rp_rebuild s) (n_total_extents ctx) (ric_current_split ctx);
     case r of
       Inl split \<Rightarrow> Some (False, set_current_writer s (w\<lparr>rt_ctx := ctx\<lparr>ric_current_split := split\<rparr>\<rparr>))
     | Inr (split, n, off) \<Rightarrow>
         Some (True, (set_current_writer s (w\<lparr>rt_ctx := ctx\<lparr>ric_current_split := split, ric_current_split_offset := off, ric_missing_count := n\<rparr>\<rparr>))
                     \<lparr>rp_proc := (rp_proc s)\<lparr>dp_writer_offset := off\<rparr>\<rparr>)
   }"

text \<open>The allocation of the split that was found.\<close>

definition rebuilder_alloc_req :: "'f raid_processor \<Rightarrow> (pho_req \<times> 'f raid_processor) option" where
  "rebuilder_alloc_req s = do {
     w \<leftarrow> current_writer s;
     ctx \<leftarrow> rebuilder_get_extent_size (rp_src_layout s) (dp_object_size (rp_proc s)) (rt_ctx w);
     let s1 = set_current_writer s (w\<lparr>rt_ctx := ctx\<rparr>);
     req \<leftarrow> raid_writer_rebuilder_build_allocation_req s1 (size_add (ric_rebuild_extent_size ctx) (ric_extent_remainder ctx));
     Some (req, s1\<lparr>rp_need_alloc_to_write := True\<rparr>)
   }"

subsection \<open>The step\<close>

text \<open>The label \<open>set_target_rc\<close>, which sets the first target.\<close>

definition rebuilder_set_rc :: "rc \<Rightarrow> pho_req list \<Rightarrow> 'f raid_processor \<Rightarrow> (rc \<times> 'f raid_processor \<times> pho_req list) option" where
  "rebuilder_set_rc rc reqs s =
     (let proc = rp_proc s in
      Some (rc, if rc = 0 then s
                else s\<lparr>rp_proc := proc\<lparr>dp_xd_rc := (if dp_xd_rc proc = 0 then rc else dp_xd_rc proc), dp_xt_rc := (dp_xt_rc proc)[0 := rc]\<rparr>\<rparr>, reqs))"

definition rebuilder_check_for_release ::
  "rc \<Rightarrow> bool \<Rightarrow> bool \<Rightarrow> 'f raid_processor \<Rightarrow> (rc \<times> 'f raid_processor \<times> pho_req list) option" where
  "rebuilder_check_for_release rc split_ended stop_io s = do {
     (need_new_alloc, s) \<leftarrow> (if rc = 0 \<and> split_ended then rebuilder_seek s else Some (False, s));
     (reqs, s) \<leftarrow> (if rc \<noteq> 0 \<or> split_ended then do { (req, s) \<leftarrow> complete_and_transfer_release rc stop_io False s; Some ([req], s) }
                  else Some ([], s));
     if need_new_alloc then do { (req, s) \<leftarrow> rebuilder_alloc_req s; rebuilder_set_rc rc (reqs @ [req]) s }
     else rebuilder_set_rc rc reqs s
   }"

definition rebuild_write :: "'f raid_sys \<Rightarrow> 'f raid_ops \<Rightarrow> 'f raid_processor \<Rightarrow> (rc \<times> 'f raid_processor \<times> pho_req list) option" where
  "rebuild_write sys ops s = do {
     w \<leftarrow> current_writer s;
     (rc, proc, ctx) \<leftarrow> op_rebuild_from_buff ops (rp_proc s) (rt_ctx w);
     let split_ended = size_sub (dp_writer_offset proc) (ric_current_split_offset ctx) \<ge> ric_current_split_size ctx;
     let remaining = rt_missing_extents_remaining w;
     let s = (set_current_writer s (w\<lparr>rt_ctx := ctx, rt_missing_extents_remaining :=
                (if split_ended then size_sub remaining (ric_missing_count ctx) else remaining)\<rparr>))\<lparr>rp_proc := proc\<rparr>;
     (rc, s) \<leftarrow> (if split_ended \<or> rc \<noteq> 0 then raid_rebuilder_split_close sys rc s else Some (rc, s));
     rebuilder_check_for_release rc split_ended False s
   }"

definition rebuild_stage :: "'f raid_sys \<Rightarrow> 'f raid_ops \<Rightarrow> 'f raid_processor \<Rightarrow> (rc \<times> 'f raid_processor \<times> pho_req list) option" where
  "rebuild_stage sys ops s =
     (if target_rc (rp_proc s) \<noteq> 0 then rebuilder_check_for_release (target_rc (rp_proc s)) False True s
      else if dp_buff (rp_proc s) = [] then rebuilder_set_rc 0 [] s
      else rebuild_write sys ops s)"

definition rebuild_alloc_stage ::
  "'f raid_sys \<Rightarrow> 'f raid_ops \<Rightarrow> pho_resp \<Rightarrow> 'f raid_processor \<Rightarrow> (rc \<times> 'f raid_processor \<times> pho_req list) option" where
  "rebuild_alloc_stage sys ops resp s = do {
     (rc, s) \<leftarrow> prepare_writer_rebuilder_release_request sys resp s;
     if rc \<noteq> 0 then rebuilder_set_rc rc [] s
     else if target_rc (rp_proc s) \<noteq> 0 then
       rebuilder_check_for_release (target_rc (rp_proc s)) False True (s\<lparr>rp_need_alloc_to_write := False\<rparr>)
     else do {
       (rc, s) \<leftarrow> raid_rebuilder_split_setup sys ops (s\<lparr>rp_need_alloc_to_write := False\<rparr>);
       if rc \<noteq> 0 then rebuilder_check_for_release rc False False s else rebuild_stage sys ops s
     }
   }"

definition raid_rebuilder_processor_step ::
  "'f raid_sys \<Rightarrow> 'f raid_ops \<Rightarrow> pho_resp option \<Rightarrow> 'f raid_processor \<Rightarrow> (rc \<times> 'f raid_processor \<times> pho_req list) option" where
  "raid_rebuilder_processor_step sys ops resp s =
     (case resp of
        None \<Rightarrow>
          if dp_buff (rp_proc s) = [] then do {
            (found, s) \<leftarrow> rebuilder_seek s;
            if \<not> found then Some (0, s\<lparr>rp_proc := (rp_proc s)\<lparr>dp_done := True\<rparr>\<rparr>, [])
            else do { (req, s) \<leftarrow> rebuilder_alloc_req s; rebuilder_set_rc 0 [req] s }
          }
          else rebuild_stage sys ops s
      | Some (RespError rc) \<Rightarrow> rebuilder_set_rc rc [] (s\<lparr>rp_proc := (rp_proc s)\<lparr>dp_done := True\<rparr>\<rparr>)
      | Some (RespRelease med_ids partial) \<Rightarrow> do {
          (rc, s) \<leftarrow> raid_rebuilder_handle_release_resp med_ids s;
          rebuilder_set_rc rc [] s
        }
      | Some r \<Rightarrow> rebuild_alloc_stage sys ops r s)"

end
