(* ===== verification/Raid_Init.thy ===== *)
theory Raid_Init
  imports Raid_Ops Raid_Reader Raid_Eraser Raid_Rebuilder
begin

text \<open>
  The construction of the RAID processors (\<^verbatim>\<open>src/layout-modules/raid1/raid1.c\<close>,
  \<^verbatim>\<open>src/layout-modules/raid4/raid4.c\<close> and the initialisations of \<^verbatim>\<open>src/layout/raid_common.c\<close>).
  The configuration of a layout module is a record of its parameters.
\<close>

subsection \<open>Zeroed state\<close>

definition hash_zero :: extent_hash where
  "hash_zero = \<lparr>eh_md5context = None, eh_md5 = [], eh_xxh128context = None, eh_xxh128 = []\<rparr>"

definition iod_zero :: "'f raid_sys \<Rightarrow> 'f pho_io_descr" where
  "iod_zero sys = \<lparr>iod_ctx = sys_closed sys, iod_size = 0, iod_attrs = None\<rparr>"

definition ctx_zero :: "size_t \<Rightarrow> size_t \<Rightarrow> 'f raid_io_context" where
  "ctx_zero n_data n_parity =
     \<lparr>ric_current_split = 0, ric_current_split_size = 0, ric_current_split_offset = 0, ric_current_split_chunk_size = 0,
      ric_n_data_extents = n_data, ric_n_parity_extents = n_parity, ric_iods = [], ric_hashes = [], ric_read_extents = [],
      ric_check_hash = False, ric_out_extents = [], ric_all_is_written = False, ric_missing_count = 0, ric_rebuild_extent_size = 0,
      ric_extent_remainder = 0\<rparr>"

definition target_zero :: "string \<Rightarrow> 'f raid_io_context \<Rightarrow> 'f raid_target" where
  "target_zero nm ctx =
     \<lparr>rt_name = nm, rt_ctx = ctx, rt_ioa = [], rt_user_md = '''', rt_written_extents = None, rt_to_release_media = [],
      rt_n_released_media = 0, rt_released = False, rt_missing_extents_remaining = 0\<rparr>"

subsection \<open>Common part\<close>

definition common_rebuilder_writer_init :: "'f raid_sys \<Rightarrow> pho_attrs \<Rightarrow> 'f raid_target \<Rightarrow> rc \<times> 'f raid_target" where
  "common_rebuilder_writer_init sys attrs w =
     (let n_extents = n_total_extents (rt_ctx w); (rc, md) = pho_attrs_to_json (sys_utf8 sys) (sys_json_dumps sys) attrs in
      if rc \<noteq> 0 then (rc, w)
      else (0, w\<lparr>rt_user_md := md, rt_written_extents := Some [], rt_to_release_media := [], rt_ioa := replicate n_extents False,
                 rt_ctx := (rt_ctx w)\<lparr>ric_iods := replicate n_extents (iod_zero sys), ric_out_extents := replicate n_extents extent_zero\<rparr>\<rparr>))"

text \<open>The targets in order, up to the first that fails; the layout of each gets the name of the module.\<close>

fun encoder_init_targets ::
  "'f raid_sys \<Rightarrow> string \<Rightarrow> xfer_target list \<Rightarrow> 'f raid_target list \<Rightarrow> layout_info list \<Rightarrow> (rc \<times> 'f raid_target list \<times> layout_info list) option" where
  "encoder_init_targets sys mod_name (t # ts) (w # ws) (l # ls) =
     (if xt_fd t < 0 then Some (- EBADF, w # ws, l # ls)
      else
        let l1 = l\<lparr>lyt_mod_name := mod_name\<rparr>; (rc, w1) = common_rebuilder_writer_init sys (xt_attrs t) w in
        if rc \<noteq> 0 then Some (rc, w1 # ws, l1 # ls)
        else do { (rc, ws, ls) \<leftarrow> encoder_init_targets sys mod_name ts ws ls; Some (rc, w1 # ws, l1 # ls) })"
| "encoder_init_targets sys mod_name [] ws ls = Some (0, ws, ls)"
| "encoder_init_targets sys mod_name _ _ _ = None"

definition raid_encoder_init :: "'f raid_sys \<Rightarrow> string \<Rightarrow> 'f raid_processor \<Rightarrow> 'f proc_res" where
  "raid_encoder_init sys mod_name s = do {
     (rc, ws, ls) \<leftarrow> encoder_init_targets sys mod_name (rp_targets s) (rp_writers s) (rp_dest_layout s);
     Some (rc, s\<lparr>rp_writers := ws, rp_dest_layout := ls\<rparr>)
   }"

definition raid_decoder_init :: "'f raid_sys \<Rightarrow> 'f raid_processor \<Rightarrow> 'f proc_res" where
  "raid_decoder_init sys s =
     (case rp_targets s of
        [] \<Rightarrow> None
      | t # _ \<Rightarrow>
          if xt_fd t < 0 then Some (- EBADF, s)
          else if dp_type (rp_proc s) \<notin> {PHO_PROC_DECODER, PHO_PROC_COPIER, PHO_PROC_REBUILDER} then None
          else Some (0, s\<lparr>rp_reader := (rp_reader s)\<lparr>ric_iods := replicate (ric_n_data_extents (rp_reader s)) (iod_zero sys), ric_read_extents := []\<rparr>\<rparr>))"

definition raid_eraser_init :: "'f raid_sys \<Rightarrow> 'f raid_processor \<Rightarrow> 'f proc_res" where
  "raid_eraser_init sys s =
     (if dp_type (rp_proc s) \<noteq> PHO_PROC_ERASER then None
      else Some (0, s\<lparr>rp_eraser := (rp_eraser s)\<lparr>ric_iods := replicate (n_total_extents (rp_eraser s)) (iod_zero sys)\<rparr>\<rparr>))"

definition raid_rebuilder_init :: "'f raid_sys \<Rightarrow> string \<Rightarrow> 'f raid_processor \<Rightarrow> 'f proc_res" where
  "raid_rebuilder_init sys mod_name s =
     (case (rp_dest_layout s, rp_writers s, rp_targets s) of
        (l # ls, w # ws, t # _) \<Rightarrow>
          let (rc, attrs) = pho_attrs_copy (sys_utf8 sys) (sys_json_dumps sys) (sys_json_loads sys) (lyt_mod_attrs (rp_src_layout s)) (lyt_mod_attrs l);
              s1 = s\<lparr>rp_dest_layout := l\<lparr>lyt_mod_name := mod_name, lyt_mod_attrs := attrs\<rparr> # ls\<rparr>
          in if rc \<noteq> 0 then Some (rc, s1)
             else let (rc, w1) = common_rebuilder_writer_init sys (xt_attrs t) w in Some (rc, s1\<lparr>rp_writers := w1 # ws\<rparr>)
      | _ \<Rightarrow> None)"

text \<open>The hashes in order, up to the first that cannot be created.\<close>

fun init_hashes :: "'f raid_env \<Rightarrow> bool \<Rightarrow> bool \<Rightarrow> nat \<Rightarrow> rc \<times> extent_hash list" where
  "init_hashes env md5 xxh128 0 = (0, [])"
| "init_hashes env md5 xxh128 (Suc n) =
     (let (rc, h) = extent_hash_init env hash_zero md5 xxh128 in
      if rc \<noteq> 0 then (rc, h # replicate n hash_zero)
      else let (rc, hs) = init_hashes env md5 xxh128 n in (rc, h # hs))"

record layout_cfg =
  lc_extent_md5 :: bool
  lc_extent_xxh128 :: bool
  lc_check_hash :: bool
  lc_repl_count :: "string option"

text \<open>The contexts of the targets of an encoder: \<open>Inl i\<close> when a hash of the target \<open>i\<close> cannot be created.\<close>

fun encoder_contexts :: "'f raid_env \<Rightarrow> layout_cfg \<Rightarrow> string \<Rightarrow> size_t \<Rightarrow> size_t \<Rightarrow> xfer_target list \<Rightarrow> nat \<Rightarrow> (nat \<times> rc) + 'f raid_target list" where
  "encoder_contexts env cfg nm n_data n_parity [] i = Inr []"
| "encoder_contexts env cfg nm n_data n_parity (t # ts) i =
     (let (rc, hs) = init_hashes env (lc_extent_md5 cfg) (lc_extent_xxh128 cfg) (n_data + n_parity);
          w = target_zero nm ((ctx_zero n_data n_parity)\<lparr>ric_all_is_written := (xt_size t = 0), ric_hashes := hs\<rparr>)
      in if rc \<noteq> 0 then Inl (i, rc)
         else (case encoder_contexts env cfg nm n_data n_parity ts (i + 1) of Inl e \<Rightarrow> Inl e | Inr ws \<Rightarrow> Inr (w # ws)))"

definition decoder_context :: "layout_cfg \<Rightarrow> size_t \<Rightarrow> size_t \<Rightarrow> 'f raid_io_context" where
  "decoder_context cfg n_data n_parity =
     (ctx_zero n_data n_parity)\<lparr>ric_check_hash := lc_check_hash cfg, ric_hashes := (if lc_check_hash cfg then replicate n_data hash_zero else [])\<rparr>"

text \<open>What the two modules do after \<open>raid_decoder_init\<close>.\<close>

definition start_decoder :: "'f raid_sys \<Rightarrow> 'f raid_io_context \<Rightarrow> 'f raid_processor \<Rightarrow> 'f proc_res" where
  "start_decoder sys ctx s =
     seq_proc (raid_decoder_init sys (s\<lparr>rp_reader := ctx, rp_hash_freed := map (\<lambda>_. (False, False)) (ric_hashes ctx)\<rparr>))
       (\<lambda>s. Some (0, if dp_object_size (rp_proc s) = 0 then s\<lparr>rp_proc := (rp_proc s)\<lparr>dp_done := True\<rparr>\<rparr> else s))"

text \<open>What the two modules do after \<open>raid_eraser_init\<close>: nothing is deleted on tapes.\<close>

definition start_eraser :: "'f raid_sys \<Rightarrow> 'f raid_io_context \<Rightarrow> 'f raid_processor \<Rightarrow> 'f proc_res" where
  "start_eraser sys ctx s =
     seq_proc (raid_eraser_init sys (s\<lparr>rp_eraser := ctx\<rparr>))
       (\<lambda>s. let to_delete = (case lyt_extents (rp_src_layout s) of
                  [] \<Rightarrow> 0 | e # _ \<Rightarrow> if family (ext_media e) \<noteq> PHO_RSC_TAPE then length (lyt_extents (rp_src_layout s)) else 0)
            in Some (0, s\<lparr>rp_to_delete := to_delete,
                          rp_proc := (if to_delete = 0 then (rp_proc s)\<lparr>dp_done := True\<rparr> else rp_proc s)\<rparr>))"

text \<open>The context of a rebuilder, whose count of missing extents is stored in a \<open>size_t\<close>.\<close>

definition rebuilder_target :: "string \<Rightarrow> 'f raid_io_context \<Rightarrow> 'f raid_processor \<Rightarrow> 'f raid_target option" where
  "rebuilder_target nm ctx s =
     map_option (\<lambda>n. (target_zero nm ctx)\<lparr>rt_missing_extents_remaining := c_size (c_int n)\<rparr>)
       (raid_get_nb_extent_to_rebuild (rp_src_layout s) (rp_rebuild s) (n_total_extents (rp_reader s)))"

subsection \<open>RAID1\<close>

text \<open>The replica count is stored in the layouts of all the targets.\<close>

fun set_repl_counts :: "string \<Rightarrow> layout_info list \<Rightarrow> rc \<times> nat \<times> layout_info list" where
  "set_repl_counts str [] = (0, 0, [])"
| "set_repl_counts str (l # ls) =
     (let l1 = l\<lparr>lyt_mod_attrs := pho_attr_set (lyt_mod_attrs l) ''raid1.repl_count'' (Some str)\<rparr>; (rc, n) = raid1_repl_count l1 in
      if rc \<noteq> 0 then (rc, n, l1 # ls)
      else if n = 0 then (- EINVAL, n, l1 # ls)
      else if ls = [] then (0, n, [l1])
      else let (rc, n, ls) = set_repl_counts str ls in (rc, n, l1 # ls))"

definition raid1_encoder_get_repl_count :: "layout_cfg \<Rightarrow> 'f raid_processor \<Rightarrow> rc \<times> nat \<times> 'f raid_processor" where
  "raid1_encoder_get_repl_count cfg s =
     (let params = pp_lyt_params (rp_put s) in
      case (if pho_attrs_is_empty params then lc_repl_count cfg else pho_attr_get params ''repl_count'') of
        None \<Rightarrow> (- EINVAL, 0, s)
      | Some str \<Rightarrow> let (rc, n, ls) = set_repl_counts str (rp_dest_layout s) in (rc, n, s\<lparr>rp_dest_layout := ls\<rparr>))"

text \<open>When a hash cannot be created, the cleanup counts an unsigned index down past zero: it has no result.\<close>

definition layout_raid1_encode :: "'f raid_sys \<Rightarrow> layout_cfg \<Rightarrow> 'f raid_processor \<Rightarrow> 'f proc_res" where
  "layout_raid1_encode sys cfg s =
     (let (rc, repl_count, s) = raid1_encoder_get_repl_count cfg s in
      if rc \<noteq> 0 then Some (rc, s)
      else (case encoder_contexts (sys_env sys) cfg ''raid1'' 1 (size_sub repl_count 1) (rp_targets s) 0 of
          Inl _ \<Rightarrow> None
        | Inr ws \<Rightarrow> raid_encoder_init sys ''raid1'' (s\<lparr>rp_writers := ws\<rparr>)))"

definition layout_raid1_decode :: "'f raid_sys \<Rightarrow> layout_cfg \<Rightarrow> 'f raid_processor \<Rightarrow> 'f proc_res" where
  "layout_raid1_decode sys cfg s =
     (let (rc, repl_count) = raid1_repl_count (rp_src_layout s) in
      if rc \<noteq> 0 then Some (rc, s) else start_decoder sys (decoder_context cfg 1 (repl_count - 1)) s)"

definition layout_raid1_erase :: "'f raid_sys \<Rightarrow> 'f raid_processor \<Rightarrow> 'f proc_res" where
  "layout_raid1_erase sys s =
     (let (rc, repl_count) = raid1_repl_count (rp_src_layout s) in
      if rc \<noteq> 0 then Some (rc, s) else start_eraser sys (ctx_zero 1 (repl_count - 1)) s)"

definition layout_raid1_rebuild :: "'f raid_sys \<Rightarrow> layout_cfg \<Rightarrow> 'f raid_processor \<Rightarrow> 'f proc_res" where
  "layout_raid1_rebuild sys cfg s = do {
     let (rc, repl_count) = raid1_repl_count (rp_src_layout s);
     if rc \<noteq> 0 then Some (rc, s)
     else do {
       valid \<leftarrow> (if rb_extents_idx (rp_rebuild s) \<noteq> []
                then rebuilder_validate_extent_list 1 (repl_count - 1) (rp_src_layout s) (rp_rebuild s) else Some True);
       if \<not> valid then Some (- EINVAL, s)
       else do {
         valid \<leftarrow> rebuilder_validate_media_read (rp_src_layout s) (rp_rebuild s) repl_count;
         if \<not> valid then Some (- EINVAL, s)
         else do {
           w \<leftarrow> rebuilder_target ''raid1'' (ctx_zero 1 (repl_count - 1)) s;
           let (rc, hs) = init_hashes (sys_env sys) (lc_extent_md5 cfg) (lc_extent_xxh128 cfg) repl_count;
           let s1 = s\<lparr>rp_writers := [w\<lparr>rt_ctx := (rt_ctx w)\<lparr>ric_hashes := hs\<rparr>\<rparr>]\<rparr>;
           if rc \<noteq> 0 then Some (rc, s1) else raid_rebuilder_init sys ''raid1'' s1
         }
       }
     }
   }"

subsection \<open>RAID4\<close>

text \<open>
  When a hash of the first target cannot be created there is nothing to clean; for a later target
  the cleanup frees the same hash of an earlier one several times.
\<close>

definition layout_raid4_encode :: "'f raid_sys \<Rightarrow> layout_cfg \<Rightarrow> 'f raid_processor \<Rightarrow> 'f proc_res" where
  "layout_raid4_encode sys cfg s =
     (case encoder_contexts (sys_env sys) cfg ''raid4'' 2 1 (rp_targets s) 0 of
        Inl (i, rc) \<Rightarrow> if i = 0 then Some (rc, s) else None
      | Inr ws \<Rightarrow> raid_encoder_init sys ''raid4'' (s\<lparr>rp_writers := ws\<rparr>))"

definition layout_raid4_decode :: "'f raid_sys \<Rightarrow> layout_cfg \<Rightarrow> 'f raid_processor \<Rightarrow> 'f proc_res" where
  "layout_raid4_decode sys cfg s = start_decoder sys (decoder_context cfg 2 1) s"

definition layout_raid4_erase :: "'f raid_sys \<Rightarrow> 'f raid_processor \<Rightarrow> 'f proc_res" where
  "layout_raid4_erase sys s = start_eraser sys (ctx_zero 2 1) s"

definition layout_raid4_rebuild :: "'f raid_sys \<Rightarrow> layout_cfg \<Rightarrow> 'f raid_processor \<Rightarrow> 'f proc_res" where
  "layout_raid4_rebuild sys cfg s = do {
     if rb_media_read (rp_rebuild s) \<noteq> None then Some (- EINVAL, s)
     else do {
       valid \<leftarrow> (if rb_extents_idx (rp_rebuild s) \<noteq> []
                then rebuilder_validate_extent_list 2 1 (rp_src_layout s) (rp_rebuild s) else Some True);
       if \<not> valid then Some (- EINVAL, s)
       else do {
         w \<leftarrow> rebuilder_target ''raid4'' (ctx_zero 2 1) s;
         (rc, chunk_size) \<leftarrow> raid4_get_reader_chunk_size (rp_src_layout s);
         if rc \<noteq> 0 then Some (rc, s\<lparr>rp_writers := [w]\<rparr>)
         else do {
           let (rc, hs) = init_hashes (sys_env sys) (lc_extent_md5 cfg) (lc_extent_xxh128 cfg) 1;
           let s1 = s\<lparr>rp_writers := [w\<lparr>rt_ctx := (rt_ctx w)\<lparr>ric_current_split_chunk_size := chunk_size, ric_hashes := hs\<rparr>\<rparr>]\<rparr>;
           if rc \<noteq> 0 then Some (rc, s1) else raid_rebuilder_init sys ''raid4'' s1
         }
       }
     }
   }"

end
