(* ===== verification/Layout_Module.thy ===== *)
theory Layout_Module
  imports Raid_Init
begin

text \<open>
  The construction of data processors from the layout modules (\<^verbatim>\<open>src/layout/layout.c\<close> and
  \<^verbatim>\<open>src/layout/posix_layout.c\<close>). The loader of modules is a parameter: it gives a module or the error
  of the loading.
\<close>

subsection \<open>Modules\<close>

record 'f layout_module =
  lm_encode :: "'f raid_processor \<Rightarrow> 'f proc_res"
  lm_decode :: "'f raid_processor \<Rightarrow> 'f proc_res"
  lm_erase :: "'f raid_processor \<Rightarrow> 'f proc_res"
  lm_rebuild :: "'f raid_processor \<Rightarrow> 'f proc_res"
  lm_get_availability :: "layout_info \<Rightarrow> (rc \<times> copy_status option) option"
  lm_get_replica_info :: "layout_info \<Rightarrow> rc \<times> int \<times> int"
  lm_get_extents_to_rebuild_from :: "layout_info \<Rightarrow> extent \<Rightarrow> extent list option option"

text \<open>The numbers are those of \<open>int\<close>; the second one is not set on an error.\<close>

definition layout_raid1_get_replica_info :: "layout_info \<Rightarrow> rc \<times> int \<times> int" where
  "layout_raid1_get_replica_info lyt =
     (let (rc, repl_count) = raid1_repl_count lyt in if rc \<noteq> 0 then (rc, 1, 0) else (0, 1, c_int (int repl_count - 1)))"

definition layout_raid4_get_replica_info :: "layout_info \<Rightarrow> rc \<times> int \<times> int" where
  "layout_raid4_get_replica_info lyt = (0, 2, 1)"

text \<open>The inner option is NULL; the outer one a division by zero.\<close>

definition layout_raid1_get_extents_to_rebuild_from :: "layout_info \<Rightarrow> extent \<Rightarrow> extent list option option" where
  "layout_raid1_get_extents_to_rebuild_from lyt e =
     (let (rc, repl_count) = raid1_repl_count lyt in
      if rc \<noteq> 0 then Some None else map_option Some (raid_get_extents_to_rebuild_from lyt (c_int (int repl_count)) e))"

definition layout_raid4_get_extents_to_rebuild_from :: "layout_info \<Rightarrow> extent \<Rightarrow> extent list option option" where
  "layout_raid4_get_extents_to_rebuild_from lyt e = map_option Some (raid_get_extents_to_rebuild_from lyt 3 e)"

definition LAYOUT_RAID1_OPS :: "'f raid_sys \<Rightarrow> layout_cfg \<Rightarrow> 'f layout_module" where
  "LAYOUT_RAID1_OPS sys cfg =
     \<lparr>lm_encode = layout_raid1_encode sys cfg, lm_decode = layout_raid1_decode sys cfg, lm_erase = layout_raid1_erase sys,
      lm_rebuild = layout_raid1_rebuild sys cfg, lm_get_availability = layout_raid1_get_availability,
      lm_get_replica_info = layout_raid1_get_replica_info,
      lm_get_extents_to_rebuild_from = layout_raid1_get_extents_to_rebuild_from\<rparr>"

definition LAYOUT_RAID4_OPS :: "'f raid_sys \<Rightarrow> layout_cfg \<Rightarrow> 'f layout_module" where
  "LAYOUT_RAID4_OPS sys cfg =
     \<lparr>lm_encode = layout_raid4_encode sys cfg, lm_decode = layout_raid4_decode sys cfg, lm_erase = layout_raid4_erase sys,
      lm_rebuild = layout_raid4_rebuild sys cfg, lm_get_availability = layout_raid4_get_availability,
      lm_get_replica_info = layout_raid4_get_replica_info,
      lm_get_extents_to_rebuild_from = layout_raid4_get_extents_to_rebuild_from\<rparr>"

type_synonym 'f module_loader = "string \<Rightarrow> rc + 'f layout_module"

text \<open>The name of a module fits a buffer of \<open>NAME_MAX\<close> characters.\<close>

definition build_layout_name :: "string \<Rightarrow> rc + string" where
  "build_layout_name layout_name =
     (let path = ''layout_'' @ layout_name in if length path \<ge> 255 then Inl (- EINVAL) else Inr path)"

definition find_module :: "'f module_loader \<Rightarrow> string \<Rightarrow> rc + 'f layout_module" where
  "find_module load_module layout_name = (case build_layout_name layout_name of Inl rc \<Rightarrow> Inl rc | Inr path \<Rightarrow> load_module path)"

subsection \<open>Files of the targets\<close>

text \<open>
  The descriptors of the files of the targets. When one cannot be had, those before it and itself
  are closed; one without adapter cannot be.
\<close>

fun set_private_posix_io_descr :: "'f raid_sys \<Rightarrow> xfer_target list \<Rightarrow> nat \<Rightarrow> (rc \<times> 'f pho_io_descr list) option" where
  "set_private_posix_io_descr sys [] n = Some (0, [])"
| "set_private_posix_io_descr sys (t # ts) n =
     (if sys_get_io_adapter sys PHO_FS_POSIX \<noteq> 0 then None
      else
        let (rc, f) = sys_dup_fd sys n (xt_fd t) in
        if rc \<noteq> 0 then Some (rc, [])
        else do {
          (rc, iods) \<leftarrow> set_private_posix_io_descr sys ts (n + 1);
          Some (rc, if rc \<noteq> 0 then [] else (iod_zero sys)\<lparr>iod_ctx := f\<rparr> # iods)
        })"

definition set_posix :: "'f raid_sys \<Rightarrow> 'f raid_processor \<Rightarrow> 'f proc_res" where
  "set_posix sys s = do {
     (rc, iods) \<leftarrow> set_private_posix_io_descr sys (rp_targets s) (rp_calls s);
     Some (rc, s\<lparr>rp_posix := iods, rp_calls := rp_calls s + length (rp_targets s)\<rparr>)
   }"

subsection \<open>Processors\<close>

definition layout_destroy :: "'f raid_processor \<Rightarrow> 'f raid_processor" where
  "layout_destroy s = s\<lparr>rp_dest_layout := [], rp_writers := [], rp_posix := [], rp_write_resp := None, rp_writer_release := None,
     rp_read_resp := None, rp_proc := (rp_proc s)\<lparr>dp_buff := []\<rparr>, rp_destroyed := True\<rparr>"

definition start_processor :: "processor_type \<Rightarrow> 'f raid_processor \<Rightarrow> 'f raid_processor" where
  "start_processor ty s = s\<lparr>rp_proc := (rp_proc s)\<lparr>dp_type := ty, dp_done := False\<rparr>\<rparr>"

text \<open>The layout of a target that is going to be written.\<close>

definition dest_layout_init :: "put_params \<Rightarrow> size_t \<Rightarrow> xfer_target \<Rightarrow> layout_info" where
  "dest_layout_init put object_size t =
     \<lparr>lyt_oid = xt_objid t, lyt_uuid = '''', lyt_version = 0, lyt_mod_name = '''',
      lyt_mod_attrs = pho_attr_set None ''object_size'' (Some (nat2str object_size)), lyt_extents = [], lyt_wr_size = xt_size t,
      lyt_copy_name = pp_copy_name put\<rparr>"

definition build_layout_writer :: "'f module_loader \<Rightarrow> string \<Rightarrow> 'f raid_processor \<Rightarrow> 'f proc_res" where
  "build_layout_writer load_module layout_name s =
     (case find_module load_module layout_name of
        Inl rc \<Rightarrow> Some (rc, s)
      | Inr m \<Rightarrow>
          let object_size = (case rp_targets s of [] \<Rightarrow> dp_object_size (rp_proc s) | t # _ \<Rightarrow> xt_size t) in
          lm_encode m (s\<lparr>rp_proc := (rp_proc s)\<lparr>dp_object_size := object_size\<rparr>,
                         rp_dest_layout := map (dest_layout_init (rp_put s) object_size) (rp_targets s)\<rparr>))"

text \<open>
  When the files of the targets cannot be had, the processor is destroyed but its construction
  goes on, and the return code is that of the last call.
\<close>

definition posix_then_block_size :: "'f raid_sys \<Rightarrow> rsc_family \<Rightarrow> 'f raid_processor \<Rightarrow> 'f proc_res" where
  "posix_then_block_size sys fam s = do {
     (rc, s) \<leftarrow> set_posix sys s;
     let s = (if rc \<noteq> 0 then layout_destroy s else s);
     let (rc, block_size) = sys_io_block_size sys fam;
     if rc \<noteq> 0 then Some (rc, layout_destroy s)
     else Some (0, s\<lparr>rp_proc := (rp_proc s)\<lparr>dp_io_block_size := block_size\<rparr>\<rparr>)
   }"

text \<open>A first part whose failure destroys the processor, then the rest.\<close>

definition or_destroy :: "'f proc_res \<Rightarrow> ('f raid_processor \<Rightarrow> 'f proc_res) \<Rightarrow> 'f proc_res" where
  "or_destroy r k = (case r of None \<Rightarrow> None | Some (rc, s) \<Rightarrow> if rc \<noteq> 0 then Some (rc, layout_destroy s) else k s)"

definition layout_encoder :: "'f raid_sys \<Rightarrow> 'f module_loader \<Rightarrow> string \<Rightarrow> 'f raid_processor \<Rightarrow> 'f proc_res" where
  "layout_encoder sys load_module layout_name s =
     or_destroy (build_layout_writer load_module layout_name (start_processor PHO_PROC_ENCODER s))
       (\<lambda>s. posix_then_block_size sys (pp_family (rp_put s)) s)"

definition build_layout_reader :: "'f module_loader \<Rightarrow> layout_info \<Rightarrow> 'f raid_processor \<Rightarrow> 'f proc_res" where
  "build_layout_reader load_module lyt s =
     (case find_module load_module (lyt_mod_name lyt) of
        Inl rc \<Rightarrow> Some (rc, s)
      | Inr m \<Rightarrow> lm_decode m (s\<lparr>rp_src_layout := lyt\<rparr>))"

definition layout_decoder :: "'f raid_sys \<Rightarrow> 'f module_loader \<Rightarrow> layout_info \<Rightarrow> 'f raid_processor \<Rightarrow> 'f proc_res" where
  "layout_decoder sys load_module lyt s =
     or_destroy (build_layout_reader load_module lyt (start_processor PHO_PROC_DECODER s))
       (\<lambda>s. case lyt_extents lyt of [] \<Rightarrow> None | e # _ \<Rightarrow> posix_then_block_size sys (family (ext_media e)) s)"

definition layout_eraser :: "'f module_loader \<Rightarrow> layout_info \<Rightarrow> 'f raid_processor \<Rightarrow> 'f proc_res" where
  "layout_eraser load_module lyt s =
     (case find_module load_module (lyt_mod_name lyt) of
        Inl rc \<Rightarrow> Some (rc, s)
      | Inr m \<Rightarrow> or_destroy (lm_erase m ((start_processor PHO_PROC_ERASER s)\<lparr>rp_src_layout := lyt\<rparr>)) (\<lambda>s. Some (0, s)))"

definition layout_copier :: "'f module_loader \<Rightarrow> string \<Rightarrow> layout_info \<Rightarrow> 'f raid_processor \<Rightarrow> 'f proc_res" where
  "layout_copier load_module layout_name lyt s =
     or_destroy (build_layout_writer load_module layout_name (start_processor PHO_PROC_COPIER s))
       (\<lambda>s. or_destroy (build_layout_reader load_module lyt s) (\<lambda>s. Some (0, s)))"

definition build_layout_rebuilder :: "'f module_loader \<Rightarrow> layout_info \<Rightarrow> 'f raid_processor \<Rightarrow> 'f proc_res" where
  "build_layout_rebuilder load_module lyt s =
     (case find_module load_module (lyt_mod_name lyt) of
        Inl rc \<Rightarrow> Some (rc, s)
      | Inr m \<Rightarrow>
          lm_rebuild m (s\<lparr>rp_dest_layout :=
            [\<lparr>lyt_oid = lyt_oid lyt, lyt_uuid = lyt_uuid lyt, lyt_version = lyt_version lyt, lyt_mod_name = '''', lyt_mod_attrs = None,
              lyt_extents = [], lyt_wr_size = 0, lyt_copy_name = pp_copy_name (rp_put s)\<rparr>]\<rparr>))"

definition layout_rebuilder :: "'f raid_sys \<Rightarrow> 'f module_loader \<Rightarrow> layout_info \<Rightarrow> 'f raid_processor \<Rightarrow> 'f proc_res" where
  "layout_rebuilder sys load_module lyt s =
     or_destroy (build_layout_reader load_module lyt (start_processor PHO_PROC_REBUILDER s))
       (\<lambda>s. or_destroy (build_layout_rebuilder load_module lyt s)
          (\<lambda>s. let (rc, block_size) = sys_io_block_size sys (pp_family (rp_put s)) in
               if rc \<noteq> 0 then Some (rc, layout_destroy s)
               else Some (0, s\<lparr>rp_proc := (rp_proc s)\<lparr>dp_io_block_size := block_size\<rparr>\<rparr>)))"

definition layout_get_availability :: "'f module_loader \<Rightarrow> layout_info \<Rightarrow> (rc \<times> copy_status option) option" where
  "layout_get_availability load_module lyt =
     (case find_module load_module (lyt_mod_name lyt) of Inl rc \<Rightarrow> Some (rc, None) | Inr m \<Rightarrow> lm_get_availability m lyt)"

definition layout_get_replica_info :: "'f module_loader \<Rightarrow> layout_info \<Rightarrow> rc \<times> int \<times> int" where
  "layout_get_replica_info load_module lyt =
     (case find_module load_module (lyt_mod_name lyt) of Inl rc \<Rightarrow> (rc, 0, 0) | Inr m \<Rightarrow> lm_get_replica_info m lyt)"

definition layout_get_extents_to_rebuild_from :: "'f module_loader \<Rightarrow> layout_info \<Rightarrow> extent \<Rightarrow> extent list option option" where
  "layout_get_extents_to_rebuild_from load_module lyt e =
     (case find_module load_module (lyt_mod_name lyt) of Inl rc \<Rightarrow> Some None | Inr m \<Rightarrow> lm_get_extents_to_rebuild_from m lyt e)"

end
