(* ===== verification/Data_Transfer.thy ===== *)
theory Data_Transfer
  imports Layout_Module
begin

text \<open>
  The exchange between the store, the LRS and a data processor (\<^verbatim>\<open>src/store/store.c\<close>): a response is given
  to the reader or to the writer, then bytes are moved through the buffer until one of them needs
  another response. The requests that were sent are the last component of the results.
\<close>

subsection \<open>Steps\<close>

text \<open>A step of the reader or writer of the file of the current target, which ignores the responses.\<close>

definition posix_step ::
  "(data_processor \<Rightarrow> 'f pho_io_descr \<Rightarrow> (rc \<times> data_processor \<times> 'f pho_io_descr) option) \<Rightarrow> 'f raid_processor \<Rightarrow>
   (rc \<times> 'f raid_processor \<times> pho_req list) option" where
  "posix_step step s =
     (if current_target s < length (rp_posix s) then do {
        (rc, proc, iod) \<leftarrow> step (rp_proc s) (rp_posix s ! current_target s);
        Some (rc, s\<lparr>rp_proc := proc, rp_posix := (rp_posix s)[current_target s := iod]\<rparr>, [])
      } else None)"

definition posix_preferred :: "'f raid_sys \<Rightarrow> 'f raid_processor \<Rightarrow> int" where
  "posix_preferred sys s =
     (if current_target s < length (rp_posix s) then sys_preferred_io_size sys (iod_ctx (rp_posix s ! current_target s)) else 0)"

definition reader_step ::
  "'f raid_sys \<Rightarrow> 'f raid_ops \<Rightarrow> pho_resp option \<Rightarrow> 'f raid_processor \<Rightarrow> (rc \<times> 'f raid_processor \<times> pho_req list) option" where
  "reader_step sys ops resp s =
     (if dp_type (rp_proc s) = PHO_PROC_ENCODER
      then posix_step (posix_reader_step (env_read (sys_env sys)) (posix_preferred sys s) (nat (sys_page_size sys))) s
      else raid_reader_processor_step sys ops resp s)"

definition writer_step ::
  "'f raid_sys \<Rightarrow> 'f raid_ops \<Rightarrow> pho_resp option \<Rightarrow> 'f raid_processor \<Rightarrow> (rc \<times> 'f raid_processor \<times> pho_req list) option" where
  "writer_step sys ops resp s =
     (case dp_type (rp_proc s) of
        PHO_PROC_DECODER \<Rightarrow> posix_step (posix_writer_step (env_write (sys_env sys)) (posix_preferred sys s) (nat (sys_page_size sys))) s
      | PHO_PROC_REBUILDER \<Rightarrow> raid_rebuilder_processor_step sys ops resp s
      | _ \<Rightarrow> raid_writer_processor_step sys ops resp s)"

subsection \<open>Requests\<close>

text \<open>Every request is sent; the return code is the one of the step, or else of the last failed sending but the first kept.\<close>

fun send_generated_requests :: "(nat \<Rightarrow> pho_req \<Rightarrow> rc) \<Rightarrow> pho_req list \<Rightarrow> rc \<Rightarrow> nat \<Rightarrow> rc \<times> nat" where
  "send_generated_requests send [] rc n = (rc, n)"
| "send_generated_requests send (req # reqs) rc n =
     (let rc2 = send n req in send_generated_requests send reqs (if rc \<noteq> 0 then rc else rc2) (n + 1))"

definition step_and_send_requests ::
  "(nat \<Rightarrow> pho_req \<Rightarrow> rc) \<Rightarrow> (rc \<times> 'f raid_processor \<times> pho_req list) option \<Rightarrow> (rc \<times> 'f raid_processor \<times> pho_req list) option" where
  "step_and_send_requests send r = do {
     (rc, s, reqs) \<leftarrow> r;
     let (rc, n) = send_generated_requests send reqs rc (rp_calls s);
     Some (rc, s\<lparr>rp_calls := n\<rparr>, reqs)
   }"

text \<open>A step after which others may follow, with the requests before it.\<close>

definition then_send ::
  "(nat \<Rightarrow> pho_req \<Rightarrow> rc) \<Rightarrow> pho_req list \<Rightarrow> (rc \<times> 'f raid_processor \<times> pho_req list) option \<Rightarrow> (rc \<times> 'f raid_processor \<times> pho_req list) option" where
  "then_send send acc r = do { (rc, s, reqs) \<leftarrow> step_and_send_requests send r; Some (rc, s, acc @ reqs) }"

definition first_data_processor_call ::
  "'f raid_sys \<Rightarrow> 'f raid_ops \<Rightarrow> (nat \<Rightarrow> pho_req \<Rightarrow> rc) \<Rightarrow> 'f raid_processor \<Rightarrow> (rc \<times> 'f raid_processor \<times> pho_req list) option" where
  "first_data_processor_call sys ops send s =
     (if is_eraser (rp_proc s) then step_and_send_requests send (raid_eraser_processor_step sys None s)
      else do {
        (rc, s, reqs) \<leftarrow> step_and_send_requests send (reader_step sys ops None s);
        if rc \<noteq> 0 then Some (rc, s, reqs) else then_send send reqs (writer_step sys ops None s)
      })"

subsection \<open>Moving bytes\<close>

definition nothing_to_move :: "bool \<Rightarrow> 'f raid_processor \<Rightarrow> bool" where
  "nothing_to_move reader_done s \<longleftrightarrow>
     rp_need_alloc_to_write s \<or>
     (reader_done \<or> rp_need_alloc_to_read s) \<and> dp_reader_offset (rp_proc s) = dp_writer_offset (rp_proc s)"

text \<open>The read of a turn, when the writer has written all that was read.\<close>

definition try_read ::
  "'f raid_sys \<Rightarrow> 'f raid_ops \<Rightarrow> (nat \<Rightarrow> pho_req \<Rightarrow> rc) \<Rightarrow> bool \<Rightarrow> 'f raid_processor \<Rightarrow> (rc \<times> bool \<times> 'f raid_processor \<times> pho_req list) option" where
  "try_read sys ops send reader_done s =
     (if \<not> reader_done \<and> dp_reader_offset (rp_proc s) = dp_writer_offset (rp_proc s) \<and> dp_object_size (rp_proc s) \<noteq> 0 then do {
        (rc, s, reqs) \<leftarrow> step_and_send_requests send (reader_step sys ops None s);
        Some (rc, reader_done \<or> rc \<noteq> 0 \<or> reqs \<noteq> [], s, reqs)
      } else Some (0, reader_done, s, []))"

text \<open>
  One turn of the loop: \<open>Inl\<close> the result of the function, or \<open>Inr\<close> the state of the next turn. A
  turn whose write succeeded without a request forgets the error of its read.
\<close>

definition move_turn ::
  "'f raid_sys \<Rightarrow> 'f raid_ops \<Rightarrow> (nat \<Rightarrow> pho_req \<Rightarrow> rc) \<Rightarrow> bool \<Rightarrow> pho_req list \<Rightarrow> 'f raid_processor \<Rightarrow>
   ((rc \<times> 'f raid_processor \<times> pho_req list) + (bool \<times> 'f raid_processor \<times> pho_req list)) option" where
  "move_turn sys ops send reader_done acc s = do {
     (rc, reader_done, s, reqs) \<leftarrow> try_read sys ops send reader_done s;
     let acc = acc @ reqs;
     if rc = 0 \<and> reader_done \<and> is_decoder (rp_proc s) then
       do { r \<leftarrow> then_send send acc (writer_step sys ops None s); Some (Inl r) }
     else if dp_reader_offset (rp_proc s) > dp_writer_offset (rp_proc s) \<or> dp_object_size (rp_proc s) = 0 \<or> rc \<noteq> 0 then do {
       (rc, s, reqs) \<leftarrow> step_and_send_requests send (writer_step sys ops None s);
       if rc = 0 \<and> reqs \<noteq> [] then Some (Inl (0, s, acc @ reqs))
       else if rc \<noteq> 0 then do { r \<leftarrow> then_send send (acc @ reqs) (reader_step sys ops None s); Some (Inl r) }
       else Some (Inr (reader_done, s, acc @ reqs))
     }
     else Some (Inr (reader_done, s, acc))
   }"

partial_function (option) move_loop ::
  "'f raid_sys \<Rightarrow> 'f raid_ops \<Rightarrow> (nat \<Rightarrow> pho_req \<Rightarrow> rc) \<Rightarrow> bool \<Rightarrow> pho_req list \<Rightarrow> 'f raid_processor \<Rightarrow>
   (rc \<times> 'f raid_processor \<times> pho_req list) option" where
  "move_loop sys ops send reader_done acc s =
     (if nothing_to_move reader_done s then Some (0, s, acc)
      else do {
        r \<leftarrow> move_turn sys ops send reader_done acc s;
        case r of Inl result \<Rightarrow> Some result | Inr (reader_done, s, acc) \<Rightarrow> move_loop sys ops send reader_done acc s
      })"

subsection \<open>Responses\<close>

datatype request_kind = RQ_WRITE | RQ_READ | RQ_RELEASE_WRITE | RQ_RELEASE_READ

text \<open>The buffer is allocated once both stripe sizes are known; \<open>None\<close> when they are not.\<close>

definition alloc_buffer :: "'f raid_processor \<Rightarrow> 'f raid_processor option option" where
  "alloc_buffer s =
     (let proc = rp_proc s in
      if dp_buff proc \<noteq> [] then Some (Some s)
      else if dp_reader_stripe_size proc \<noteq> 0 \<and> dp_writer_stripe_size proc \<noteq> 0 then
        map_option (\<lambda>n. Some (s\<lparr>rp_proc := proc\<lparr>dp_buff := replicate n 0\<rparr>\<rparr>)) (lcm_c (dp_reader_stripe_size proc) (dp_writer_stripe_size proc))
      else Some None)"

text \<open>
  The kind of a response is the one of the request it answers, which an error carries. A kind that
  does not fit the response has no meaning here.
\<close>

definition processor_communicate ::
  "'f raid_sys \<Rightarrow> 'f raid_ops \<Rightarrow> (nat \<Rightarrow> pho_req \<Rightarrow> rc) \<Rightarrow> request_kind \<Rightarrow> pho_resp \<Rightarrow> 'f raid_processor \<Rightarrow>
   (rc \<times> 'f raid_processor \<times> pho_req list) option" where
  "processor_communicate sys ops send kind resp s = do {
     let s = (case kind of RQ_READ \<Rightarrow> s\<lparr>rp_need_alloc_to_read := False\<rparr> | RQ_WRITE \<Rightarrow> s\<lparr>rp_need_alloc_to_write := False\<rparr> | _ \<Rightarrow> s);
     if is_eraser (rp_proc s) then step_and_send_requests send (raid_eraser_processor_step sys (Some resp) s)
     else do {
       let to_writer = (kind = RQ_WRITE \<or> kind = RQ_RELEASE_WRITE);
       (rc, s, reqs) \<leftarrow> step_and_send_requests send (if to_writer then writer_step sys ops (Some resp) s else reader_step sys ops (Some resp) s);
       if rc \<noteq> 0 \<or> (case resp of RespRelease _ partial \<Rightarrow> \<not> partial | _ \<Rightarrow> False) then Some (rc, s, reqs)
       else do {
         buffer \<leftarrow> alloc_buffer s;
         case buffer of
           None \<Rightarrow> Some (0, s, reqs)
         | Some s \<Rightarrow>
             if to_writer \<and> reqs \<noteq> [] then Some (0, s, reqs)
             else move_loop sys ops send (\<not> to_writer \<and> reqs \<noteq> []) reqs s
       }
     }
   }"

end
