(* ===== verification/Raid_Put.thy ===== *)
theory Raid_Put
  imports Raid_Object Data_Transfer
begin

text \<open>
  The put of one object, from the allocation of media to the layout that describes what was written.
  The invariant of the writer is kept by every call of \<open>processor_communicate\<close>, whatever the media, their
  sizes and their order; a put that ends without error leaves a layout whose extents hold the
  object.
\<close>

subsection \<open>What is stored\<close>

text \<open>
  The extent \<open>e\<close> with the file \<open>f\<close> is the one of index \<open>j\<close> of the object \<open>D\<close>, which is cut into splits of
  sizes \<open>Ls\<close>.
\<close>

definition extent_stored ::
  "layout_code \<Rightarrow> 'f raid_env \<Rightarrow> ('f \<Rightarrow> byte list) \<Rightarrow> byte list \<Rightarrow> nat \<Rightarrow> nat list \<Rightarrow> nat \<Rightarrow> extent \<Rightarrow> 'f \<Rightarrow> bool" where
  "extent_stored K env written D c Ls j e f \<longleftrightarrow>
     (let n = code_n_total K; off = sum_list (take (j div n) Ls); X = code_content K c (take (Ls ! (j div n)) (drop off D)) ! (j mod n)
      in ext_layout_idx e = int j \<and> ext_offset e = off \<and> ext_size e = length X \<and> code_info K c (ext_info e) \<and>
         (\<forall>d. ext_md5 e = Some d \<longrightarrow> d = env_md5 env X) \<and> (\<forall>d. ext_xxh128 e = Some d \<longrightarrow> d = env_xxh128 env X) \<and> written f = X)"

definition object_stored ::
  "layout_code \<Rightarrow> 'f raid_env \<Rightarrow> ('f \<Rightarrow> byte list) \<Rightarrow> byte list \<Rightarrow> nat \<Rightarrow> nat list \<Rightarrow> extent list \<Rightarrow> 'f list \<Rightarrow> bool" where
  "object_stored K env written D c Ls es fs \<longleftrightarrow>
     length es = code_n_total K * length Ls \<and> length fs = length es \<and>
     (\<forall>j < length es. extent_stored K env written D c Ls j (es ! j) (fs ! j)) \<and>
     (\<forall>j < length es. \<forall>i < j. i div code_n_total K = j div code_n_total K \<longrightarrow> ext_media (es ! i) \<noteq> ext_media (es ! j))"

text \<open>The layout of a put describes the whole object, and the media hold what it says.\<close>

definition layout_stores ::
  "layout_code \<Rightarrow> 'f raid_env \<Rightarrow> ('f \<Rightarrow> byte list) \<Rightarrow> byte list \<Rightarrow> (string \<times> 'f) list \<Rightarrow> layout_info \<Rightarrow> bool" where
  "layout_stores K env written D media lyt \<longleftrightarrow>
     (\<exists>c Ls es fs. 0 < c \<and> lyt_extents lyt = map (\<lambda>e. e\<lparr>ext_state := PHO_EXT_ST_SYNC\<rparr>) es \<and> sum_list Ls = length D \<and>
        object_stored K env written D c Ls es fs \<and> media = rev (zip (map ext_uuid es) fs))"

subsection \<open>Opening a split\<close>

lemma pho_id_copy_eq: "pho_id_copy dst src = Some m \<Longrightarrow> m = src"
  by (cases src; cases dst) (auto simp: pho_id_copy_def pho_id_name_set_def split: if_splits)

text \<open>The extent of index \<open>idx\<close> of a split that starts at \<open>off\<close>, on the medium \<open>m\<close>.\<close>

definition described :: "extent \<Rightarrow> int \<Rightarrow> size_t \<Rightarrow> pho_id \<Rightarrow> bool" where
  "described e idx off m \<longleftrightarrow> ext_layout_idx e = idx \<and> ext_offset e = off \<and> ext_media e = m \<and> ext_md5 e = None \<and> ext_xxh128 e = None"

lemma get_io_adapters_length:
  "get_io_adapters sys media is (iods, ioa) = Some (rc, iods', ioa') \<Longrightarrow> length iods' = length iods \<and> length ioa' = length ioa"
  by (induction "is" arbitrary: iods ioa) (fastforce simp: Let_def split: if_splits)+

lemma set_extents_info_spec:
  assumes "set_extents_info sys media off (map (\<lambda>i. (i, idx + int i)) [k..<n]) (es, c) = Some (es', c')"
    "\<forall>i < length es. k \<le> i \<longrightarrow> es ! i = extent_zero"
  shows "length es' = length es \<and> (\<forall>i < n. k \<le> i \<longrightarrow> i < length es \<and> described (es' ! i) (idx + int i) off (we_med_id (media ! i))) \<and>
    (\<forall>i < k. es' ! i = es ! i)"
  using assms
proof (induction "n - k" arbitrary: k es c)
  case (Suc m)
  then have k: "[k..<n] = k # [Suc k..<n]" "m = n - Suc k" by (auto simp: upt_rec)
  obtain j where j: "k < length es" "k < length media" "pho_id_copy (ext_media (es ! k)) (we_med_id (media ! k)) = Some j"
    and r: "set_extents_info sys media off (map (\<lambda>i. (i, idx + int i)) [Suc k..<n])
      (es[k := (es ! k)\<lparr>ext_uuid := sys_uuid sys c, ext_layout_idx := idx + int k, ext_offset := off, ext_media := j\<rparr>], c + 1) = Some (es', c')"
    using Suc.prems(1) by (auto simp: k(1) split: if_splits elim!: bind_SomeE)
  have z: "es ! k = extent_zero" using Suc.prems(2) j(1) by simp
  note I = Suc.hyps(1) [OF k(2) r]
  have I: "length es' = length es \<and> (\<forall>i < n. Suc k \<le> i \<longrightarrow> i < length es \<and> described (es' ! i) (idx + int i) off (we_med_id (media ! i))) \<and>
    (\<forall>i < Suc k. es' ! i = es[k := (es ! k)\<lparr>ext_uuid := sys_uuid sys c, ext_layout_idx := idx + int k, ext_offset := off, ext_media := j\<rparr>] ! i)"
    using I Suc.prems(2) by simp
  have "described (es' ! k) (idx + int k) off (we_med_id (media ! k))"
    using I j(1) pho_id_copy_eq [OF j(3)] by (simp add: described_def z extent_zero_def)
  then show ?case using I j(1) by (auto simp: Suc_le_eq order.strict_iff_order)
qed simp

lemma open_extents_spec:
  assumes "open_extents sys objid media es [k..<n] (iods, c) = Some (0, iods', c')"
    "\<And>n oid loc f. sys_open sys n oid loc True = (0, f) \<Longrightarrow> fresh f"
  shows "length iods' = length iods \<and> (\<forall>i < n. k \<le> i \<longrightarrow> i < length iods \<and> fresh (iod_ctx (iods' ! i)) \<and> iod_size (iods' ! i) = 0) \<and>
    (\<forall>i < k. iods' ! i = iods ! i)"
  using assms(1)
proof (induction "n - k" arbitrary: k iods c)
  case (Suc m)
  then have k: "[k..<n] = k # [Suc k..<n]" "m = n - Suc k" by (auto simp: upt_rec)
  obtain loc rc f where k': "k < length iods" and f: "sys_open sys c objid loc True = (rc, f)"
    and r: "(if rc \<noteq> 0 then Some (rc, iods[k := (iods ! k)\<lparr>iod_size := 0, iod_ctx := f\<rparr>], c + 1 + k)
      else open_extents sys objid media es [Suc k..<n] (iods[k := (iods ! k)\<lparr>iod_size := 0, iod_ctx := f\<rparr>], c + 1)) = Some (0, iods', c')"
    using Suc.prems by (auto simp: k(1) Let_def split: if_splits prod.splits elim!: bind_SomeE)
  then have rc: "rc = 0" by (auto split: if_splits)
  with r have r: "open_extents sys objid media es [Suc k..<n] (iods[k := (iods ! k)\<lparr>iod_size := 0, iod_ctx := f\<rparr>], c + 1) = Some (0, iods', c')"
    by simp
  note I = Suc.hyps(1) [OF k(2) r]
  have "fresh f" using assms(2) f rc by simp
  then show ?case using I k' by (auto simp: Suc_le_eq order.strict_iff_order)
qed simp

subsection \<open>States of a put\<close>

text \<open>The writer of one target, with the extents \<open>es\<close> of the splits of sizes \<open>Ls\<close> closed and accounted for.\<close>

definition put_state ::
  "layout_code \<Rightarrow> 'f raid_env \<Rightarrow> ('f \<Rightarrow> byte list) \<Rightarrow> byte list \<Rightarrow> nat list \<Rightarrow> 'f raid_target \<Rightarrow> extent list \<Rightarrow> 'f raid_processor \<Rightarrow> bool" where
  "put_state K env written D Ls w es s \<longleftrightarrow>
     rp_writers s = [w] \<and> length (rp_targets s) = 1 \<and> length (rp_dest_layout s) = 1 \<and>
     dp_type (rp_proc s) = PHO_PROC_ENCODER \<and> \<not> dp_done (rp_proc s) \<and> dp_xt_rc (rp_proc s) = [0] \<and>
     rt_written_extents w = Some es \<and> \<not> rt_released w \<and> ctx_shape K (rt_ctx w) \<and>
     (\<exists>fs. rp_media s = rev (zip (map ext_uuid es) fs) \<and>
        object_stored K env written D (ric_current_split_chunk_size (rt_ctx w)) Ls es fs)"

text \<open>The file that is put: its next bytes are those of the object at the offset of the reader.\<close>

definition source_state :: "('f \<Rightarrow> byte list) \<Rightarrow> ('f \<Rightarrow> bool) \<Rightarrow> byte list \<Rightarrow> 'f raid_processor \<Rightarrow> bool" where
  "source_state unread readable D s \<longleftrightarrow> \<not> rp_need_alloc_to_read s \<and>
     (\<exists>iod. rp_posix s = [iod] \<and> readable (iod_ctx iod) \<and> unread (iod_ctx iod) = drop (dp_reader_offset (rp_proc s)) D \<and>
        iod_size iod = dp_reader_offset (rp_proc s))"

text \<open>The sizes of the chunks and of the buffer, for block sizes of at most \<open>M\<close> bytes.\<close>

definition buffer_state :: "layout_code \<Rightarrow> nat \<Rightarrow> data_processor \<Rightarrow> size_t \<Rightarrow> bool" where
  "buffer_state K M proc c \<longleftrightarrow>
     dp_io_block_size proc \<le> M \<and> 0 < dp_reader_stripe_size proc \<and> dp_reader_stripe_size proc \<le> M \<and> c \<le> M \<and>
     (dp_buff proc \<noteq> [] \<longrightarrow> 0 < c \<and> c * code_n_data K dvd length (dp_buff proc))"

text \<open>At the end of a split of a layout that needs whole stripes.\<close>

definition boundary_aligned :: "byte list \<Rightarrow> data_processor \<Rightarrow> size_t \<Rightarrow> bool" where
  "boundary_aligned D proc c \<longleftrightarrow>
     2 * c dvd (dp_writer_offset proc - dp_buffer_offset proc) \<and>
     (dp_reader_offset proc = dp_buffer_offset proc + length (dp_buff proc) \<or> dp_reader_offset proc = length D \<or>
      dp_reader_offset proc = dp_writer_offset proc)"

text \<open>Between two splits.\<close>

definition at_boundary ::
  "layout_code \<Rightarrow> nat \<Rightarrow> byte list \<Rightarrow> nat list \<Rightarrow> 'f raid_target \<Rightarrow> extent list \<Rightarrow> data_processor \<Rightarrow> bool" where
  "at_boundary K M D Ls w es proc \<longleftrightarrow>
     (let ctx = rt_ctx w; c = ric_current_split_chunk_size ctx
      in dp_current_target proc = 0 \<and> offsets_order D proc \<and> pending D proc \<and> buffer_state K M proc c \<and>
         (code_strict K \<longrightarrow> boundary_aligned D proc c) \<and> dp_writer_offset proc = sum_list Ls \<and>
         ric_current_split ctx = length Ls \<and> ric_current_split_offset ctx = sum_list Ls \<and>
         ric_out_extents ctx = replicate (code_n_total K) extent_zero \<and> (ric_all_is_written ctx \<longrightarrow> D = [] \<and> es = []) \<and> (Ls \<noteq> [] \<longrightarrow> 0 < c))"

text \<open>Inside a split, whose extents are on the media \<open>ms\<close>.\<close>

definition in_split ::
  "layout_code \<Rightarrow> ('f \<Rightarrow> byte list) \<Rightarrow> ('f \<Rightarrow> bool) \<Rightarrow> nat \<Rightarrow> byte list \<Rightarrow> nat list \<Rightarrow> 'f raid_target \<Rightarrow> data_processor \<Rightarrow> bool" where
  "in_split K written writable M D Ls w proc \<longleftrightarrow>
     (let ctx = rt_ctx w; c = ric_current_split_chunk_size ctx; n = code_n_total K
      in dp_current_target proc = 0 \<and> split_state K written writable D proc ctx \<and> buffer_state K M proc c \<and>
         dp_writer_stripe_size proc = c * code_n_data K \<and> (ric_all_is_written ctx \<longrightarrow> dp_writer_offset proc = length D) \<and>
         ric_current_split ctx = length Ls \<and> ric_current_split_offset ctx = sum_list Ls \<and>
         (\<exists>ms. distinct ms \<and> length ms = n \<and>
            (\<forall>i < n. described (ric_out_extents ctx ! i) (int (length Ls * n + i)) (sum_list Ls) (ms ! i) \<and>
               code_info K c (ext_info (ric_out_extents ctx ! i)))))"

text \<open>The context of a split once its extents are described and opened.\<close>

definition opened ::
  "layout_code \<Rightarrow> ('f \<Rightarrow> byte list) \<Rightarrow> ('f \<Rightarrow> bool) \<Rightarrow> nat \<Rightarrow> 'f raid_io_context \<Rightarrow> 'f raid_io_context \<Rightarrow> write_elt list \<Rightarrow> size_t \<Rightarrow> bool" where
  "opened K written writable M ctx ctx' media off \<longleftrightarrow>
     ctx' = ctx\<lparr>ric_iods := ric_iods ctx', ric_out_extents := ric_out_extents ctx', ric_current_split_chunk_size := ric_current_split_chunk_size ctx'\<rparr> \<and>
     ctx_shape K ctx' \<and> 0 < ric_current_split_chunk_size ctx' \<and> ric_current_split_chunk_size ctx' \<le> M \<and>
     (ric_current_split_chunk_size ctx \<noteq> 0 \<longrightarrow> ric_current_split_chunk_size ctx' = ric_current_split_chunk_size ctx) \<and>
     (\<forall>i < code_n_total K. writable (iod_ctx (ric_iods ctx' ! i)) \<and> written (iod_ctx (ric_iods ctx' ! i)) = [] \<and> iod_size (ric_iods ctx' ! i) = 0 \<and>
        described (ric_out_extents ctx' ! i) (int (ric_current_split ctx * code_n_total K + i)) off (we_med_id (media ! i)))"

locale raid_put = raid_code env unread readable written writable ops K
  for env :: "'f raid_env" and unread readable written writable ops K +
  fixes sys :: "'f raid_sys" and M :: nat
  assumes sys_env: "sys_env sys = env"
    and open_put: "sys_open sys n oid loc True = (0, f) \<Longrightarrow> writable f \<and> written f = []"
    and page_size: "0 < sys_page_size sys" "sys_page_size sys \<le> int M"
    and preferred: "0 \<le> sys_preferred_io_size sys f" "sys_preferred_io_size sys f \<le> int M"
    and small: "M * (M * code_n_data K) < size_max"


context raid_put
begin

lemma chunk_chosen:
  assumes "choose_chunk_size sys proc n ctx = Some ctx'" "ric_current_split_chunk_size ctx \<le> M" "dp_io_block_size proc \<le> M"
    "0 < n" "n = length (ric_iods ctx)"
  shows "\<exists>c. ctx' = ctx\<lparr>ric_current_split_chunk_size := c\<rparr> \<and> 0 < c \<and> c \<le> M \<and>
    (ric_current_split_chunk_size ctx \<noteq> 0 \<longrightarrow> c = ric_current_split_chunk_size ctx)"
proof -
  define g where "g iod = c_size (if sys_preferred_io_size sys (iod_ctx iod) \<le> 0 then sys_page_size sys else sys_preferred_io_size sys (iod_ctx iod))"
    for iod :: "'f pho_io_descr"
  have keep: "foldl (\<lambda>chunk iod. if chunk = 0 then g iod else chunk) a iods = a" if "a \<noteq> 0" for a iods
    using that by (induction iods) simp_all
  have size: "0 < c_size x \<and> c_size x \<le> M" if "0 < x" "x \<le> int M" for x
  proof -
    have "M \<le> M * (M * code_n_data K)" using n_data mult_le_mono2 [of 1 "M * code_n_data K" M] by (cases "M = 0") simp_all
    then have "M < size_max" using small by (rule le_less_trans)
    then show ?thesis using that by (auto simp: c_size_def nat_less_iff size_max_def)
  qed
  show ?thesis
  proof (cases "ric_current_split_chunk_size ctx \<noteq> 0 \<or> dp_io_block_size proc \<noteq> 0")
    case True
    then show ?thesis using assms(1-3) by (auto simp: choose_chunk_size_def split: if_splits intro!: exI [of _ "ric_current_split_chunk_size ctx'"])
  next
    case False
    obtain d iods where d: "ric_iods ctx = d # iods" using assms(4,5) by (cases "ric_iods ctx") auto
    have x: "0 < g d \<and> g d \<le> M" using size page_size preferred by (simp add: g_def)
    have "ctx' = ctx\<lparr>ric_current_split_chunk_size := foldl (\<lambda>chunk iod. if chunk = 0 then g iod else chunk) 0 (d # iods)\<rparr>"
      using assms(1,5) False unfolding choose_chunk_size_def set_current_split_chunk_size_def Let_def g_def [symmetric] by (simp add: d)
    then have "ctx' = ctx\<lparr>ric_current_split_chunk_size := g d\<rparr>" using keep x by simp
    then show ?thesis using x False by auto
  qed
qed

lemma open_split_spec:
  assumes "open_split sys s md media (code_n_total K) ctx = Some (0, ctx', k)" "ctx_shape K ctx" "\<not> is_rebuilder (rp_proc s)"
    and "ric_out_extents ctx = replicate (code_n_total K) extent_zero" "ric_current_split_chunk_size ctx \<le> M" "dp_io_block_size (rp_proc s) \<le> M"
    and "ric_current_split ctx * code_n_total K < 2 ^ 31"
  shows "opened K written writable M ctx ctx' media (dp_writer_offset (rp_proc s))"
proof -
  define n idx where "n = code_n_total K" and "idx = int (ric_current_split ctx * n)"
  have n: "0 < n" using n_data by (simp add: n_def code_n_total_def)
  have ci: "c_int (int (ric_current_split ctx * n)) = int (ric_current_split ctx * n)"
    using assms(7) by (intro c_int_exact) (simp_all add: n_def flip: of_nat_mult)
  have total: "n_total_extents (ctx\<lparr>ric_iods := x\<rparr>) = n" for x using ctx_shape_total [OF assms(2)] by (simp add: n_def n_total_extents_def)
  obtain iods1 es k1 iods2 k2 where 1: "raid_io_context_setmd n md (ric_iods ctx) = Some iods1"
    and 2: "set_extents_info sys media (dp_writer_offset (rp_proc s)) (map (\<lambda>i. (i, idx + int i)) [0..<n]) (ric_out_extents ctx, rp_calls s) = Some (es, k1)"
    and 3: "open_extents sys (xt_objid (rp_targets s ! current_target s)) media es [0..<n] (iods1, k1) = Some (0, iods2, k2)"
    and 4: "choose_chunk_size sys (rp_proc s) n (ctx\<lparr>ric_out_extents := es, ric_iods := iods2\<rparr>) = Some ctx'"
    using assms(1-3) ci total
    by (auto simp: open_split_def set_extent_info_def raid_writer_set_extent_info_def raid_io_context_open_def n_def idx_def
        simp del: of_nat_mult split: if_splits elim!: bind_SomeE bind_Some2E bind_Some3E)
  have len: "length iods1 = n" "length (ric_out_extents ctx) = n"
    using 1 assms(2) by (auto simp: raid_io_context_setmd_def ctx_shape_def n_def split: if_splits)
  have E: "length es = n" "\<And>i. i < n \<Longrightarrow> described (es ! i) (idx + int i) (dp_writer_offset (rp_proc s)) (we_med_id (media ! i))"
    using set_extents_info_spec [OF 2] assms(4) len(2) by (auto simp: n_def)
  have O: "length iods2 = n" "\<And>i. i < n \<Longrightarrow> writable (iod_ctx (iods2 ! i)) \<and> written (iod_ctx (iods2 ! i)) = [] \<and> iod_size (iods2 ! i) = 0"
    using open_extents_spec [OF 3, of "\<lambda>f. writable f \<and> written f = []"] open_put len(1) by auto
  have small_chunk: "ric_current_split_chunk_size (ctx\<lparr>ric_out_extents := es, ric_iods := iods2\<rparr>) \<le> M" using assms(5) by simp
  have n_iods: "n = length (ric_iods (ctx\<lparr>ric_out_extents := es, ric_iods := iods2\<rparr>))" using O(1) by simp
  obtain c where c: "ctx' = ctx\<lparr>ric_out_extents := es, ric_iods := iods2, ric_current_split_chunk_size := c\<rparr>" "0 < c" "c \<le> M"
    "ric_current_split_chunk_size ctx \<noteq> 0 \<longrightarrow> c = ric_current_split_chunk_size ctx"
    using chunk_chosen [OF 4 small_chunk assms(6) n n_iods] by (elim exE conjE) simp
  have shape: "ctx_shape K ctx'" using assms(2) E(1) O(1) by (simp add: c(1) ctx_shape_def n_def)
  have "described (ric_out_extents ctx' ! i) (int (ric_current_split ctx * n + i)) (dp_writer_offset (rp_proc s)) (we_med_id (media ! i))" if "i < n" for i
    using E(2) [OF that] by (simp add: c(1) idx_def)
  then show ?thesis
    using O(2) c(2-4) shape unfolding opened_def n_def [symmetric] by (simp add: c(1))
qed

end


subsection \<open>Starting a split\<close>

lemma reset_hashes_spec:
  "reset_hashes env hs = (0, hs') \<Longrightarrow> length hs' = length hs \<and> (\<forall>i < length hs. hash_fed (hs' ! i) [])"
proof (induction hs arbitrary: hs')
  case (Cons h hs)
  then obtain h1 hs1 where "extent_hash_reset env h = (0, h1)" "reset_hashes env hs = (0, hs1)" "hs' = h1 # hs1"
    by (auto simp: Let_def split: prod.splits if_splits)
  then show ?case using Cons.IH hash_fed_reset by (auto simp: nth_Cons split: nat.splits)
qed simp

lemma foldl_size_add: "a + sum_list xs < size_max \<Longrightarrow> foldl size_add a xs = a + sum_list xs"
  by (induction xs arbitrary: a) (simp_all add: size_add_exact)

lemma fit_buffer_same: "fit_buffer m buff = Some buff' \<Longrightarrow> buff = [] \<or> m dvd length buff \<Longrightarrow> buff' = buff"
  by (auto simp: fit_buffer_def split: if_splits)

text \<open>What the media of an allocation must give: they differ, and a layout of whole stripes finds room for a chunk on each.\<close>

definition media_ok :: "layout_code \<Rightarrow> nat \<Rightarrow> write_elt list \<Rightarrow> bool" where
  "media_ok K M media \<longleftrightarrow> distinct (map we_med_id media) \<and> (code_strict K \<longrightarrow> (\<forall>m \<in> set media. M \<le> we_avail_size m))"

lemma share_size_0 [simp]: "share_size n 0 i = 0"
  by (simp add: share_size_def)

lemma extra_frameD:
  assumes "extra_frame info ctx ctx'" "i < n" "length (ric_iods ctx) = n" "length (ric_out_extents ctx) = n"
  shows "\<exists>a. ric_out_extents ctx' ! i = (ric_out_extents ctx ! i)\<lparr>ext_info := a\<rparr> \<and> info (ric_out_extents ctx' ! i)"
    "\<exists>a. ric_iods ctx' ! i = (ric_iods ctx ! i)\<lparr>iod_attrs := a\<rparr>"
  using assms by (auto simp: extra_frame_def list_all2_conv_all_nth)

context raid_put
begin

lemma content_Nil: "0 < c \<Longrightarrow> i < code_n_total K \<Longrightarrow> code_content K c [] ! i = []"
  using content_size [of c i "[]"] by simp

lemma stripe_exact: "c \<le> M \<Longrightarrow> size_mul c (code_n_data K) = c * code_n_data K"
proof -
  assume "c \<le> M"
  then have "c * code_n_data K \<le> M * code_n_data K" by simp
  also have "\<dots> \<le> M * (M * code_n_data K)" by (cases "M = 0") simp_all
  finally have "c * code_n_data K < size_max" using small by (rule le_less_trans)
  then show ?thesis by (rule size_mul_exact)
qed

lemma size_split_sizes:
  assumes "split_extent_size ctx proc media = Some (es, rem)" "raid_io_context_set_extent_size ty es rem ctx = Some ctx'"
    and "ty \<noteq> PHO_PROC_REBUILDER" "ctx_shape K ctx" "dp_writer_offset proc = ric_current_split_offset ctx"
    and "offsets_order D proc" "code_strict K \<longrightarrow> (\<forall>m \<in> set media. ric_current_split_chunk_size ctx \<le> we_avail_size m)"
  shows "\<exists>L. dp_writer_offset proc + L \<le> length D \<and> ctx' = ctx\<lparr>ric_out_extents := ric_out_extents ctx'\<rparr> \<and>
    length (ric_out_extents ctx') = code_n_total K \<and>
    (\<forall>i < code_n_total K. ric_out_extents ctx' ! i = (ric_out_extents ctx ! i)\<lparr>ext_size := share_size (code_n_data K) L i\<rparr>) \<and>
    foldl size_add 0 (map ext_size (take (code_n_data K) (ric_out_extents ctx'))) = L \<and>
    (code_strict K \<longrightarrow> 2 * ric_current_split_chunk_size ctx dvd L \<or> dp_writer_offset proc + L = length D)"
proof -
  let ?n = "code_n_data K" and ?c = "ric_current_split_chunk_size ctx"
  have n: "?n = ric_n_data_extents ctx" using assms(4) by (simp add: ctx_shape_def)
  have D: "dp_object_size proc = length D" "dp_writer_offset proc \<le> length D" "2 * length D + 2 < size_max"
    using assms(6) by (auto simp: offsets_order_def)
  obtain L where L: "es = L div ?n" "rem = L mod ?n" "dp_writer_offset proc + L \<le> length D"
    "dp_writer_offset proc + L = length D \<or> L = es * ?n \<and> (?c dvd es \<or> es < ?c \<and> es \<in> we_avail_size ` set (take (n_total_extents ctx) media))"
    using split_extent_size_spec [OF assms(1) n refl assms(5) _ _ refl] D assms(5) by auto
  have small_L: "L div ?n + 1 < size_max" using L(3) D(3) div_le_dividend [of L ?n] by linarith
  note S = set_extent_size_writer [OF assms(2) [unfolded L(1,2)] assms(3) n small_L]
  have len: "length (ric_out_extents ctx') = code_n_total K" using S assms(4) by (simp add: ctx_shape_def)
  have "map ext_size (take ?n (ric_out_extents ctx')) = map (share_size ?n L) [0..<?n]"
    using S len ctx_shape_total [OF assms(4)] by (intro nth_equalityI) (auto simp: code_n_total_def)
  then have "foldl size_add 0 (map ext_size (take ?n (ric_out_extents ctx'))) = L"
    using foldl_size_add [of 0 "map (share_size ?n L) [0..<?n]"] sum_share_size [OF n_data, of L] L(3) D(3) by simp
  moreover have "2 * ?c dvd L" if "code_strict K" "dp_writer_offset proc + L \<noteq> length D"
  proof -
    have "?c dvd es" using L(4) that assms(7) by (fastforce dest: in_set_takeD)
    moreover have "L = es * 2" using L(4) that strict_data by simp
    ultimately show ?thesis by (simp add: mult.commute mult_dvd_mono)
  qed
  ultimately show ?thesis using L(3) S len ctx_shape_total [OF assms(4)] by (intro exI [of _ L]) auto
qed

end


lemma size_split_okE:
  assumes "size_split sys ops media proc ctx = Some (0, p, ctx')"
  obtains es rem c2 buff hs where "split_extent_size ctx proc media = Some (es, rem)"
    "raid_io_context_set_extent_size (dp_type proc) es rem ctx = Some c2"
    "fit_buffer (size_mul (ric_current_split_chunk_size ctx) (ric_n_data_extents ctx)) (dp_buff proc) = Some buff"
    "reset_hashes (sys_env sys) (ric_hashes c2) = (0, hs)"
    "op_set_extra_attrs ops (dp_type proc) (c2\<lparr>ric_hashes := hs,
       ric_current_split_size := foldl size_add 0 (map ext_size (take (ric_n_data_extents c2) (ric_out_extents c2)))\<rparr>) = Some (0, ctx')"
    "p = proc\<lparr>dp_writer_stripe_size := size_mul (ric_current_split_chunk_size ctx) (ric_n_data_extents ctx), dp_buff := buff\<rparr>"
proof -
  obtain es rem c2 buff where 1: "split_extent_size ctx proc media = Some (es, rem)"
    "raid_io_context_set_extent_size (dp_type proc) es rem ctx = Some c2"
    "fit_buffer (size_mul (ric_current_split_chunk_size ctx) (ric_n_data_extents ctx)) (dp_buff proc) = Some buff"
    using assms unfolding size_split_def Let_def by (elim bind_Some2E bind_SomeE) blast
  obtain rc hs where hs: "reset_hashes (sys_env sys) (ric_hashes c2) = (rc, hs)" by (cases "reset_hashes (sys_env sys) (ric_hashes c2)")
  show thesis
    by (rule that [OF 1, of hs]; use assms 1 hs in \<open>cases "rc = 0"; simp add: size_split_def Let_def split: if_splits\<close>)
      (auto elim!: bind_Some2E)
qed

context raid_put
begin

lemma size_split_spec:
  assumes "size_split sys ops media proc ctx1 = Some (0, p, ctx2)" "opened K written writable M ctx ctx1 media (ric_current_split_offset ctx)"
    and "dp_type proc \<noteq> PHO_PROC_REBUILDER" "dp_writer_offset proc = ric_current_split_offset ctx"
    and "offsets_order D proc" "pending D proc" "dp_buff proc = [] \<or> ric_current_split_chunk_size ctx1 * code_n_data K dvd length (dp_buff proc)"
    and "code_strict K \<longrightarrow> boundary_aligned D proc (ric_current_split_chunk_size ctx1) \<and> (\<forall>m \<in> set media. M \<le> we_avail_size m)"
  shows "p = proc\<lparr>dp_writer_stripe_size := ric_current_split_chunk_size ctx1 * code_n_data K\<rparr> \<and> split_state K written writable D p ctx2 \<and>
     ric_current_split ctx2 = ric_current_split ctx \<and> ric_current_split_offset ctx2 = ric_current_split_offset ctx \<and>
     ric_current_split_chunk_size ctx2 = ric_current_split_chunk_size ctx1 \<and> ric_all_is_written ctx2 = ric_all_is_written ctx \<and>
     (\<forall>i < code_n_total K. described (ric_out_extents ctx2 ! i) (int (ric_current_split ctx * code_n_total K + i)) (ric_current_split_offset ctx) (we_med_id (media ! i)) \<and>
        code_info K (ric_current_split_chunk_size ctx1) (ext_info (ric_out_extents ctx2 ! i)))"
proof -
  let ?c = "ric_current_split_chunk_size ctx1" and ?n = "code_n_total K" and ?off = "ric_current_split_offset ctx"
  have o: "ctx1 = ctx\<lparr>ric_iods := ric_iods ctx1, ric_out_extents := ric_out_extents ctx1, ric_current_split_chunk_size := ?c\<rparr>"
    "ctx_shape K ctx1" "0 < ?c" "?c \<le> M"
    "\<And>i. i < ?n \<Longrightarrow> writable (iod_ctx (ric_iods ctx1 ! i)) \<and> written (iod_ctx (ric_iods ctx1 ! i)) = [] \<and> iod_size (ric_iods ctx1 ! i) = 0 \<and>
        described (ric_out_extents ctx1 ! i) (int (ric_current_split ctx * ?n + i)) ?off (we_med_id (media ! i))"
    using assms(2) unfolding opened_def by blast+
  have f: "ric_current_split ctx1 = ric_current_split ctx" "ric_current_split_offset ctx1 = ?off" "ric_all_is_written ctx1 = ric_all_is_written ctx"
    using arg_cong [OF o(1), of ric_current_split] arg_cong [OF o(1), of ric_current_split_offset] arg_cong [OF o(1), of ric_all_is_written]
    by simp_all
  have shape: "ric_n_data_extents ctx1 = code_n_data K" "length (ric_iods ctx1) = ?n" "length (ric_hashes ctx1) = ?n" "length (ric_out_extents ctx1) = ?n"
    using o(2) by (simp_all add: ctx_shape_def)
  obtain es rem c2 buff hs where 1: "split_extent_size ctx1 proc media = Some (es, rem)"
      "raid_io_context_set_extent_size (dp_type proc) es rem ctx1 = Some c2" "fit_buffer (?c * code_n_data K) (dp_buff proc) = Some buff"
      "reset_hashes env (ric_hashes c2) = (0, hs)"
      "op_set_extra_attrs ops (dp_type proc) (c2\<lparr>ric_hashes := hs,
         ric_current_split_size := foldl size_add 0 (map ext_size (take (ric_n_data_extents c2) (ric_out_extents c2)))\<rparr>) = Some (0, ctx2)"
      "p = proc\<lparr>dp_writer_stripe_size := ?c * code_n_data K, dp_buff := buff\<rparr>"
    using size_split_okE [OF assms(1)] unfolding sys_env shape(1) stripe_exact [OF o(4)] by metis
  have off: "dp_writer_offset proc = ric_current_split_offset ctx1" using assms(4) f by simp
  have room: "code_strict K \<longrightarrow> (\<forall>m \<in> set media. ?c \<le> we_avail_size m)" using assms(8) o(4) order_trans by blast
  obtain L where L: "dp_writer_offset proc + L \<le> length D" "c2 = ctx1\<lparr>ric_out_extents := ric_out_extents c2\<rparr>"
      "length (ric_out_extents c2) = ?n" "\<And>i. i < ?n \<Longrightarrow> ric_out_extents c2 ! i = (ric_out_extents ctx1 ! i)\<lparr>ext_size := share_size (code_n_data K) L i\<rparr>"
      "foldl size_add 0 (map ext_size (take (code_n_data K) (ric_out_extents c2))) = L"
      "code_strict K \<longrightarrow> 2 * ?c dvd L \<or> dp_writer_offset proc + L = length D"
    using size_split_sizes [OF 1(1,2) assms(3) o(2) off assms(5) room] by blast
  obtain es2 where c2: "c2 = ctx1\<lparr>ric_out_extents := es2\<rparr>" using L(2) by blast
  note L = L(1,3-6) [unfolded c2, simplified]
  define c3 where "c3 = ctx1\<lparr>ric_out_extents := es2, ric_hashes := hs, ric_current_split_size := L\<rparr>"
  have hs: "length hs = ?n" "\<And>i. i < ?n \<Longrightarrow> hash_fed (hs ! i) []" using reset_hashes_spec [OF 1(4)] shape(3) by (simp_all add: c2)
  have c3: "ctx_shape K c3" "length (ric_iods c3) = ?n" "length (ric_out_extents c3) = ?n" "ric_current_split_chunk_size c3 = ?c"
    using o(2) L(2) hs(1) by (simp_all add: c3_def ctx_shape_def)
  have "op_set_extra_attrs ops (dp_type proc) c3 = Some (0, ctx2)" using 1(5) L(4) shape(1) by (simp add: c2 c3_def)
  then have x: "extra_frame (\<lambda>e. code_info K ?c (ext_info e)) c3 ctx2" using extra_law [OF assms(3) c3(1)] c3(4) by simp
  note E = extra_frameD(1) [OF x _ c3(2,3)] and I = extra_frameD(2) [OF x _ c3(2,3)]
  obtain es4 iods4 where c4: "ctx2 = c3\<lparr>ric_out_extents := es4, ric_iods := iods4\<rparr>" using x unfolding extra_frame_def by blast
  have len4: "length es4 = ?n" "length iods4 = ?n" using x c3(2,3) by (simp_all add: extra_frame_def list_all2_conv_all_nth c4)
  have buff: "buff = dp_buff proc" using fit_buffer_same [OF 1(3)] assms(7) by blast
  have p: "p = proc\<lparr>dp_writer_stripe_size := ?c * code_n_data K\<rparr>" using 1(6) by (simp add: buff)
  have "extents_are written writable ctx2 (code_content K ?c [])"
    using o(3,5) hs I content_Nil [OF o(3)] by (fastforce simp: extents_are_def content_length c4 len4 c3_def)
  moreover have "ext_size (es4 ! i) = share_size (code_n_data K) L i" if "i < ?n" for i
    using E [OF that] L(3) [OF that] by (auto simp: c4 c3_def)
  moreover have "stripes_aligned D p ctx2" if "code_strict K"
    using assms(7,8) that L(5) o(3) strict_data [OF that] off f
    by (auto simp: stripes_aligned_def boundary_aligned_def Let_def p c4 c3_def mult.commute)
  ultimately have "split_state K written writable D p ctx2"
    using assms(3-6) L(1) o(3) f c3(1) len4
    by (simp add: split_state_def Let_def p c4 c3_def is_rebuilder_def offsets_order_def pending_def ctx_shape_def)
  moreover have "described (es4 ! i) (int (ric_current_split ctx * ?n + i)) ?off (we_med_id (media ! i))" if "i < ?n" for i
    using E [OF that] L(3) [OF that] o(5) [OF that] by (auto simp: c4 c3_def described_def)
  moreover have "code_info K ?c (ext_info (es4 ! i))" if "i < ?n" for i using E [OF that] by (auto simp: c4)
  ultimately show ?thesis using f by (simp add: p c4 c3_def)
qed

end


lemma openedD:
  assumes "opened K written writable M ctx ctx' media off"
  shows "0 < ric_current_split_chunk_size ctx'" "ric_current_split_chunk_size ctx' \<le> M"
    "ric_current_split_chunk_size ctx \<noteq> 0 \<longrightarrow> ric_current_split_chunk_size ctx' = ric_current_split_chunk_size ctx"
  using assms unfolding opened_def by blast+

lemma put_stateD:
  assumes "put_state K env written D Ls w es s" "dp_current_target (rp_proc s) = 0"
  shows "rp_writers s = [w]" "current_writer s = Some w" "current_target s = 0" "set_current_writer s w' = s\<lparr>rp_writers := [w']\<rparr>"
    "ctx_shape K (rt_ctx w)" "dp_type (rp_proc s) = PHO_PROC_ENCODER" "length (rp_targets s) = 1" "target_rc (rp_proc s) = 0"
  using assms by (simp_all add: put_state_def current_writer_def current_target_def set_current_writer_def target_rc_def)

lemma object_stored_count: "object_stored K env written D c Ls es fs \<Longrightarrow> length es = code_n_total K * length Ls"
  by (simp add: object_stored_def)

lemma object_stored_Nil: "object_stored K env written D c [] es fs \<Longrightarrow> object_stored K env written D c' [] es fs"
  by (simp add: object_stored_def)

context raid_put
begin

lemma common_split_setup_okE:
  assumes "common_split_setup sys s = Some (0, s')" "current_writer s = Some w" "rp_write_resp s = Some (media, thr)"
  obtains ctx ioa k iods where "s' = set_current_writer (s\<lparr>rp_calls := k\<rparr>) (w\<lparr>rt_ctx := ctx, rt_ioa := ioa\<rparr>)"
    "length media = get_n_extents (rt_ctx w) (dp_type (rp_proc s))" "length iods = length (ric_iods (rt_ctx w))"
    "open_split sys s (rt_user_md w) media (get_n_extents (rt_ctx w) (dp_type (rp_proc s))) ((rt_ctx w)\<lparr>ric_iods := iods\<rparr>) = Some (0, ctx, k)"
proof -
  have "length media = get_n_extents (rt_ctx w) (dp_type (rp_proc s))"
    using assms by (auto simp: common_split_setup_def Let_def split: if_splits)
  moreover from this obtain rc iods ioa ctx k where
      g: "get_io_adapters sys media [0..<get_n_extents (rt_ctx w) (dp_type (rp_proc s))] (ric_iods (rt_ctx w), rt_ioa w) = Some (rc, iods, ioa)"
    and r: "(if rc \<noteq> 0 then Some (rc, (rt_ctx w)\<lparr>ric_iods := iods\<rparr>, rp_calls s)
        else open_split sys s (rt_user_md w) media (get_n_extents (rt_ctx w) (dp_type (rp_proc s))) ((rt_ctx w)\<lparr>ric_iods := iods\<rparr>)) = Some (0, ctx, k)"
    and "s' = set_current_writer (s\<lparr>rp_calls := k\<rparr>) (w\<lparr>rt_ctx := ctx, rt_ioa := ioa\<rparr>)"
    using assms unfolding common_split_setup_def Let_def by (auto elim!: bind_Some3E)
  ultimately show thesis using that get_io_adapters_length [OF g] by (auto split: if_splits)
qed

lemma split_setup_in_split:
  assumes "raid_writer_split_setup sys ops s = Some (0, s')" "put_state K env written D Ls w es s" "at_boundary K M D Ls w es (rp_proc s)"
    and "rp_write_resp s = Some (media, thr)" "media_ok K M media" "length es + code_n_total K \<le> 2 ^ 31"
  shows "\<exists>w' k p. s' = s\<lparr>rp_calls := k, rp_writers := [w'], rp_proc := p\<rparr> \<and> (\<exists>m. p = (rp_proc s)\<lparr>dp_writer_stripe_size := m\<rparr>) \<and>
     put_state K env written D Ls w' es s' \<and> in_split K written writable M D Ls w' p"
proof -
  define n ctx where "n = code_n_total K" and "ctx = rt_ctx w"
  have n: "0 < n" using n_data by (simp add: n_def code_n_total_def)
  have B: "dp_current_target (rp_proc s) = 0" "offsets_order D (rp_proc s)" "pending D (rp_proc s)"
    "buffer_state K M (rp_proc s) (ric_current_split_chunk_size ctx)" "code_strict K \<longrightarrow> boundary_aligned D (rp_proc s) (ric_current_split_chunk_size ctx)"
    "dp_writer_offset (rp_proc s) = sum_list Ls" "ric_current_split ctx = length Ls" "ric_current_split_offset ctx = sum_list Ls"
    "ric_out_extents ctx = replicate n extent_zero" "Ls \<noteq> [] \<longrightarrow> 0 < ric_current_split_chunk_size ctx"
    "ric_all_is_written ctx \<longrightarrow> D = []"
    using assms(3) by (simp_all add: at_boundary_def Let_def ctx_def n_def)
  note S = put_stateD [OF assms(2) B(1)]
  have shape: "get_n_extents ctx (dp_type (rp_proc s)) = n" using ctx_shape_total [OF S(5)] S(6) by (simp add: get_n_extents_def n_def ctx_def)
  have few: "ric_current_split ctx * n < 2 ^ 31"
    using assms(2,6) n object_stored_count B(7) by (force simp: put_state_def n_def mult.commute)
  obtain s1 where c: "common_split_setup sys s = Some (0, s1)"
    using assms(1) by (auto simp: raid_writer_split_setup_def seq_proc_def split: option.splits if_splits)
  obtain ctx1 ioa k iods where 1: "s1 = set_current_writer (s\<lparr>rp_calls := k\<rparr>) (w\<lparr>rt_ctx := ctx1, rt_ioa := ioa\<rparr>)" "length media = n"
    "length iods = length (ric_iods ctx)" "open_split sys s (rt_user_md w) media n (ctx\<lparr>ric_iods := iods\<rparr>) = Some (0, ctx1, k)"
    using common_split_setup_okE [OF c S(2) assms(4)] shape unfolding ctx_def [symmetric] by metis
  have O: "opened K written writable M (ctx\<lparr>ric_iods := iods\<rparr>) ctx1 media (sum_list Ls)"
    using open_split_spec [OF 1(4) [unfolded n_def]] S(5,6) B(4,6,7,9) few 1(3)
    by (simp add: ctx_shape_def is_rebuilder_def n_def ctx_def [symmetric] buffer_state_def)
  define w1 where "w1 = w\<lparr>rt_ctx := ctx1, rt_ioa := ioa\<rparr>"
  have s1: "s1 = s\<lparr>rp_calls := k, rp_writers := [w1]\<rparr>" by (simp add: 1(1) set_current_writer_def current_target_def B(1) S(1) w1_def)
  then have w1: "current_writer s1 = Some w1" "current_target s1 = 0" by (simp_all add: current_writer_def current_target_def B(1))
  obtain p ctx2 where 2: "size_split sys ops media (rp_proc s) ctx1 = Some (0, p, ctx2)" "s' = s1\<lparr>rp_writers := [w1\<lparr>rt_ctx := ctx2\<rparr>], rp_proc := p\<rparr>"
    using assms(1,4) c w1 by (auto simp: raid_writer_split_setup_def seq_proc_def s1 w1_def set_current_writer_def elim!: bind_Some3E)
  let ?c = "ric_current_split_chunk_size ctx1"
  have c: "0 < ?c" "?c \<le> M" "ric_current_split_chunk_size ctx \<noteq> 0 \<longrightarrow> ?c = ric_current_split_chunk_size ctx"
    using openedD [OF O] by simp_all
  have al: "boundary_aligned D (rp_proc s) ?c" if "code_strict K"
  proof (cases "dp_buff (rp_proc s) = []")
    case True
    then show ?thesis using B(2) by (auto simp: boundary_aligned_def offsets_order_def)
  next
    case False
    then show ?thesis using B(4,5) c(3) that by (auto simp: buffer_state_def)
  qed
  have "dp_buff (rp_proc s) = [] \<or> ?c * code_n_data K dvd length (dp_buff (rp_proc s))" using B(4) c(3) by (auto simp: buffer_state_def)
  from size_split_spec [OF 2(1), of "ctx\<lparr>ric_iods := iods\<rparr>" D] this al
  have p: "p = (rp_proc s)\<lparr>dp_writer_stripe_size := ?c * code_n_data K\<rparr>" and st: "split_state K written writable D p ctx2"
    and f: "ric_current_split ctx2 = length Ls" "ric_current_split_offset ctx2 = sum_list Ls" "ric_current_split_chunk_size ctx2 = ?c"
      "ric_all_is_written ctx2 = ric_all_is_written ctx" "\<And>i. i < n \<Longrightarrow> described (ric_out_extents ctx2 ! i) (int (length Ls * n + i)) (sum_list Ls) (map we_med_id media ! i) \<and> code_info K ?c (ext_info (ric_out_extents ctx2 ! i))"
    using O S(6) B(2,3,6-8) assms(5) 1(2) by (auto simp: media_ok_def n_def)
  have "in_split K written writable M D Ls (w1\<lparr>rt_ctx := ctx2\<rparr>) p"
    using st f B(1,2,4,11) c 1(2) assms(5) n_def
    by (auto simp: offsets_order_def in_split_def Let_def p buffer_state_def media_ok_def intro!: exI [of _ "map we_med_id media"])
  moreover have "put_state K env written D Ls (w1\<lparr>rt_ctx := ctx2\<rparr>) es s'"
    using assms(2) st f(3) c(3) B(10) by (cases "Ls = []") (auto simp: put_state_def 2(2) s1 w1_def p split_state_def Let_def ctx_def intro: object_stored_Nil)
  ultimately show ?thesis using p unfolding 2(2) s1 by auto
qed

end


subsection \<open>Closing a split\<close>

text \<open>The parts of the processor that closing a split does not change.\<close>

definition put_frame :: "'f raid_processor \<Rightarrow> 'f raid_processor \<Rightarrow> bool" where
  "put_frame s s' \<longleftrightarrow> rp_proc s' = rp_proc s \<and> rp_targets s' = rp_targets s \<and> rp_dest_layout s' = rp_dest_layout s \<and>
     rp_posix s' = rp_posix s \<and> rp_need_alloc_to_write s' = rp_need_alloc_to_write s \<and> rp_need_alloc_to_read s' = rp_need_alloc_to_read s"

lemma put_frame_trans: "put_frame a b \<Longrightarrow> put_frame b c \<Longrightarrow> put_frame a c"
  by (simp add: put_frame_def)

text \<open>The extent \<open>e'\<close> is \<open>e\<close> with the digests of \<open>X\<close>.\<close>

definition digested :: "'f raid_env \<Rightarrow> byte list \<Rightarrow> extent \<Rightarrow> extent \<Rightarrow> bool" where
  "digested env X e e' \<longleftrightarrow> e' = e\<lparr>ext_md5 := ext_md5 e', ext_xxh128 := ext_xxh128 e'\<rparr> \<and>
     (\<forall>d. ext_md5 e' = Some d \<longrightarrow> d = env_md5 env X) \<and> (\<forall>d. ext_xxh128 e' = Some d \<longrightarrow> d = env_xxh128 env X)"

lemma digest_copy:
  assumes "extent_hash_digest env h = (0, h')" "hash_fed h X" "ext_md5 e = None" "ext_xxh128 e = None"
  shows "digested env X e (extent_hash_copy h' e)"
  using assms
  by (auto simp: digested_def extent_hash_copy_def extent_hash_digest_def hash_fed_def Let_def split: option.splits if_splits)

lemma finish_extent_ok:
  assumes "finish_extent sys md i n ctx = (0, ctx', n')"
  shows "\<exists>h. extent_hash_digest (sys_env sys) (ric_hashes ctx ! i) = (0, h) \<and>
    ctx' = ctx\<lparr>ric_hashes := (ric_hashes ctx)[i := h], ric_out_extents := (ric_out_extents ctx)[i := extent_hash_copy h (ric_out_extents ctx ! i)],
       ric_iods := (ric_iods ctx)[i := (ric_iods ctx ! i)\<lparr>iod_attrs := None\<rparr>]\<rparr>"
  using assms by (auto simp: finish_extent_def set_object_md_def Let_def split: prod.splits if_splits)

lemma close_extent_ok:
  assumes "close_extent sys md i s = Some (0, left, s')" "rp_writers s = [w]" "dp_current_target (rp_proc s) = 0"
    and "hash_fed (ric_hashes (rt_ctx w) ! i) X" "ext_md5 (ric_out_extents (rt_ctx w) ! i) = None" "ext_xxh128 (ric_out_extents (rt_ctx w) ! i) = None"
    and "rt_written_extents w = Some es"
  shows "\<exists>e h w'. put_frame s s' \<and> rp_writers s' = [w'] \<and> rp_media s' = (ext_uuid e, iod_ctx (ric_iods (rt_ctx w) ! i)) # rp_media s \<and>
    rt_written_extents w' = Some (es @ [e]) \<and> rt_released w' = rt_released w \<and> digested (sys_env sys) X (ric_out_extents (rt_ctx w) ! i) e \<and>
    i < length (ric_iods (rt_ctx w)) \<and>
    rt_ctx w' = (rt_ctx w)\<lparr>ric_hashes := (ric_hashes (rt_ctx w))[i := h], ric_out_extents := (ric_out_extents (rt_ctx w))[i := extent_zero],
       ric_iods := (ric_iods (rt_ctx w))[i := (ric_iods (rt_ctx w) ! i)\<lparr>iod_attrs := None\<rparr>]\<rparr>"
proof -
  have w: "current_writer s = Some w" using assms(2,3) by (simp add: current_writer_def current_target_def)
  obtain media thr rel where m: "rp_write_resp s = Some (media, thr)" "rp_writer_release s = Some rel"
    using assms(1) unfolding close_extent_def by (auto elim!: bind_Some2E bind_SomeE)
  have ix: "i < length (ric_iods (rt_ctx w))" "i < length (ric_out_extents (rt_ctx w))"
    using assms(1) by (auto simp: close_extent_def w m Let_def split: if_splits)
  obtain rc ctx1 n where f: "finish_extent sys md i (rp_calls s) (rt_ctx w) = (rc, ctx1, n)" by (cases "finish_extent sys md i (rp_calls s) (rt_ctx w)")
  then have rc: "rc = 0" using assms(1) by (auto simp: close_extent_def w m Let_def split: if_splits)
  obtain h where h: "extent_hash_digest (sys_env sys) (ric_hashes (rt_ctx w) ! i) = (0, h)"
    "ctx1 = (rt_ctx w)\<lparr>ric_hashes := (ric_hashes (rt_ctx w))[i := h],
       ric_out_extents := (ric_out_extents (rt_ctx w))[i := extent_hash_copy h (ric_out_extents (rt_ctx w) ! i)],
       ric_iods := (ric_iods (rt_ctx w))[i := (ric_iods (rt_ctx w) ! i)\<lparr>iod_attrs := None\<rparr>]\<rparr>"
    using finish_extent_ok f rc by metis
  show ?thesis
    using assms(1-3,7) f rc ix h(2) digest_copy [OF h(1) assms(4-6)]
    by (intro exI [of _ "extent_hash_copy h (ric_out_extents (rt_ctx w) ! i)"] exI [of _ h])
      (auto simp: close_extent_def w m Let_def raid_io_add_written_extent_def put_frame_def set_current_writer_def current_target_def
        split: if_splits elim!: bind_SomeE)
qed

lemma close_extents_ok:
  assumes "close_extents sys md [k..<n] s = Some (0, left, s')" "rp_writers s = [w]" "dp_current_target (rp_proc s) = 0"
    and "n = length (ric_iods (rt_ctx w))" "n = length (ric_out_extents (rt_ctx w))" "n = length (ric_hashes (rt_ctx w))"
    and "\<And>i. k \<le> i \<Longrightarrow> i < n \<Longrightarrow> hash_fed (ric_hashes (rt_ctx w) ! i) (X i) \<and> ext_md5 (ric_out_extents (rt_ctx w) ! i) = None \<and>
           ext_xxh128 (ric_out_extents (rt_ctx w) ! i) = None"
    and "rt_written_extents w = Some es" "k \<le> n"
  shows "\<exists>E w' hs iods. put_frame s s' \<and> rp_writers s' = [w'] \<and> length E = n - k \<and> rt_written_extents w' = Some (es @ E) \<and>
    rt_released w' = rt_released w \<and> rp_media s' = rev (zip (map ext_uuid E) (map iod_ctx (drop k (ric_iods (rt_ctx w))))) @ rp_media s \<and>
    (\<forall>i < n - k. digested (sys_env sys) (X (k + i)) (ric_out_extents (rt_ctx w) ! (k + i)) (E ! i)) \<and>
    length hs = n \<and> length iods = n \<and>
    rt_ctx w' = (rt_ctx w)\<lparr>ric_hashes := hs, ric_out_extents := take k (ric_out_extents (rt_ctx w)) @ replicate (n - k) extent_zero, ric_iods := iods\<rparr>"
  using assms
proof (induction "n - k" arbitrary: k s w es)
  case 0
  then show ?case
    by (intro exI [of _ "[]"] exI [of _ w] exI [of _ "ric_hashes (rt_ctx w)"] exI [of _ "ric_iods (rt_ctx w)"]) (simp add: put_frame_def)
next
  case (Suc m)
  have k: "k < n" "[k..<n] = k # [Suc k..<n]" "m = n - Suc k" using Suc.hyps(2) by (auto simp: upt_rec)
  obtain left1 s1 where 1: "close_extent sys md k s = Some (0, left1, s1)" "close_extents sys md [Suc k..<n] s1 = Some (0, left, s')"
    using Suc.prems(1) by (auto simp: k(2) split: if_splits elim!: bind_Some3E)
  obtain e h w1 where e: "put_frame s s1" "rp_writers s1 = [w1]" "rp_media s1 = (ext_uuid e, iod_ctx (ric_iods (rt_ctx w) ! k)) # rp_media s"
    "rt_written_extents w1 = Some (es @ [e])" "rt_released w1 = rt_released w" "digested (sys_env sys) (X k) (ric_out_extents (rt_ctx w) ! k) e"
    "rt_ctx w1 = (rt_ctx w)\<lparr>ric_hashes := (ric_hashes (rt_ctx w))[k := h], ric_out_extents := (ric_out_extents (rt_ctx w))[k := extent_zero],
       ric_iods := (ric_iods (rt_ctx w))[k := (ric_iods (rt_ctx w) ! k)\<lparr>iod_attrs := None\<rparr>]\<rparr>"
    using close_extent_ok [OF 1(1) Suc.prems(2,3) _ _ _ Suc.prems(8)] Suc.prems(7) [OF order_refl k(1)] by blast
  have t: "dp_current_target (rp_proc s1) = 0" using e(1) Suc.prems(3) by (simp add: put_frame_def)
  have len: "n = length (ric_iods (rt_ctx w1))" "n = length (ric_out_extents (rt_ctx w1))" "n = length (ric_hashes (rt_ctx w1))" "Suc k \<le> n"
    using Suc.prems(4-6) k(1) by (simp_all add: e(7))
  have fed: "hash_fed (ric_hashes (rt_ctx w1) ! i) (X i) \<and> ext_md5 (ric_out_extents (rt_ctx w1) ! i) = None \<and>
      ext_xxh128 (ric_out_extents (rt_ctx w1) ! i) = None" if "Suc k \<le> i" "i < n" for i
    using Suc.prems(7) [of i] that by (simp add: e(7))
  obtain E w' hs iods where E: "put_frame s1 s'" "rp_writers s' = [w']" "length E = n - Suc k" "rt_written_extents w' = Some ((es @ [e]) @ E)"
    "rt_released w' = rt_released w" "rp_media s' = rev (zip (map ext_uuid E) (map iod_ctx (drop (Suc k) (ric_iods (rt_ctx w1))))) @ rp_media s1"
    "\<And>i. i < n - Suc k \<Longrightarrow> digested (sys_env sys) (X (Suc k + i)) (ric_out_extents (rt_ctx w1) ! (Suc k + i)) (E ! i)" "length hs = n" "length iods = n"
    "rt_ctx w' = (rt_ctx w1)\<lparr>ric_hashes := hs, ric_out_extents := take (Suc k) (ric_out_extents (rt_ctx w1)) @ replicate (n - Suc k) extent_zero,
       ric_iods := iods\<rparr>"
    using Suc.hyps(1) [OF k(3) 1(2) e(2) t len(1-3) fed e(4) len(4)] unfolding e(5) by blast
  have out: "take (Suc k) (ric_out_extents (rt_ctx w1)) @ replicate (n - Suc k) extent_zero =
    take k (ric_out_extents (rt_ctx w)) @ replicate (n - k) extent_zero"
    using k(1) Suc.prems(5) by (simp add: e(7) take_Suc_conv_app_nth Suc_diff_Suc [symmetric])
  have d: "drop k (ric_iods (rt_ctx w)) = ric_iods (rt_ctx w) ! k # drop (Suc k) (ric_iods (rt_ctx w))"
    using k(1) Suc.prems(4) by (simp add: Cons_nth_drop_Suc)
  have "drop (Suc k) (ric_iods (rt_ctx w1)) = drop (Suc k) (ric_iods (rt_ctx w))" by (simp add: e(7))
  then have "rp_media s' = rev (zip (map ext_uuid (e # E)) (map iod_ctx (drop k (ric_iods (rt_ctx w))))) @ rp_media s"
    using E(6) e(3) by (simp add: d)
  moreover have "digested (sys_env sys) (X (k + i)) (ric_out_extents (rt_ctx w) ! (k + i)) ((e # E) ! i)" if "i < n - k" for i
    using E(7) [of "i - 1"] e(6) that by (cases i) (auto simp: e(7))
  moreover have "put_frame s s'" using put_frame_trans [OF e(1) E(1)] .
  ultimately show ?case
    using E(2-5,8-10) k(1) out
    by (intro exI [of _ "e # E"] exI [of _ w'] exI [of _ hs] exI [of _ iods]) (simp add: e(7))
qed


end
