(* ===== verification/Raid_Put_Run.thy ===== *)
theory Raid_Put_Run
  imports Raid_Put
begin

text \<open>
  The steps of a put: the end of a split, a write, the responses of the LRS, and the loop that moves the
  bytes of the file to the extents. A put is a run of \<open>processor_communicate\<close> on responses that answer its
  requests.
\<close>

subsection \<open>The end of a split\<close>

lemma extent_stored_append:
  assumes "j < code_n_total K * length Ls"
  shows "extent_stored K env written D c (Ls @ Ls') j e f = extent_stored K env written D c Ls j e f"
proof -
  have "j div code_n_total K < length Ls" using assms by (simp add: less_mult_imp_div_less mult.commute)
  then show ?thesis by (simp add: extent_stored_def Let_def nth_append)
qed

lemma object_stored_append:
  assumes "object_stored K env written D c Ls es fs" "length E = code_n_total K" "length F = code_n_total K" "0 < code_n_total K"
    and "\<And>i. i < code_n_total K \<Longrightarrow> extent_stored K env written D c (Ls @ [L]) (length es + i) (E ! i) (F ! i)"
    and "distinct (map ext_media E)"
  shows "object_stored K env written D c (Ls @ [L]) (es @ E) (fs @ F)"
proof -
  let ?n = "code_n_total K"
  have es: "length es = ?n * length Ls" "length fs = length es" using assms(1) by (simp_all add: object_stored_def)
  have "extent_stored K env written D c (Ls @ [L]) j ((es @ E) ! j) ((fs @ F) ! j)" if "j < length (es @ E)" for j
  proof (cases "j < length es")
    case True
    then show ?thesis using assms(1) es by (simp add: object_stored_def nth_append extent_stored_append)
  next
    case False
    then show ?thesis using assms(5) [of "j - length es"] that assms(2) es(2) by (simp add: nth_append)
  qed
  moreover have "ext_media ((es @ E) ! i) \<noteq> ext_media ((es @ E) ! j)" if "j < length (es @ E)" "i < j" "i div ?n = j div ?n" for i j
  proof (cases "j < length es")
    case True
    then show ?thesis using assms(1) that by (simp add: object_stored_def nth_append)
  next
    case False
    then have "length Ls \<le> j div ?n" using es(1) assms(4) by (metis div_le_mono nonzero_mult_div_cancel_left not_less not_less_zero)
    then have "length es \<le> i" using that(3) es(1) by (metis div_times_less_eq_dividend dual_order.trans mult.commute mult_le_mono2)
    then show ?thesis
      using False that assms(2,6) nth_eq_iff_index_eq [OF assms(6), of "i - length es" "j - length es"]
      by (simp add: nth_append)
  qed
  ultimately show ?thesis using assms(2,3) es by (simp add: object_stored_def algebra_simps)
qed

context raid_put
begin

lemma split_extents_stored:
  assumes "in_split K written writable M D Ls w proc" "dp_writer_offset proc = ric_current_split_offset (rt_ctx w) + ric_current_split_size (rt_ctx w)"
    and "length es = code_n_total K * length Ls" "i < code_n_total K"
    and "digested env (code_content K (ric_current_split_chunk_size (rt_ctx w))
           (take (ric_current_split_size (rt_ctx w)) (drop (sum_list Ls) D)) ! i) (ric_out_extents (rt_ctx w) ! i) e"
  shows "extent_stored K env written D (ric_current_split_chunk_size (rt_ctx w)) (Ls @ [ric_current_split_size (rt_ctx w)]) (length es + i)
     e (iod_ctx (ric_iods (rt_ctx w) ! i))"
proof -
  define ctx L c where "ctx = rt_ctx w" and "L = ric_current_split_size ctx" and "c = ric_current_split_chunk_size ctx"
  define X where "X = code_content K c (take L (drop (sum_list Ls) D)) ! i"
  have S: "split_state K written writable D proc ctx" and off: "ric_current_split_offset ctx = sum_list Ls"
    and out: "described (ric_out_extents ctx ! i) (int (length es + i)) (sum_list Ls) (ext_media (ric_out_extents ctx ! i))" "code_info K c (ext_info (ric_out_extents ctx ! i))"
    using assms(1,3,4) by (auto simp: in_split_def Let_def ctx_def c_def described_def mult.commute)
  have len: "length (take L (drop (sum_list Ls) D)) = L" and c: "0 < c" using S off by (auto simp: split_state_def Let_def L_def c_def)
  have X: "written (iod_ctx (ric_iods ctx ! i)) = X" "ext_size (ric_out_extents ctx ! i) = length X"
    using S off assms(2,4) content_size [OF c assms(4), of "take L (drop (sum_list Ls) D)"] len
    by (auto simp: split_state_def Let_def extents_are_def content_length ctx_def [symmetric] X_def L_def [symmetric] c_def [symmetric])
  have ix: "(length es + i) div code_n_total K = length Ls" "(length es + i) mod code_n_total K = i" using assms(3,4) by simp_all
  have e: "e = (ric_out_extents ctx ! i)\<lparr>ext_md5 := ext_md5 e, ext_xxh128 := ext_xxh128 e\<rparr>"
    "\<forall>d. ext_md5 e = Some d \<longrightarrow> d = env_md5 env X" "\<forall>d. ext_xxh128 e = Some d \<longrightarrow> d = env_xxh128 env X"
    using assms(5) unfolding digested_def X_def ctx_def L_def c_def by blast+
  obtain a b where ab: "e = (ric_out_extents ctx ! i)\<lparr>ext_md5 := a, ext_xxh128 := b\<rparr>" using e(1) by blast
  have "extent_stored K env written D c (Ls @ [L]) (length es + i) e (iod_ctx (ric_iods ctx ! i))"
    using out X e(2,3) by (simp add: extent_stored_def ix Let_def ab described_def nth_append X_def)
  then show ?thesis by (simp add: ctx_def c_def L_def)
qed

end

context raid_put
begin

lemma split_close_boundary:
  assumes "raid_writer_split_close sys 0 s = Some (0, s')" "put_state K env written D Ls w es s" "in_split K written writable M D Ls w (rp_proc s)"
    and "dp_writer_offset (rp_proc s) = ric_current_split_offset (rt_ctx w) + ric_current_split_size (rt_ctx w)"
    and "length es < 2 ^ 31"
  shows "\<exists>w' es' L. put_frame s s' \<and> put_state K env written D (Ls @ [L]) w' es' s' \<and> ric_current_split (rt_ctx w') = length (Ls @ [L]) \<and>
     ric_current_split_offset (rt_ctx w') = sum_list (Ls @ [L]) \<and> dp_writer_offset (rp_proc s) = sum_list (Ls @ [L]) \<and>
     ric_out_extents (rt_ctx w') = replicate (code_n_total K) extent_zero \<and>
     ric_current_split_chunk_size (rt_ctx w') = ric_current_split_chunk_size (rt_ctx w) \<and> ric_all_is_written (rt_ctx w') = ric_all_is_written (rt_ctx w)"
proof -
  define n ctx L c where "n = code_n_total K" and "ctx = rt_ctx w" and "L = ric_current_split_size ctx" and "c = ric_current_split_chunk_size ctx"
  have n: "0 < n" using n_data by (simp add: n_def code_n_total_def)
  have t: "dp_current_target (rp_proc s) = 0" and split: "ric_current_split ctx = length Ls" "ric_current_split_offset ctx = sum_list Ls"
    and S: "split_state K written writable D (rp_proc s) ctx" using assms(3) by (simp_all add: in_split_def Let_def ctx_def)
  note P = put_stateD [OF assms(2) t]
  obtain ms where ms: "distinct ms" "length ms = n" "\<And>i. i < n \<Longrightarrow> described (ric_out_extents ctx ! i) (int (length Ls * n + i)) (sum_list Ls) (ms ! i)"
    using assms(3) by (auto simp: in_split_def Let_def ctx_def n_def)
  have W: "rt_written_extents w = Some es" and len: "n = length (ric_iods ctx)" "n = length (ric_out_extents ctx)" "n = length (ric_hashes ctx)"
    using assms(2) by (simp_all add: put_state_def ctx_shape_def n_def ctx_def)
  have "length es = n * length Ls" using assms(2) object_stored_count by (auto simp: put_state_def n_def)
  then have few: "length Ls + 1 < size_max" using assms(5) n by (cases n) (auto simp: size_max_def)
  define X where "X i = code_content K c (take L (drop (sum_list Ls) D)) ! i" for i
  have fed: "hash_fed (ric_hashes ctx ! i) (X i) \<and> ext_md5 (ric_out_extents ctx ! i) = None \<and> ext_xxh128 (ric_out_extents ctx ! i) = None"
    if "0 \<le> i" "i < n" for i
    using S ms(3) [OF that(2)] that(2) assms(4) split(2)
    by (simp add: split_state_def Let_def extents_are_def content_length X_def c_def n_def described_def ctx_def [symmetric] L_def [symmetric])
  have ext: "get_n_extents (rt_ctx w) (dp_type (rp_proc s)) = n" using ctx_shape_total [OF P(5)] P(6) by (simp add: get_n_extents_def n_def)
  obtain md s1 w1 where 1: "common_writer_rebuilder_split_close sys md 0 s = Some (0, s1)" "current_writer s1 = Some w1"
    "s' = set_current_writer s1 (next_split (dp_writer_offset (rp_proc s1)) w1)"
    using assms(1) unfolding raid_writer_split_close_def Let_def by (auto split: if_splits elim!: bind_SomeE bind_Some2E)
  obtain left k s2 where 2: "close_extents sys md [0..<n] s = Some (0, left, s2)" "s1 = s2\<lparr>rp_calls := k\<rparr>"
    using 1(1) P(2) ext unfolding common_writer_rebuilder_split_close_def Let_def by (auto split: if_splits elim!: bind_SomeE bind_Some3E)
  obtain E w2 hs iods where E: "put_frame s s2" "rp_writers s2 = [w2]" "length E = n" "rt_written_extents w2 = Some (es @ E)" "rt_released w2 = rt_released w"
    "rp_media s2 = rev (zip (map ext_uuid E) (map iod_ctx (ric_iods ctx))) @ rp_media s" "length hs = n" "length iods = n"
    "\<And>i. i < n \<Longrightarrow> digested env (X i) (ric_out_extents ctx ! i) (E ! i)"
    "rt_ctx w2 = ctx\<lparr>ric_hashes := hs, ric_out_extents := replicate n extent_zero, ric_iods := iods\<rparr>"
    using close_extents_ok [OF 2(1) P(1) t len [unfolded ctx_def] fed [unfolded ctx_def] W] by (auto simp: ctx_def sys_env)
  define w' where "w' = next_split (dp_writer_offset (rp_proc s)) w2"
  have s': "s' = s2\<lparr>rp_calls := k, rp_writers := [w']\<rparr>"
    using 1(2,3) E(1,2) t by (auto simp: 2(2) current_writer_def current_target_def set_current_writer_def put_frame_def w'_def)
  have ctx': "rt_ctx w' = ctx\<lparr>ric_hashes := hs, ric_out_extents := replicate n extent_zero, ric_iods := iods,
      ric_current_split := length Ls + 1, ric_current_split_offset := sum_list Ls + L\<rparr>"
    using few split assms(4) by (simp add: w'_def next_split_def E(10) size_add_exact ctx_def L_def)
  obtain fs where fs: "rp_media s = rev (zip (map ext_uuid es) fs)" "object_stored K env written D c Ls es fs"
    using assms(2) by (auto simp: put_state_def c_def ctx_def)
  have media: "ext_media (E ! i) = ms ! i" if i: "i < n" for i
  proof -
    obtain a b where "E ! i = (ric_out_extents ctx ! i)\<lparr>ext_md5 := a, ext_xxh128 := b\<rparr>" using E(9) [OF i] unfolding digested_def by blast
    then show ?thesis using ms(3) [OF i] by (simp add: described_def)
  qed
  then have "map ext_media E = ms" using E(3) ms(2) by (intro nth_equalityI) simp_all
  then have "object_stored K env written D c (Ls @ [L]) (es @ E) (fs @ map iod_ctx (ric_iods ctx))"
    using E(3,9) len(1) n ms(1) split_extents_stored [OF assms(3,4), of es] object_stored_count [OF fs(2)]
    by (intro object_stored_append [OF fs(2)]) (auto simp: n_def ctx_def X_def c_def L_def)
  moreover have "rp_media s2 = rev (zip (map ext_uuid (es @ E)) (fs @ map iod_ctx (ric_iods ctx)))"
    using E(3,6) fs len(1) by (simp add: object_stored_def)
  moreover have "rt_written_extents w' = Some (es @ E)" "rt_released w' = rt_released w" using E(4,5) by (simp_all add: w'_def next_split_def)
  ultimately have "put_state K env written D (Ls @ [L]) w' (es @ E) s'"
    using assms(2) E(1,7,8) by (auto simp: put_state_def s' put_frame_def ctx_shape_def ctx' c_def ctx_def n_def)
  moreover have "put_frame s s'" using E(1) by (simp add: put_frame_def s')
  ultimately show ?thesis
    using assms(4) split by (intro exI [of _ w'] exI [of _ "es @ E"] exI [of _ L]) (simp add: ctx' n_def ctx_def L_def)
qed

end


subsection \<open>Phases and requests\<close>

text \<open>The put waits for media, is written to the end, or has its layout.\<close>

definition waiting ::
  "layout_code \<Rightarrow> 'f raid_env \<Rightarrow> ('f \<Rightarrow> byte list) \<Rightarrow> ('f \<Rightarrow> bool) \<Rightarrow> ('f \<Rightarrow> byte list) \<Rightarrow> nat \<Rightarrow> byte list \<Rightarrow> 'f raid_processor \<Rightarrow> bool" where
  "waiting K env unread readable written M D s \<longleftrightarrow>
     (\<exists>Ls w es. put_state K env written D Ls w es s \<and> at_boundary K M D Ls w es (rp_proc s)) \<and> source_state unread readable D s"

definition all_written :: "layout_code \<Rightarrow> 'f raid_env \<Rightarrow> ('f \<Rightarrow> byte list) \<Rightarrow> byte list \<Rightarrow> 'f raid_processor \<Rightarrow> bool" where
  "all_written K env written D s \<longleftrightarrow>
     dp_current_target (rp_proc s) = 1 \<and> \<not> rp_need_alloc_to_write s \<and> length (rp_posix s) = 1 \<and>
     (\<exists>Ls w es. put_state K env written D Ls w es s \<and> sum_list Ls = length D \<and> 0 < ric_current_split_chunk_size (rt_ctx w))"

definition put_released :: "layout_code \<Rightarrow> 'f raid_env \<Rightarrow> ('f \<Rightarrow> byte list) \<Rightarrow> byte list \<Rightarrow> 'f raid_processor \<Rightarrow> bool" where
  "put_released K env written D s \<longleftrightarrow>
     dp_current_target (rp_proc s) = 1 \<and> \<not> rp_need_alloc_to_write s \<and> dp_type (rp_proc s) = PHO_PROC_ENCODER \<and> length (rp_targets s) = 1 \<and>
     (\<exists>w lyt. rp_writers s = [w] \<and> rt_released w \<and> rp_dest_layout s = [lyt] \<and> layout_stores K env written D (rp_media s) lyt)"

text \<open>Requests: the allocations to write among them, and no partial release nor read.\<close>

fun is_write_req :: "pho_req \<Rightarrow> bool" where
  "is_write_req (ReqWrite _ _ _) = True"
| "is_write_req _ = False"

fun put_req :: "pho_req \<Rightarrow> bool" where
  "put_req (ReqWrite _ _ _) = True"
| "put_req (ReqRelease _ _ partial) = (\<not> partial)"
| "put_req (ReqRead _ _ _ _) = False"

definition put_reqs :: "bool \<Rightarrow> pho_req list \<Rightarrow> bool" where
  "put_reqs alloc reqs \<longleftrightarrow> list_all put_req reqs \<and> length (filter is_write_req reqs) = (if alloc then 1 else 0)"

lemma put_state_simps [simp]:
  "put_state K env written D Ls w es (s\<lparr>rp_writer_release := a\<rparr>) = put_state K env written D Ls w es s"
  "put_state K env written D Ls w es (s\<lparr>rp_need_alloc_to_write := b\<rparr>) = put_state K env written D Ls w es s"
  "put_state K env written D Ls w es (s\<lparr>rp_calls := k\<rparr>) = put_state K env written D Ls w es s"
  "put_state K env written D Ls w es (s\<lparr>rp_write_resp := r\<rparr>) = put_state K env written D Ls w es s"
  "put_state K env written D Ls w es (s\<lparr>rp_writer_start_req := ts\<rparr>) = put_state K env written D Ls w es s"
  "put_state K env written D Ls w es (s\<lparr>rp_posix := ps\<rparr>) = put_state K env written D Ls w es s"
  by (simp_all add: put_state_def)

lemma put_state_proc:
  "put_state K env written D Ls w es s \<Longrightarrow> dp_type p = dp_type (rp_proc s) \<Longrightarrow> dp_done p = dp_done (rp_proc s) \<Longrightarrow> dp_xt_rc p = dp_xt_rc (rp_proc s) \<Longrightarrow>
   put_state K env written D Ls w es (s\<lparr>rp_proc := p\<rparr>)"
  by (simp add: put_state_def)

lemma put_state_ctx:
  "put_state K env written D Ls w es s \<Longrightarrow> ctx_shape K ctx \<Longrightarrow> ric_current_split_chunk_size ctx = ric_current_split_chunk_size (rt_ctx w) \<Longrightarrow>
   put_state K env written D Ls (w\<lparr>rt_ctx := ctx\<rparr>) es (s\<lparr>rp_writers := [w\<lparr>rt_ctx := ctx\<rparr>]\<rparr>)"
  by (simp add: put_state_def)

lemma source_state_simps [simp]:
  "source_state unread readable D (s\<lparr>rp_writer_release := a\<rparr>) = source_state unread readable D s"
  "source_state unread readable D (s\<lparr>rp_need_alloc_to_write := b\<rparr>) = source_state unread readable D s"
  "source_state unread readable D (s\<lparr>rp_calls := k\<rparr>) = source_state unread readable D s"
  "source_state unread readable D (s\<lparr>rp_write_resp := r\<rparr>) = source_state unread readable D s"
  "source_state unread readable D (s\<lparr>rp_writer_start_req := ts\<rparr>) = source_state unread readable D s"
  "source_state unread readable D (s\<lparr>rp_writers := ws\<rparr>) = source_state unread readable D s"
  by (simp_all add: source_state_def)

context raid_put
begin

text \<open>A write inside a split stays in it.\<close>

lemma write_in_split:
  assumes "op_write_from_buff ops (rp_proc s) (rt_ctx w) = Some (0, p, ctx')" "in_split K written writable M D Ls w (rp_proc s)"
    and "put_state K env written D Ls w es s" "source_state unread readable D s"
  shows "in_split K written writable M D Ls (w\<lparr>rt_ctx := ctx'\<rparr>) p"
    and "put_state K env written D Ls (w\<lparr>rt_ctx := ctx'\<rparr>) es (s\<lparr>rp_writers := [w\<lparr>rt_ctx := ctx'\<rparr>], rp_proc := p\<rparr>)"
    and "source_state unread readable D (s\<lparr>rp_writers := [w\<lparr>rt_ctx := ctx'\<rparr>], rp_proc := p\<rparr>)"
    and "dp_writer_offset p = length D \<longrightarrow> ric_all_is_written ctx'"
proof -
  have S: "split_state K written writable D (rp_proc s) (rt_ctx w)" using assms(2) by (simp add: in_split_def Let_def)
  note f = write_framesD [OF write_frame [of "rp_proc s" "rt_ctx w", unfolded assms(1)]]
  note F = ctx_write_frameD [OF f(2), simplified] proc_write_frameD [OF f(1)]
  have st: "split_state K written writable D p ctx'" "dp_writer_offset p = length D \<longrightarrow> ric_all_is_written ctx'"
    "dp_writer_offset p = min (ric_current_split_offset (rt_ctx w) + ric_current_split_size (rt_ctx w)) (dp_reader_offset (rp_proc s))"
    using write_law [OF S] assms(1) by simp_all
  have "dp_writer_offset p = length D" if "ric_all_is_written ctx'"
    using f(3) [OF that] S st(1,3) assms(2) by (auto simp: split_state_def Let_def offsets_order_def in_split_def)
  note all = this
  from st show "dp_writer_offset p = length D \<longrightarrow> ric_all_is_written ctx'" by simp
  have "dp_buff p = [] \<longleftrightarrow> dp_buff (rp_proc s) = []" using F(20) by (metis length_0_conv)
  then show "in_split K written writable M D Ls (w\<lparr>rt_ctx := ctx'\<rparr>) p"
    using assms(2) st all by (simp add: in_split_def Let_def F buffer_state_def)
  have "ctx_shape K ctx'" using st by (simp add: split_state_def Let_def)
  then show "put_state K env written D Ls (w\<lparr>rt_ctx := ctx'\<rparr>) es (s\<lparr>rp_writers := [w\<lparr>rt_ctx := ctx'\<rparr>], rp_proc := p\<rparr>)"
    using put_state_ctx [OF assms(3)] F by (intro put_state_proc) simp_all
  show "source_state unread readable D (s\<lparr>rp_writers := [w\<lparr>rt_ctx := ctx'\<rparr>], rp_proc := p\<rparr>)"
    using assms(4) by (simp add: source_state_def F)
qed

end


text \<open>What a successful step of the writer inside a split leads to.\<close>

definition after_write ::
  "layout_code \<Rightarrow> 'f raid_env \<Rightarrow> ('f \<Rightarrow> byte list) \<Rightarrow> ('f \<Rightarrow> bool) \<Rightarrow> ('f \<Rightarrow> byte list) \<Rightarrow> ('f \<Rightarrow> bool) \<Rightarrow> nat \<Rightarrow> byte list \<Rightarrow>
   'f raid_processor \<Rightarrow> pho_req list \<Rightarrow> bool" where
  "after_write K env unread readable written writable M D s reqs \<longleftrightarrow>
     put_reqs (rp_need_alloc_to_write s) reqs \<and>
     (reqs = [] \<and> source_state unread readable D s \<and>
        (\<exists>Ls w es. put_state K env written D Ls w es s \<and> in_split K written writable M D Ls w (rp_proc s) \<and> length es + code_n_total K \<le> 2 ^ 31)
      \<or> reqs \<noteq> [] \<and> dp_buff (rp_proc s) \<noteq> [] \<and>
        (rp_need_alloc_to_write s \<and> waiting K env unread readable written M D s \<or> all_written K env written D s))"

lemma put_reqs_simps [simp]: "put_reqs False []" "put_reqs True [ReqRelease a b False, ReqWrite c d e]" "put_reqs False [ReqRelease a b False]"
  "\<not> put_reqs True []"
  by (simp_all add: put_reqs_def)

context raid_put
begin

lemma boundary_after_close:
  assumes "in_split K written writable M D Ls w proc" "dp_writer_offset proc = sum_list Ls'" "Ls' \<noteq> []"
    and "ric_current_split (rt_ctx w') = length Ls'" "ric_current_split_offset (rt_ctx w') = sum_list Ls'"
    and "ric_out_extents (rt_ctx w') = replicate (code_n_total K) extent_zero" "\<not> ric_all_is_written (rt_ctx w')"
    and "ric_current_split_chunk_size (rt_ctx w') = ric_current_split_chunk_size (rt_ctx w)"
  shows "at_boundary K M D Ls' w' es proc"
proof -
  have S: "split_state K written writable D proc (rt_ctx w)" using assms(1) by (simp add: in_split_def Let_def)
  have "boundary_aligned D proc (ric_current_split_chunk_size (rt_ctx w))" if "code_strict K"
    using S that by (simp add: split_state_def Let_def stripes_aligned_def boundary_aligned_def)
  then show ?thesis using S assms by (simp add: at_boundary_def in_split_def Let_def split_state_def)
qed

lemma release_reqE:
  assumes "complete_and_transfer_release rc stop partial s = Some (req, s')"
  obtains rel b where "req = ReqRelease rel b partial" "s' = s\<lparr>rp_writer_release := None\<rparr>"
  using assms unfolding complete_and_transfer_release_def Let_def by (auto split: if_splits elim!: bind_SomeE bind_Some2E)

lemma check_for_release_error:
  assumes "check_for_release sys ops rc st s = Some (rc', s', reqs)" "rc \<noteq> 0" "length (rp_targets s) \<le> Suc (current_target s)"
  shows "rc' \<noteq> 0"
proof -
  have "rc1 = rc \<and> rp_targets s1 = rp_targets s \<and> current_target s1 = current_target s" if "raid_writer_split_close sys rc s = Some (rc1, s1)" for rc1 s1
    using that assms(2) unfolding raid_writer_split_close_def common_writer_rebuilder_split_close_def Let_def
    by (auto split: if_splits elim!: bind_SomeE bind_Some2E bind_Some3E)
  then show ?thesis
    using assms unfolding check_for_release_def Let_def set_target_rc_def next_target_def
    by (auto split: if_splits elim!: bind_SomeE bind_Some2E release_reqE)
qed

lemma split_close_frame:
  assumes "raid_writer_split_close sys rc s = Some (rc', s')"
  shows "rp_targets s' = rp_targets s \<and> rp_proc s' = rp_proc s"
proof -
  have e: "rp_targets s2 = rp_targets s1 \<and> rp_proc s2 = rp_proc s1" if "close_extents sys md is s1 = Some (r, left, s2)" for md "is" s1 r left s2
    using that
  proof (induction "is" arbitrary: s1)
    case (Cons i "is")
    then show ?case
      by (auto split: if_splits elim!: bind_Some3E dest!: close_extent_writer simp: writer_update_def)
  qed simp
  show ?thesis
    using assms unfolding raid_writer_split_close_def common_writer_rebuilder_split_close_def Let_def
    by (auto split: if_splits elim!: bind_SomeE bind_Some2E bind_Some3E dest!: e)
qed

lemma check_for_release_type:
  assumes "check_for_release sys ops rc st s = Some (rc', s', reqs)" "length (rp_targets s) \<le> Suc (current_target s)"
  shows "dp_type (rp_proc s') = dp_type (rp_proc s) \<and> dp_buff (rp_proc s') = dp_buff (rp_proc s) \<and> (rc' \<noteq> 0 \<longrightarrow> dp_xd_rc (rp_proc s') \<noteq> 0)"
  using assms unfolding check_for_release_def Let_def set_target_rc_def next_target_def
  by (auto simp: current_target_def split: if_splits prod.splits elim!: bind_SomeE bind_Some2E release_reqE dest!: split_close_frame)

lemma check_for_release_ok:
  assumes "check_for_release sys ops 0 st s = Some (0, s', reqs)" "put_state K env written D Ls w es s" "in_split K written writable M D Ls w (rp_proc s)"
    and "source_state unread readable D s" "length es + code_n_total K \<le> 2 ^ 31" "\<not> rp_need_alloc_to_write s"
    and "dp_buff (rp_proc s) \<noteq> []" "ws_split_ended st \<longleftrightarrow> dp_writer_offset (rp_proc s) = ric_current_split_offset (rt_ctx w) + ric_current_split_size (rt_ctx w)"
    and "ws_target_ended st \<longleftrightarrow> dp_writer_offset (rp_proc s) = length D" "ws_last_target_ended st = ws_target_ended st" "\<not> ws_need_alloc_for_next_target st"
  shows "after_write K env unread readable written writable M D s' reqs"
proof -
  have t: "dp_current_target (rp_proc s) = 0" and S: "split_state K written writable D (rp_proc s) (rt_ctx w)"
    using assms(3) by (simp_all add: in_split_def Let_def)
  have c: "0 < ric_current_split_chunk_size (rt_ctx w)" using S by (simp add: split_state_def Let_def)
  have ts: "ws_split_ended st" if "ws_target_ended st" using S that assms(8,9) by (auto simp: split_state_def Let_def)
  show ?thesis
  proof (cases "ws_split_ended st")
    case False
    then have "s' = s" "reqs = []" using assms(1,10,11) ts by (auto simp: check_for_release_def set_target_rc_def Let_def)
    then show ?thesis using assms(2-6) unfolding after_write_def by auto
  next
    case True
    obtain rc s1 where cl: "raid_writer_split_close sys 0 s = Some (rc, s1)"
      using assms(1) True unfolding check_for_release_def Let_def by (auto elim!: bind_Some2E)
    have targets: "length (rp_targets s) = 1" using assms(2) by (simp add: put_state_def)
    have rc: "rc = 0"
    proof (rule ccontr)
      assume "rc \<noteq> 0"
      then show False
        using assms(1,10,11) True cl targets split_close_frame [OF cl] t unfolding check_for_release_def Let_def set_target_rc_def next_target_def
        by (auto simp: current_target_def split: if_splits elim!: bind_SomeE bind_Some2E release_reqE)
    qed
    obtain w' es' L where B: "put_frame s s1" "put_state K env written D (Ls @ [L]) w' es' s1" "ric_current_split (rt_ctx w') = length (Ls @ [L])"
       "ric_current_split_offset (rt_ctx w') = sum_list (Ls @ [L])" "dp_writer_offset (rp_proc s) = sum_list (Ls @ [L])"
       "ric_out_extents (rt_ctx w') = replicate (code_n_total K) extent_zero"
       "ric_current_split_chunk_size (rt_ctx w') = ric_current_split_chunk_size (rt_ctx w)" "ric_all_is_written (rt_ctx w') = ric_all_is_written (rt_ctx w)"
      using split_close_boundary [OF cl [unfolded rc] assms(2,3)] assms(5,8) True n_data by (auto simp: code_n_total_def)
    have proc: "rp_proc s1 = rp_proc s" "rp_targets s1 = rp_targets s" "\<not> rp_need_alloc_to_write s1" "source_state unread readable D s1" "length (rp_posix s1) = 1"
      using B(1) assms(4,6) by (auto simp: put_frame_def source_state_def)
    show ?thesis
    proof (cases "ws_target_ended st")
      case te: True
      obtain rel b where s': "reqs = [ReqRelease rel b False]"
        "s' = s1\<lparr>rp_writer_release := None, rp_proc := (rp_proc s)\<lparr>dp_current_target := 1, dp_reader_offset := 0, dp_writer_offset := 0, dp_buffer_offset := 0\<rparr>\<rparr>"
        using assms(1,10,11) True te cl rc proc t targets unfolding check_for_release_def Let_def set_target_rc_def next_target_def
        by (auto simp: current_target_def split: if_splits elim!: bind_SomeE bind_Some2E release_reqE)
      have "all_written K env written D s'"
        using B(2,5,7) c assms(9) te proc by (auto simp: all_written_def s' intro!: exI [of _ "Ls @ [L]"] exI [of _ w'] exI [of _ es'] put_state_proc)
      then show ?thesis using proc assms(7) by (simp add: after_write_def s')
    next
      case te: False
      obtain rel b req where s': "reqs = [ReqRelease rel b False, req]" "is_write_req req" "put_req req"
        "s' = s1\<lparr>rp_writer_release := None, rp_need_alloc_to_write := True\<rparr>"
        using assms(1,10,11) True te cl rc proc t targets unfolding check_for_release_def Let_def set_target_rc_def raid_writer_rebuilder_build_allocation_req_def
        by (auto simp: current_target_def split: if_splits elim!: bind_SomeE bind_Some2E release_reqE)
      have "at_boundary K M D (Ls @ [L]) w' es' (rp_proc s)"
        using te assms(3,9) B by (intro boundary_after_close [OF assms(3)]) (simp_all add: in_split_def Let_def)
      then have "waiting K env unread readable written M D s'" using B(2) proc by (auto simp: waiting_def s')
      then show ?thesis using s'(2,3) assms(7) proc by (simp add: after_write_def s'(1,4) put_reqs_def)
    qed
  qed
qed

lemma write_and_check_step:
  assumes "write_and_check sys ops s = Some (0, s', reqs)" "put_state K env written D Ls w es s" "in_split K written writable M D Ls w (rp_proc s)"
    and "source_state unread readable D s" "length es + code_n_total K \<le> 2 ^ 31" "\<not> rp_need_alloc_to_write s"
    and "dp_buff (rp_proc s) \<noteq> []"
  shows "after_write K env unread readable written writable M D s' reqs"
proof -
  have t: "dp_current_target (rp_proc s) = 0" using assms(3) by (simp add: in_split_def Let_def)
  note P = put_stateD [OF assms(2) t]
  obtain rc p ctx where wr: "op_write_from_buff ops (rp_proc s) (rt_ctx w) = Some (rc, p, ctx)"
    using assms(1) P(2) unfolding write_and_check_def by (auto elim!: bind_Some3E)
  define w1 s1 where "w1 = w\<lparr>rt_ctx := ctx\<rparr>" and "s1 = s\<lparr>rp_writers := [w1], rp_proc := p\<rparr>"
  note f = write_framesD(1) [OF write_frame [of "rp_proc s" "rt_ctx w", unfolded wr]]
  have t1: "current_target s1 = 0" "dp_current_target p = 0" "dp_object_size p = dp_object_size (rp_proc s)"
    using proc_write_frameD [OF f] t by (simp_all add: s1_def current_target_def)
  have targets: "length (rp_targets s) = 1" "rp_targets s1 = rp_targets s" using P(7) by (simp_all add: s1_def)
  define se te where "se = (size_sub (dp_writer_offset p) (ric_current_split_offset ctx) \<ge> ric_current_split_size ctx)"
    and "te = (dp_writer_offset p = dp_object_size p)"
  obtain rc2 remain where r2: "rc \<noteq> 0 \<longrightarrow> rc2 = rc" and cr: "check_for_release sys ops rc2 \<lparr>ws_split_ended = se, ws_target_ended = te, ws_last_target_ended = te,
        ws_need_alloc_for_next_target = False, ws_remain = remain, ws_stop_io = False\<rparr> s1 = Some (0, s', reqs)"
    using assms(1) wr P(2) t1 targets unfolding write_and_check_def Let_def
    by (auto simp: set_current_writer_def P(1,3) s1_def w1_def se_def te_def split: if_splits elim!: bind_Some2E bind_SomeE)
  have "rc2 = 0" using check_for_release_error [OF cr] targets t1 by auto
  then have rc: "rc = 0" "rc2 = 0" using r2 by auto
  note W = write_in_split [OF wr [unfolded rc] assms(3,2,4), folded w1_def, folded s1_def]
  have S: "split_state K written writable D p ctx" using W(1) by (simp add: in_split_def Let_def w1_def)
  have O: "dp_object_size p = length D" "length D < size_max" "ric_current_split_offset ctx \<le> dp_writer_offset p"
    "dp_writer_offset p \<le> ric_current_split_offset ctx + ric_current_split_size ctx"
    using S by (auto simp: split_state_def Let_def offsets_order_def)
  then have se: "se \<longleftrightarrow> dp_writer_offset p = ric_current_split_offset ctx + ric_current_split_size ctx"
    by (auto simp: se_def size_sub_exact)
  have "dp_buff p \<noteq> []" using proc_write_frameD(10) [OF f] assms(7) by (metis length_0_conv)
  then show ?thesis
    using W assms(5,6) rc se O(1) cr
    by (intro check_for_release_ok [OF cr [unfolded rc] W(2)]) (auto simp: s1_def w1_def te_def)
qed

end

end
