(* ===== verification/Raid_Put_Correct.thy ===== *)
theory Raid_Put_Correct
  imports Raid_Put_Run
begin

text \<open>
  The correctness of a put: the runs of \<open>processor_communicate\<close> that answer the requests of the processor keep the
  invariant, and a run that is done has stored the object.
\<close>

subsection \<open>Responses to the writer\<close>

lemma set_target_rc_0 [simp]: "set_target_rc 0 reqs s = Some (0, s, reqs)"
  by (simp add: set_target_rc_def)

lemma set_target_rc_Some: "set_target_rc rc reqs s = Some (rc', s', reqs') \<Longrightarrow> rc' = rc \<and> reqs' = reqs \<and> (rc = 0 \<longrightarrow> s' = s) \<and> (rc \<noteq> 0 \<longrightarrow> dp_xd_rc (rp_proc s') \<noteq> 0)"
  by (auto simp: set_target_rc_def Let_def split: if_splits)

context raid_put
begin

lemma write_stage_step:
  assumes "write_stage sys ops s = Some (0, s', reqs)" "put_state K env written D Ls w es s" "in_split K written writable M D Ls w (rp_proc s)"
    and "source_state unread readable D s" "length es + code_n_total K \<le> 2 ^ 31" "\<not> rp_need_alloc_to_write s"
  shows "after_write K env unread readable written writable M D s' reqs"
proof -
  have t: "dp_current_target (rp_proc s) = 0" using assms(3) by (simp add: in_split_def Let_def)
  note P = put_stateD [OF assms(2) t]
  show ?thesis
  proof (cases "dp_buff (rp_proc s) = []")
    case True
    then have "s' = s" "reqs = []" using assms(1) P(8) by (auto simp: write_stage_def)
    then show ?thesis using assms(2-6) unfolding after_write_def by auto
  next
    case False
    then show ?thesis using assms P(8) by (intro write_and_check_step [OF _ assms(2-6) False]) (simp add: write_stage_def)
  qed
qed

lemma allocation_step:
  assumes "raid_writer_processor_step sys ops (Some (RespWrite media thr)) s = Some (0, s', reqs)" "waiting K env unread readable written M D s"
    and "media_ok K M media" "n_written s + code_n_total K \<le> 2 ^ 31"
  shows "after_write K env unread readable written writable M D s' reqs"
proof -
  obtain Ls w es where W: "put_state K env written D Ls w es s" "at_boundary K M D Ls w es (rp_proc s)" "source_state unread readable D s"
    using assms(2) by (auto simp: waiting_def)
  have t: "dp_current_target (rp_proc s) = 0" using W(2) by (simp add: at_boundary_def Let_def)
  note P = put_stateD [OF W(1) t]
  have few: "length es + code_n_total K \<le> 2 ^ 31" using assms(4) P(2) W(1) by (simp add: n_written_def put_state_def)
  have al: "alloc_stage sys ops (RespWrite media thr) s = Some (0, s', reqs)" using assms(1) by (simp add: raid_writer_processor_step_def)
  obtain rc s1 where p: "prepare_writer_rebuilder_release_request sys (RespWrite media thr) s = Some (rc, s1)"
    using al by (auto simp: alloc_stage_def elim!: bind_Some2E)
  have rc: "rc = 0" using al p by (auto simp: alloc_stage_def dest: set_target_rc_Some split: if_splits)
  obtain k now rel where s1: "s1 = s\<lparr>rp_calls := k, rp_writer_start_req := now, rp_write_resp := Some (media, thr), rp_writer_release := Some rel\<rparr>"
    using p rc by (auto simp: prepare_writer_rebuilder_release_request_def Let_def split: prod.splits if_splits)
  define s2 where "s2 = s1\<lparr>rp_need_alloc_to_write := False\<rparr>"
  have st: "start_split sys ops s2 = Some (0, s', reqs)" using al p rc by (simp add: alloc_stage_def s2_def)
  have s2: "put_state K env written D Ls w es s2" "at_boundary K M D Ls w es (rp_proc s2)" "source_state unread readable D s2"
    "rp_write_resp s2 = Some (media, thr)" "\<not> rp_need_alloc_to_write s2" "target_rc (rp_proc s2) = 0"
    using W P(8) by (simp_all add: s2_def s1)
  obtain rc3 s3 where su: "raid_writer_split_setup sys ops s2 = Some (rc3, s3)" using st s2(6) by (auto simp: start_split_def elim!: bind_Some2E)
  have "xfer_frame s2 s3" using raid_writer_split_setup_frame [OF su] by simp
  then have "length (rp_targets s3) \<le> Suc (current_target s3)" using P(7) by (simp add: xfer_frame_def s2_def s1)
  then have rc3: "rc3 = 0" using st su s2(6) by (auto simp: start_split_def split: if_splits dest: check_for_release_error)
  obtain w' k' p where s3: "s3 = s2\<lparr>rp_calls := k', rp_writers := [w'], rp_proc := p\<rparr>" "\<exists>m. p = (rp_proc s2)\<lparr>dp_writer_stripe_size := m\<rparr>"
     "put_state K env written D Ls w' es s3" "in_split K written writable M D Ls w' p"
    using split_setup_in_split [OF su [unfolded rc3] s2(1,2,4) assms(3) few] by blast
  have "source_state unread readable D s3" using s2(3) s3(1,2) by (auto simp: source_state_def)
  then show ?thesis
    using st su s2(5,6) rc3 s3 few by (intro write_stage_step [OF _ s3(3)]) (simp_all add: start_split_def)
qed

end

text \<open>A release of media only changes the accounting of the writers.\<close>

lemma mark_written_fields:
  "mark_written_medium_released m w = Some (w', f) \<Longrightarrow> rt_ctx w' = rt_ctx w \<and> rt_written_extents w' = rt_written_extents w \<and> rt_released w' = rt_released w"
  by (auto simp: mark_written_medium_released_def Let_def split: option.splits if_splits elim!: bind_SomeE)

lemma common_release_media_one:
  assumes "common_release_media ms rc s = Some (rc', s')" "rp_writers s = [w]" "length (rp_targets s) = 1"
  shows "\<exists>w'. s' = s\<lparr>rp_writers := [w']\<rparr> \<and> rt_ctx w' = rt_ctx w \<and> rt_written_extents w' = rt_written_extents w \<and> rt_released w' = rt_released w"
  using assms
proof (induction ms arbitrary: rc s w)
  case Nil
  then show ?case by (intro exI [of _ w]) (cases s, simp)
next
  case (Cons m ms)
  obtain w1 f where 1: "mark_written_medium_released m w = Some (w1, f)"
    "common_release_media ms (if f then rc else - EINVAL) (s\<lparr>rp_writers := [w1]\<rparr>) = Some (rc', s')"
    using Cons.prems by (auto split: prod.splits elim!: bind_SomeE)
  show ?case using Cons.IH [OF 1(2)] Cons.prems(3) mark_written_fields [OF 1(1)] by fastforce
qed

lemma put_state_writer:
  "put_state K env written D Ls w es s \<Longrightarrow> rt_ctx w' = rt_ctx w \<Longrightarrow> rt_written_extents w' = rt_written_extents w \<Longrightarrow> rt_released w' = rt_released w \<Longrightarrow>
   put_state K env written D Ls w' es (s\<lparr>rp_writers := [w']\<rparr>)"
  by (simp add: put_state_def)

text \<open>The phases between two responses, with the requests that are not answered yet.\<close>

definition put_phase ::
  "layout_code \<Rightarrow> 'f raid_env \<Rightarrow> ('f \<Rightarrow> byte list) \<Rightarrow> ('f \<Rightarrow> bool) \<Rightarrow> ('f \<Rightarrow> byte list) \<Rightarrow> nat \<Rightarrow> byte list \<Rightarrow> 'f raid_processor \<Rightarrow> bool" where
  "put_phase K env unread readable written M D s \<longleftrightarrow>
     rp_need_alloc_to_write s \<and> waiting K env unread readable written M D s \<or> all_written K env written D s \<or> put_released K env written D s"

context raid_put
begin

lemma release_step:
  assumes "raid_writer_processor_step sys ops (Some (RespRelease ids False)) s = Some (0, s', reqs)" "put_phase K env unread readable written M D s"
  shows "reqs = [] \<and> rp_need_alloc_to_write s' = rp_need_alloc_to_write s \<and> put_phase K env unread readable written M D s'"
proof -
  have one: "length (rp_targets s) = 1" "length (rp_writers s) = 1"
    using assms(2) by (auto simp: put_phase_def waiting_def all_written_def put_released_def put_state_def)
  obtain w where w: "rp_writers s = [w]" using one(2) by (cases "rp_writers s") auto
  obtain rc s1 where h: "raid_writer_handle_release_resp ids s = Some (rc, s1)" "set_target_rc rc [] s1 = Some (0, s', reqs)"
    using assms(1) by (auto simp: raid_writer_processor_step_def elim!: bind_Some2E)
  have s': "rc = 0" "s' = s1" "reqs = []" using set_target_rc_Some [OF h(2)] by auto
  obtain rc0 w1 n s2 where c: "common_release_media ids 0 s = Some (rc0, s\<lparr>rp_writers := [w1]\<rparr>)"
    and f: "rt_ctx w1 = rt_ctx w" "rt_written_extents w1 = rt_written_extents w" "rt_released w1 = rt_released w"
    and r: "released_targets [0] 0 (s\<lparr>rp_writers := [w1]\<rparr>) = Some (n, s2)"
    and e: "s1 = (if n = length (rp_targets s2) then s2\<lparr>rp_proc := (rp_proc s2)\<lparr>dp_done := True\<rparr>\<rparr> else s2)"
  proof -
    obtain rc0 s0 n s2 where c: "common_release_media ids 0 s = Some (rc0, s0)" and r: "released_targets [0..<length (rp_targets s0)] 0 s0 = Some (n, s2)"
      and e: "s1 = (if n = length (rp_targets s2) then s2\<lparr>rp_proc := (rp_proc s2)\<lparr>dp_done := True\<rparr>\<rparr> else s2)"
      using h(1) unfolding raid_writer_handle_release_resp_def by (auto split: if_splits elim!: bind_Some2E)
    obtain w1 where w1: "s0 = s\<lparr>rp_writers := [w1]\<rparr>" "rt_ctx w1 = rt_ctx w" "rt_written_extents w1 = rt_written_extents w" "rt_released w1 = rt_released w"
      using common_release_media_one [OF c w one(1)] by blast
    have "released_targets [0] 0 (s\<lparr>rp_writers := [w1]\<rparr>) = Some (n, s2)" using r one(1) by (simp add: w1(1))
    then show ?thesis using that c w1 e by blast
  qed
  have same: "s2 = s\<lparr>rp_writers := [w1]\<rparr>" "n = (if rt_released w then 1 else 0)"
    if "rt_released w \<or> \<not> ric_all_is_written (rt_ctx w) \<or> (\<exists>es. rt_written_extents w = Some es \<and> (es = [] \<or> length es \<noteq> rt_n_released_media w1))"
    using r f that by (auto split: if_splits)
  consider (waits) "rp_need_alloc_to_write s" "waiting K env unread readable written M D s" | (full) "all_written K env written D s"
    | (released) "put_released K env written D s"
    using assms(2) unfolding put_phase_def by blast
  then show ?thesis
  proof cases
    case waits
    then obtain Ls es where W: "put_state K env written D Ls w es s" "at_boundary K M D Ls w es (rp_proc s)" "source_state unread readable D s"
      unfolding waiting_def put_state_def w by auto
    have keep: "s2 = s\<lparr>rp_writers := [w1]\<rparr>" "n = 0" using same W by (auto simp: put_state_def at_boundary_def Let_def)
    then have s1: "s1 = s\<lparr>rp_writers := [w1]\<rparr>" using e one(1) by simp
    have "at_boundary K M D Ls w1 es (rp_proc s)" using W(2) f by (simp add: at_boundary_def Let_def)
    then have "waiting K env unread readable written M D s1" using put_state_writer [OF W(1) f] W(3) by (auto simp: waiting_def s1)
    then show ?thesis using waits by (simp add: s' s1 put_phase_def)
  next
    case A: full
    then obtain Ls es where W: "put_state K env written D Ls w es s" "sum_list Ls = length D" "0 < ric_current_split_chunk_size (rt_ctx w)"
      unfolding all_written_def put_state_def w by auto
    show ?thesis
    proof (cases "\<not> ric_all_is_written (rt_ctx w) \<or> es = [] \<or> length es \<noteq> rt_n_released_media w1")
      case True
      then have "s2 = s\<lparr>rp_writers := [w1]\<rparr>" "n = 0" using same W(1) by (auto simp: put_state_def)
      then have s1: "s1 = s\<lparr>rp_writers := [w1]\<rparr>" using e one(1) by simp
      have "all_written K env written D s1" using A put_state_writer [OF W(1) f] W(2,3) f(1) unfolding all_written_def s1 by (auto intro!: exI [of _ Ls] exI [of _ w1] exI [of _ es])
      then show ?thesis using A by (simp add: s' s1 all_written_def put_phase_def)
    next
      case False
      obtain lyt where lyt: "rp_dest_layout s = [lyt]" using W(1) by (auto simp: put_state_def length_Suc_conv)
      define l' where "l' = lyt\<lparr>lyt_extents := map (\<lambda>e. e\<lparr>ext_state := PHO_EXT_ST_SYNC\<rparr>) es\<rparr>"
      define w2 where "w2 = w1\<lparr>rt_written_extents := None, rt_n_released_media := 0, rt_released := True\<rparr>"
      have W1: "rt_written_extents w1 = Some es" "\<not> rt_released w1" "ric_all_is_written (rt_ctx w1)" "rt_n_released_media w1 = length es" "es \<noteq> []"
        using f W(1) False by (simp_all add: put_state_def)
      have "n = 1" "s2 = s\<lparr>rp_writers := [w2], rp_dest_layout := [l']\<rparr>"
        using r W1 by (simp_all add: release_target_def common_fill_layout_def lyt l'_def w2_def)
      then have s1: "s1 = s\<lparr>rp_writers := [w2], rp_dest_layout := [l'], rp_proc := (rp_proc s)\<lparr>dp_done := True\<rparr>\<rparr>" "rt_released w2"
        using e one(1) by (simp_all add: w2_def)
      have "layout_stores K env written D (rp_media s) l'" using W by (auto simp: layout_stores_def put_state_def l'_def)
      then have "put_released K env written D s1" using A W(1) s1(2) by (auto simp: put_released_def s1(1) all_written_def put_state_def)
      then show ?thesis using A by (simp add: s' s1 put_phase_def)
    qed
  next
    case R: released
    then have "s2 = s\<lparr>rp_writers := [w1]\<rparr>" "n = 1" using same w by (auto simp: put_released_def)
    then have s1: "s1 = s\<lparr>rp_writers := [w1], rp_proc := (rp_proc s)\<lparr>dp_done := True\<rparr>\<rparr>" using e one(1) by simp
    have "put_released K env written D s1" using R w f(3) by (auto simp: put_released_def s1)
    then show ?thesis using R by (simp add: s' s1 put_phase_def)
  qed
qed

end


subsection \<open>Reading the file\<close>

lemma pending_read:
  assumes "pending D proc" "offsets_order D proc" "pos = dp_reader_offset proc - dp_buffer_offset proc" "pos + n \<le> length (dp_buff proc)"
    and "dp_reader_offset proc + n \<le> length D"
    and "p = proc\<lparr>dp_buff := take pos (dp_buff proc) @ take n (drop (dp_reader_offset proc) D) @ drop (pos + n) (dp_buff proc),
           dp_reader_offset := dp_reader_offset proc + n\<rparr>"
  shows "pending D p \<and> offsets_order D p"
proof -
  define w b r where "w = dp_writer_offset proc" and "b = dp_buffer_offset proc" and "r = dp_reader_offset proc"
  have O: "b \<le> w" "w \<le> r" "r \<le> length D" "pos = r - b" "r + n \<le> length D" using assms(2,3,5) by (simp_all add: offsets_order_def w_def b_def r_def)
  have "drop (w - b) (take pos (dp_buff proc)) = take (r - w) (drop (w - b) (dp_buff proc))"
    using O by (simp add: drop_take)
  also have "\<dots> = take (r - w) (drop w D)" using assms(1) by (simp add: pending_def Let_def w_def b_def r_def)
  finally have "take (r + n - w) (drop (w - b) (take pos (dp_buff proc) @ take n (drop r D) @ drop (pos + n) (dp_buff proc))) =
      take (r - w) (drop w D) @ take n (drop r D)"
    using O assms(4) by simp
  also have "\<dots> = take (r + n - w) (drop w D)" using O take_add_drop [of "r - w" w D n] by (simp add: add.commute)
  finally have *: "take (r + n - w) (drop (w - b) (take pos (dp_buff proc) @ take n (drop r D) @ drop (pos + n) (dp_buff proc))) =
      take (r + n - w) (drop w D)" .
  have p: "dp_reader_offset p = r + n" "dp_writer_offset p = w" "dp_buffer_offset p = b"
    "dp_buff p = take pos (dp_buff proc) @ take n (drop r D) @ drop (pos + n) (dp_buff proc)"
    by (simp_all add: assms(6) w_def b_def r_def)
  have "pending D p" unfolding pending_def Let_def p by (rule * )
  then show ?thesis using assms(2,4,5) O by (auto simp: assms(6) offsets_order_def w_def b_def r_def)
qed

lemma read_into_buff_error:
  assumes "data_processor_read_into_buff io proc iod n = Some (rc, p, iod')" "rc \<noteq> 0" "dp_current_target proc < length (dp_xt_rc proc)"
  shows "dp_xd_rc p \<noteq> 0 \<and> target_rc p \<noteq> 0 \<and> dp_current_target p = dp_current_target proc"
  using assms
  by (auto simp: data_processor_read_into_buff_def set_error_def target_rc_def Let_def split: prod.splits option.splits if_splits)

lemma read_into_buff_length:
  "data_processor_read_into_buff io proc iod n = Some (rc, p, iod') \<Longrightarrow>
   length (dp_buff p) = length (dp_buff proc) \<and> dp_type p = dp_type proc \<and> (dp_xd_rc proc \<noteq> 0 \<longrightarrow> dp_xd_rc p \<noteq> 0)"
  by (auto simp: data_processor_read_into_buff_def set_error_def Let_def dest: buf_put_length split: prod.splits option.splits if_splits)

context raid_put
begin

lemma source_read:
  assumes "offsets_order D (rp_proc s)" "pending D (rp_proc s)" "source_state unread readable D s" "dp_buff (rp_proc s) \<noteq> []"
    and "dp_current_target (rp_proc s) = 0" "dp_type (rp_proc s) = PHO_PROC_ENCODER" "dp_xt_rc (rp_proc s) = [0]"
  shows "\<exists>rc p iod. reader_step sys ops None s = Some (rc, s\<lparr>rp_proc := p, rp_posix := [iod]\<rparr>, []) \<and>
     length (dp_buff p) = length (dp_buff (rp_proc s)) \<and> dp_type p = dp_type (rp_proc s) \<and>
     (rc \<noteq> 0 \<longrightarrow> dp_xd_rc p \<noteq> 0 \<and> target_rc p \<noteq> 0 \<and> dp_current_target p = 0) \<and>
     (rc = 0 \<longrightarrow> (\<exists>buff r. p = (rp_proc s)\<lparr>dp_buff := buff, dp_reader_offset := r\<rparr> \<and> length buff = length (dp_buff (rp_proc s)) \<and>
          r = min (length D) (dp_buffer_offset (rp_proc s) + length buff)) \<and>
        pending D p \<and> offsets_order D p \<and> source_state unread readable D (s\<lparr>rp_proc := p, rp_posix := [iod]\<rparr>))"
proof -
  let ?p = "rp_proc s"
  obtain iod where iod: "rp_posix s = [iod]" "readable (iod_ctx iod)" "unread (iod_ctx iod) = drop (dp_reader_offset ?p) D"
    "iod_size iod = dp_reader_offset ?p" and nr: "\<not> rp_need_alloc_to_read s"
    using assms(3) by (auto simp: source_state_def)
  define pos n where "pos = dp_reader_offset ?p - dp_buffer_offset ?p" and "n = min (length D - dp_reader_offset ?p) (length (dp_buff ?p) - pos)"
  have O: "dp_buffer_offset ?p \<le> dp_reader_offset ?p" "dp_reader_offset ?p \<le> length D" "pos \<le> length (dp_buff ?p)" "2 * length D + 2 < size_max"
    "dp_object_size ?p = length D"
    using assms(1) by (auto simp: offsets_order_def pos_def)
  have n: "pos + n \<le> length (dp_buff ?p)" "dp_reader_offset ?p + n \<le> length D" using O by (auto simp: n_def)
  obtain rc p iod' where r: "data_processor_read_into_buff (env_read env) ?p iod n = Some (rc, p, iod')" "readable (iod_ctx iod')"
    and ok: "rc = 0 \<longrightarrow> p = ?p\<lparr>dp_buff := take pos (dp_buff ?p) @ take n (drop (dp_reader_offset ?p) D) @ drop (pos + n) (dp_buff ?p),
        dp_reader_offset := dp_reader_offset ?p + n\<rparr> \<and> iod_size iod' = iod_size iod + n \<and> unread (iod_ctx iod') = drop n (unread (iod_ctx iod))"
    using rd.read_into_buff_spec [OF iod(2) O(1), of n] n O iod(3,4) by (auto simp: pos_def)
  have sub: "size_sub (dp_object_size ?p) (dp_reader_offset ?p) = length D - dp_reader_offset ?p"
    "size_sub (length (dp_buff ?p)) (size_sub (dp_reader_offset ?p) (dp_buffer_offset ?p)) = length (dp_buff ?p) - pos"
    using O by (simp_all add: size_sub_exact pos_def)
  have step: "reader_step sys ops None s = Some (rc, s\<lparr>rp_proc := p, rp_posix := [iod']\<rparr>, [])"
    using assms(4-7) r(1) iod(1)
    by (simp add: reader_step_def posix_step_def posix_reader_step_def current_target_def target_rc_def sub n_def [symmetric] sys_env)
  have len: "n + dp_reader_offset ?p = min (length D) (dp_buffer_offset ?p + length (dp_buff ?p))" using O by (auto simp: n_def pos_def min_def)
  show ?thesis
  proof (cases "rc = 0")
    case False
    then show ?thesis using step read_into_buff_error [OF r(1)] read_into_buff_length [OF r(1)] assms(5,7) by auto
  next
    case True
    note ok = ok [rule_format, OF True]
    have "pending D p \<and> offsets_order D p" using pending_read [OF assms(2,1) pos_def n] ok by blast
    moreover have "source_state unread readable D (s\<lparr>rp_proc := p, rp_posix := [iod']\<rparr>)"
      using ok iod(3,4) r(2) nr by (simp add: source_state_def add.commute)
    moreover have "\<exists>buff r. p = ?p\<lparr>dp_buff := buff, dp_reader_offset := r\<rparr> \<and> length buff = length (dp_buff ?p) \<and>
        r = min (length D) (dp_buffer_offset ?p + length buff)"
    proof (intro exI conjI)
      show "p = ?p\<lparr>dp_buff := take pos (dp_buff ?p) @ take n (drop (dp_reader_offset ?p) D) @ drop (pos + n) (dp_buff ?p),
        dp_reader_offset := dp_reader_offset ?p + n\<rparr>" using ok by blast
    qed (use n len O in simp_all)
    ultimately show ?thesis using step True read_into_buff_length [OF r(1)] by blast
  qed
qed

end


lemma reader_keeps_error:
  assumes "reader_step sys ops None s = Some (rc, s', reqs)" "dp_type (rp_proc s) = PHO_PROC_ENCODER" "dp_xd_rc (rp_proc s) \<noteq> 0"
  shows "dp_xd_rc (rp_proc s') \<noteq> 0"
  using assms
  by (auto simp: reader_step_def posix_step_def posix_reader_step_def Let_def split: if_splits elim!: bind_Some3E dest!: read_into_buff_length)

lemma reader_keeps_length:
  assumes "reader_step sys ops None s = Some (rc, s', reqs)" "dp_type (rp_proc s) = PHO_PROC_ENCODER"
  shows "length (dp_buff (rp_proc s')) = length (dp_buff (rp_proc s))"
  using assms
  by (auto simp: reader_step_def posix_step_def posix_reader_step_def Let_def split: if_splits elim!: bind_Some3E dest!: read_into_buff_length)

lemma send_generated_nonzero: "rc \<noteq> 0 \<Longrightarrow> send_generated_requests send reqs rc n = (rc', n') \<Longrightarrow> rc' = rc"
  by (induction reqs arbitrary: n) (auto simp: Let_def)

lemma step_and_sendE:
  assumes "step_and_send_requests send r = Some (rc, s, reqs)"
  obtains rc0 s0 n where "r = Some (rc0, s0, reqs)" "s = s0\<lparr>rp_calls := n\<rparr>" "rc0 \<noteq> 0 \<Longrightarrow> rc = rc0" "reqs = [] \<Longrightarrow> rc = rc0"
proof -
  obtain rc0 s0 where r: "r = Some (rc0, s0, reqs)" using assms unfolding step_and_send_requests_def by (auto split: prod.splits elim!: bind_Some3E)
  obtain rc1 n where n: "send_generated_requests send reqs rc0 (rp_calls s0) = (rc1, n)" by (cases "send_generated_requests send reqs rc0 (rp_calls s0)")
  have "rc1 = rc" "s = s0\<lparr>rp_calls := n\<rparr>" using assms by (simp_all add: step_and_send_requests_def r n)
  then show thesis by (intro that [OF r, of n]) (use n send_generated_nonzero [OF _ n] in auto)
qed

subsection \<open>Moving the bytes\<close>

text \<open>A writer inside a split that has a buffer.\<close>

definition moving ::
  "layout_code \<Rightarrow> 'f raid_env \<Rightarrow> ('f \<Rightarrow> byte list) \<Rightarrow> ('f \<Rightarrow> bool) \<Rightarrow> ('f \<Rightarrow> byte list) \<Rightarrow> ('f \<Rightarrow> bool) \<Rightarrow> nat \<Rightarrow> byte list \<Rightarrow> 'f raid_processor \<Rightarrow> bool" where
  "moving K env unread readable written writable M D s \<longleftrightarrow>
     (\<exists>Ls w es. put_state K env written D Ls w es s \<and> in_split K written writable M D Ls w (rp_proc s) \<and> length es + code_n_total K \<le> 2 ^ 31) \<and>
     source_state unread readable D s \<and> \<not> rp_need_alloc_to_write s \<and> dp_buff (rp_proc s) \<noteq> []"

lemma moving_calls [simp]:
  "moving K env unread readable written writable M D (s\<lparr>rp_calls := n\<rparr>) = moving K env unread readable written writable M D s"
  by (simp add: moving_def)

lemma phase_calls [simp]:
  "waiting K env unread readable written M D (s\<lparr>rp_calls := n\<rparr>) = waiting K env unread readable written M D s"
  "all_written K env written D (s\<lparr>rp_calls := n\<rparr>) = all_written K env written D s"
  "put_released K env written D (s\<lparr>rp_calls := n\<rparr>) = put_released K env written D s"
  "put_phase K env unread readable written M D (s\<lparr>rp_calls := n\<rparr>) = put_phase K env unread readable written M D s"
  by (simp_all add: waiting_def all_written_def put_released_def put_phase_def)

lemma put_state_posix:
  assumes "put_state K env written D Ls w es s" "p = (rp_proc s)\<lparr>dp_buff := buff, dp_reader_offset := r\<rparr>"
  shows "put_state K env written D Ls w es (s\<lparr>rp_proc := p, rp_posix := ps\<rparr>)"
  using put_state_proc [OF assms(1), of p] put_state_simps(6) by (simp add: assms(2))

context raid_put
begin

lemma moving_read:
  assumes "moving K env unread readable written writable M D s"
  shows "\<exists>rc s'. reader_step sys ops None s = Some (rc, s', []) \<and> dp_buff (rp_proc s') \<noteq> [] \<and> dp_type (rp_proc s') = PHO_PROC_ENCODER \<and>
     length (rp_targets s') \<le> Suc (current_target s') \<and>
     (rc \<noteq> 0 \<longrightarrow> dp_xd_rc (rp_proc s') \<noteq> 0 \<and> target_rc (rp_proc s') \<noteq> 0) \<and> (rc = 0 \<longrightarrow> moving K env unread readable written writable M D s')"
proof -
  obtain Ls w es where P: "put_state K env written D Ls w es s" and I: "in_split K written writable M D Ls w (rp_proc s)" "length es + code_n_total K \<le> 2 ^ 31"
    and S: "source_state unread readable D s" "\<not> rp_need_alloc_to_write s" "dp_buff (rp_proc s) \<noteq> []"
    using assms by (auto simp: moving_def)
  have F: "dp_current_target (rp_proc s) = 0" "split_state K written writable D (rp_proc s) (rt_ctx w)" using I(1) by (simp_all add: in_split_def Let_def)
  have O: "offsets_order D (rp_proc s)" "pending D (rp_proc s)" using F(2) by (simp_all add: split_state_def Let_def)
  have T: "dp_type (rp_proc s) = PHO_PROC_ENCODER" "dp_xt_rc (rp_proc s) = [0]" "length (rp_targets s) = 1" using P by (simp_all add: put_state_def)
  obtain rc p iod where r: "reader_step sys ops None s = Some (rc, s\<lparr>rp_proc := p, rp_posix := [iod]\<rparr>, [])"
      "length (dp_buff p) = length (dp_buff (rp_proc s))" "dp_type p = dp_type (rp_proc s)"
    and err: "rc \<noteq> 0 \<longrightarrow> dp_xd_rc p \<noteq> 0 \<and> target_rc p \<noteq> 0 \<and> dp_current_target p = 0"
    and ok: "rc = 0 \<longrightarrow> (\<exists>buff r. p = (rp_proc s)\<lparr>dp_buff := buff, dp_reader_offset := r\<rparr> \<and> length buff = length (dp_buff (rp_proc s)) \<and>
          r = min (length D) (dp_buffer_offset (rp_proc s) + length buff)) \<and>
        pending D p \<and> offsets_order D p \<and> source_state unread readable D (s\<lparr>rp_proc := p, rp_posix := [iod]\<rparr>)"
    using source_read [OF O S(1,3) F(1) T(1,2)] by blast
  have b: "dp_buff p \<noteq> []" using r(2) S(3) by (metis length_0_conv)
  have "moving K env unread readable written writable M D (s\<lparr>rp_proc := p, rp_posix := [iod]\<rparr>)" if rc: "rc = 0"
  proof -
    obtain buff r where p: "p = (rp_proc s)\<lparr>dp_buff := buff, dp_reader_offset := r\<rparr>" "length buff = length (dp_buff (rp_proc s))"
      "r = min (length D) (dp_buffer_offset (rp_proc s) + length buff)" using ok rc by blast
    have "stripes_aligned D p (rt_ctx w)" if "code_strict K"
      using F(2) that p(3) by (auto simp: split_state_def Let_def stripes_aligned_def p(1,2) min_def)
    then have "split_state K written writable D p (rt_ctx w)" using F(2) ok rc by (simp add: split_state_def Let_def p(1) is_rebuilder_def)
    moreover have "buffer_state K M p (ric_current_split_chunk_size (rt_ctx w))"
      using I(1) S(3) p(2) by (auto simp: in_split_def Let_def buffer_state_def p(1))
    ultimately have "in_split K written writable M D Ls w p" using I(1) by (simp add: in_split_def Let_def p(1))
    then show ?thesis using put_state_posix [OF P p(1)] I(2) ok rc S(2) b by (auto simp: moving_def)
  qed
  then show ?thesis using r err b T(1,3) by auto
qed

lemma waiting_read:
  assumes "waiting K env unread readable written M D s" "dp_buff (rp_proc s) \<noteq> []" "reader_step sys ops None s = Some (rc, s', reqs)"
    "dp_xd_rc (rp_proc s') = 0"
  shows "waiting K env unread readable written M D s' \<and> reqs = [] \<and> rp_need_alloc_to_write s' = rp_need_alloc_to_write s"
proof -
  obtain Ls w es where P: "put_state K env written D Ls w es s" and B: "at_boundary K M D Ls w es (rp_proc s)" and S: "source_state unread readable D s"
    using assms(1) by (auto simp: waiting_def)
  have O: "dp_current_target (rp_proc s) = 0" "offsets_order D (rp_proc s)" "pending D (rp_proc s)" using B by (simp_all add: at_boundary_def Let_def)
  have T: "dp_type (rp_proc s) = PHO_PROC_ENCODER" "dp_xt_rc (rp_proc s) = [0]" using P by (simp_all add: put_state_def)
  obtain rc' p iod where st: "reader_step sys ops None s = Some (rc', s\<lparr>rp_proc := p, rp_posix := [iod]\<rparr>, [])"
    and err: "rc' \<noteq> 0 \<longrightarrow> dp_xd_rc p \<noteq> 0"
    and ok: "rc' = 0 \<longrightarrow> (\<exists>buff r. p = (rp_proc s)\<lparr>dp_buff := buff, dp_reader_offset := r\<rparr> \<and> length buff = length (dp_buff (rp_proc s)) \<and>
          r = min (length D) (dp_buffer_offset (rp_proc s) + length buff)) \<and>
        pending D p \<and> offsets_order D p \<and> source_state unread readable D (s\<lparr>rp_proc := p, rp_posix := [iod]\<rparr>)"
    using source_read [OF O(2,3) S assms(2) O(1) T] by blast
  have s': "s' = s\<lparr>rp_proc := p, rp_posix := [iod]\<rparr>" "reqs = []" "rc' = 0" using st err assms(3,4) by auto
  obtain buff r where p: "p = (rp_proc s)\<lparr>dp_buff := buff, dp_reader_offset := r\<rparr>" "length buff = length (dp_buff (rp_proc s))"
      "r = min (length D) (dp_buffer_offset (rp_proc s) + length buff)" using ok s'(3) by blast
  have ok: "pending D p" "offsets_order D p" "source_state unread readable D (s\<lparr>rp_proc := p, rp_posix := [iod]\<rparr>)" using ok s'(3) by simp_all
  have "boundary_aligned D p c" if "boundary_aligned D (rp_proc s) c" for c
    using that p(3) by (auto simp: boundary_aligned_def p(1,2) min_def)
  then have "at_boundary K M D Ls w es p"
    using B ok(1,2) assms(2) p(2) by (auto simp: at_boundary_def Let_def p(1) buffer_state_def)
  then show ?thesis using put_state_posix [OF P p(1)] ok(3) by (auto simp: waiting_def s')
qed

lemma write_stage_error:
  assumes "write_stage sys ops s = Some (rc, s', reqs)" "length (rp_targets s) \<le> Suc (current_target s)"
  shows "dp_type (rp_proc s') = dp_type (rp_proc s) \<and> length (dp_buff (rp_proc s')) = length (dp_buff (rp_proc s)) \<and>
    (rc \<noteq> 0 \<longrightarrow> dp_xd_rc (rp_proc s') \<noteq> 0)"
proof -
  have "dp_type p = dp_type (rp_proc s) \<and> length (dp_buff p) = length (dp_buff (rp_proc s)) \<and> dp_current_target p = current_target s"
    if "op_write_from_buff ops (rp_proc s) ctx = Some (rc1, p, ctx')" for ctx rc1 p ctx'
    using proc_write_frameD [OF write_framesD(1) [OF write_frame [of "rp_proc s" ctx, unfolded that]]] by (simp add: current_target_def)
  note frame = this
  show ?thesis
  proof (cases "target_rc (rp_proc s) \<noteq> 0 \<or> dp_buff (rp_proc s) = []")
    case True
    then show ?thesis using assms by (auto simp: write_stage_def split: if_splits dest: check_for_release_type)
  next
    case False
    then have "write_and_check sys ops s = Some (rc, s', reqs)" using assms(1) by (simp add: write_stage_def)
    then obtain w rc0 p ctx rc1 st where wr: "op_write_from_buff ops (rp_proc s) (rt_ctx w) = Some (rc0, p, ctx)"
      and c: "check_for_release sys ops rc1 st ((set_current_writer s (w\<lparr>rt_ctx := ctx\<rparr>))\<lparr>rp_proc := p\<rparr>) = Some (rc, s', reqs)"
      unfolding write_and_check_def Let_def by (elim bind_SomeE bind_Some2E bind_Some3E)
    show ?thesis using check_for_release_type [OF c] frame [OF wr] assms(2) by simp
  qed
qed

end

text \<open>Where the loop stops.\<close>

definition stopped ::
  "layout_code \<Rightarrow> 'f raid_env \<Rightarrow> ('f \<Rightarrow> byte list) \<Rightarrow> ('f \<Rightarrow> bool) \<Rightarrow> ('f \<Rightarrow> byte list) \<Rightarrow> nat \<Rightarrow> byte list \<Rightarrow> 'f raid_processor \<Rightarrow> pho_req list \<Rightarrow> bool" where
  "stopped K env unread readable written M D s reqs \<longleftrightarrow>
     put_reqs (rp_need_alloc_to_write s) reqs \<and> dp_buff (rp_proc s) \<noteq> [] \<and>
     (rp_need_alloc_to_write s \<and> waiting K env unread readable written M D s \<or> all_written K env written D s)"

lemma stopped_calls [simp]:
  "stopped K env unread readable written M D (s\<lparr>rp_calls := n\<rparr>) reqs = stopped K env unread readable written M D s reqs"
  by (simp add: stopped_def)

lemma after_write_calls [simp]:
  "after_write K env unread readable written writable M D (s\<lparr>rp_calls := n\<rparr>) reqs = after_write K env unread readable written writable M D s reqs"
  by (simp add: after_write_def)

lemma after_write_cases:
  assumes "after_write K env unread readable written writable M D s reqs"
  shows "reqs \<noteq> [] \<and> stopped K env unread readable written M D s reqs \<or>
    reqs = [] \<and> source_state unread readable D s \<and> \<not> rp_need_alloc_to_write s \<and>
      (\<exists>Ls w es. put_state K env written D Ls w es s \<and> in_split K written writable M D Ls w (rp_proc s) \<and> length es + code_n_total K \<le> 2 ^ 31)"
  using assms by (auto simp: after_write_def stopped_def put_reqs_def split: if_splits)

context raid_put
begin

lemma writer_step_encoder: "dp_type (rp_proc s) = PHO_PROC_ENCODER \<Longrightarrow> dp_buff (rp_proc s) \<noteq> [] \<Longrightarrow> writer_step sys ops None s = write_stage sys ops s"
  by (simp add: writer_step_def raid_writer_processor_step_def)

lemma moving_fields:
  assumes "moving K env unread readable written writable M D s"
  shows "dp_type (rp_proc s) = PHO_PROC_ENCODER" "dp_buff (rp_proc s) \<noteq> []" "length (rp_targets s) \<le> Suc (current_target s)"
    "\<not> nothing_to_move False s"
  using assms by (auto simp: moving_def put_state_def nothing_to_move_def source_state_def)

text \<open>The write of a turn, and the read that follows when it fails.\<close>

lemma write_turn:
  assumes "step_and_send_requests send (writer_step sys ops None s) = Some (rc, s1, reqs)" "moving K env unread readable written writable M D s"
  shows "dp_type (rp_proc s1) = PHO_PROC_ENCODER \<and> (rc = 0 \<or> dp_xd_rc (rp_proc s1) = 0 \<longrightarrow>
     rc = 0 \<and> reqs = [] \<and> moving K env unread readable written writable M D s1 \<or>
     reqs \<noteq> [] \<and> stopped K env unread readable written M D s1 reqs)"
proof -
  note F = moving_fields [OF assms(2)]
  obtain rc0 s0 n where w: "write_stage sys ops s = Some (rc0, s0, reqs)" "s1 = s0\<lparr>rp_calls := n\<rparr>" "reqs = [] \<Longrightarrow> rc = rc0" "rc0 \<noteq> 0 \<Longrightarrow> rc = rc0"
    using step_and_sendE [OF assms(1)] unfolding writer_step_encoder [OF F(1,2)] by blast
  note E = write_stage_error [OF w(1) F(3)]
  have b: "dp_buff (rp_proc s0) \<noteq> []" using E F(2) by (metis length_0_conv)
  show ?thesis
  proof (cases "rc0 = 0")
    case False
    then show ?thesis using E F(1) w(4) by (simp add: w(2))
  next
    case True
    have "after_write K env unread readable written writable M D s0 reqs"
      using assms(2) write_stage_step [OF w(1) [unfolded True]] by (auto simp: moving_def)
    from after_write_cases [OF this] show ?thesis using E F(1) w(3) True b by (auto simp: w(2) moving_def)
  qed
qed

lemma try_read_cases:
  assumes "try_read sys ops send False s = Some (rc, rd, s1, reqs)" "moving K env unread readable written writable M D s"
  shows "reqs = [] \<and> (rc = 0 \<longrightarrow> \<not> rd \<and> moving K env unread readable written writable M D s1) \<and>
    (rc \<noteq> 0 \<longrightarrow> dp_buff (rp_proc s1) \<noteq> [] \<and> dp_type (rp_proc s1) = PHO_PROC_ENCODER \<and> length (rp_targets s1) \<le> Suc (current_target s1) \<and>
       target_rc (rp_proc s1) \<noteq> 0)"
proof (cases "dp_reader_offset (rp_proc s) = dp_writer_offset (rp_proc s) \<and> dp_object_size (rp_proc s) \<noteq> 0")
  case False
  then show ?thesis using assms by (auto simp: try_read_def)
next
  case True
  obtain rc0 s0 where r: "reader_step sys ops None s = Some (rc0, s0, [])" and R: "dp_buff (rp_proc s0) \<noteq> []" "dp_type (rp_proc s0) = PHO_PROC_ENCODER"
     "length (rp_targets s0) \<le> Suc (current_target s0)" "rc0 \<noteq> 0 \<longrightarrow> target_rc (rp_proc s0) \<noteq> 0"
     "rc0 = 0 \<longrightarrow> moving K env unread readable written writable M D s0"
    using moving_read [OF assms(2)] by blast
  have "rc = rc0" "rd = (rc0 \<noteq> 0)" "s1 = s0\<lparr>rp_calls := rp_calls s0\<rparr>" "reqs = []"
    using assms(1) True by (auto simp: try_read_def step_and_send_requests_def r)
  then show ?thesis using R by simp
qed

lemma failed_read_turn:
  assumes "step_and_send_requests send (writer_step sys ops None s) = Some (rc, s1, reqs)" "dp_type (rp_proc s) = PHO_PROC_ENCODER"
    and "dp_buff (rp_proc s) \<noteq> []" "length (rp_targets s) \<le> Suc (current_target s)" "target_rc (rp_proc s) \<noteq> 0"
  shows "rc \<noteq> 0 \<and> dp_type (rp_proc s1) = PHO_PROC_ENCODER \<and> dp_xd_rc (rp_proc s1) \<noteq> 0"
proof -
  obtain rc0 s0 n where w: "write_stage sys ops s = Some (rc0, s0, reqs)" "s1 = s0\<lparr>rp_calls := n\<rparr>" "rc0 \<noteq> 0 \<Longrightarrow> rc = rc0"
    using step_and_sendE [OF assms(1)] unfolding writer_step_encoder [OF assms(2,3)] by blast
  have "rc0 \<noteq> 0" using w(1) assms(4,5) by (auto simp: write_stage_def dest: check_for_release_error)
  then show ?thesis using write_stage_error [OF w(1) assms(4)] w(2,3) assms(2) by simp
qed

lemma stopped_read:
  assumes "reader_step sys ops None s = Some (rc, s', reqs')" "stopped K env unread readable written M D s reqs" "dp_xd_rc (rp_proc s') = 0"
    and "dp_type (rp_proc s) = PHO_PROC_ENCODER"
  shows "reqs' = [] \<and> stopped K env unread readable written M D s' reqs"
proof -
  have na: "\<not> all_written K env written D s" using assms(1,4) by (auto simp: all_written_def reader_step_def posix_step_def current_target_def)
  have w: "waiting K env unread readable written M D s" "dp_buff (rp_proc s) \<noteq> []" using assms(2) na by (auto simp: stopped_def)
  have "dp_buff (rp_proc s') \<noteq> []" using reader_keeps_length [OF assms(1,4)] w(2) by (metis length_0_conv)
  then show ?thesis using waiting_read [OF w assms(1,3)] assms(2) na by (auto simp: stopped_def)
qed

lemma move_turn_cases:
  assumes "move_turn sys ops send False acc s = Some x" "moving K env unread readable written writable M D s"
    and "\<And>r. x = Inl r \<Longrightarrow> dp_xd_rc (rp_proc (fst (snd r))) = 0"
  obtains rc s' new where "x = Inl (rc, s', acc @ new)" "stopped K env unread readable written M D s' new"
    | s1 where "x = Inr (False, s1, acc)" "moving K env unread readable written writable M D s1"
proof -
  obtain rc1 rd s1 reqs1 where t: "try_read sys ops send False s = Some (rc1, rd, s1, reqs1)"
    using assms(1) by (cases "try_read sys ops send False s") (auto simp: move_turn_def)
  note T = try_read_cases [OF t assms(2)]
  have enc: "dp_type (rp_proc s1) = PHO_PROC_ENCODER" using T moving_fields(1) by blast
  have reqs1: "reqs1 = []" and rd: "rc1 = 0 \<Longrightarrow> \<not> rd" using T by auto
  show thesis
  proof (cases "dp_reader_offset (rp_proc s1) > dp_writer_offset (rp_proc s1) \<or> dp_object_size (rp_proc s1) = 0 \<or> rc1 \<noteq> 0")
    case False
    then show thesis using that(2) [of s1] assms(1) t T enc by (auto simp: move_turn_def is_decoder_def)
  next
    case True
    have "do { (rc, s2, reqs) \<leftarrow> step_and_send_requests send (writer_step sys ops None s1);
       if rc = 0 \<and> reqs \<noteq> [] then Some (Inl (0, s2, acc @ reqs))
       else if rc \<noteq> 0 then do { r \<leftarrow> then_send send (acc @ reqs) (reader_step sys ops None s2); Some (Inl r) }
       else Some (Inr (rd, s2, acc @ reqs)) } = Some x"
      using assms(1) True enc unfolding move_turn_def t reqs1 by (simp add: is_decoder_def cong: if_cong)
    then obtain rc2 s2 reqs2 where w: "step_and_send_requests send (writer_step sys ops None s1) = Some (rc2, s2, reqs2)"
      and x: "(if rc2 = 0 \<and> reqs2 \<noteq> [] then Some (Inl (0, s2, acc @ reqs2))
       else if rc2 \<noteq> 0 then do { r \<leftarrow> then_send send (acc @ reqs2) (reader_step sys ops None s2); Some (Inl r) }
       else Some (Inr (rd, s2, acc @ reqs2))) = Some x"
      by (elim bind_Some3E)
    show thesis
    proof (cases "rc2 = 0")
      case True
      have rc1: "rc1 = 0" using failed_read_turn [OF w] T True by auto
      then have "moving K env unread readable written writable M D s1" using T by simp
      from write_turn [OF w this] True x rd [OF rc1] that show thesis by (cases "reqs2 = []") auto
    next
      case False
      then obtain r where r: "then_send send (acc @ reqs2) (reader_step sys ops None s2) = Some r" "x = Inl r" using x by (simp, elim bind_SomeE) simp
      obtain rc3 s4 reqs3 where s4: "step_and_send_requests send (reader_step sys ops None s2) = Some (rc3, s4, reqs3)" "r = (rc3, s4, (acc @ reqs2) @ reqs3)"
        using r(1) unfolding then_send_def by (auto elim!: bind_Some3E)
      obtain rc0 s3 n where s3: "reader_step sys ops None s2 = Some (rc0, s3, reqs3)" "s4 = s3\<lparr>rp_calls := n\<rparr>" by (rule step_and_sendE [OF s4(1)])
      have xd: "dp_xd_rc (rp_proc s3) = 0" using assms(3) [OF r(2)] by (simp add: s4(2) s3(2))
      have bad: "dp_type (rp_proc s2) = PHO_PROC_ENCODER \<and> dp_xd_rc (rp_proc s2) \<noteq> 0" if "rc1 \<noteq> 0"
        using T that failed_read_turn [OF w enc] by simp
      have good: "dp_type (rp_proc s2) = PHO_PROC_ENCODER \<and> (dp_xd_rc (rp_proc s2) = 0 \<longrightarrow> stopped K env unread readable written M D s2 reqs2)" if "rc1 = 0"
        using T that write_turn [OF w, of D] False by simp
      have e2: "dp_type (rp_proc s2) = PHO_PROC_ENCODER" using bad good by (cases "rc1 = 0") simp_all
      then have xd2: "dp_xd_rc (rp_proc s2) = 0" using reader_keeps_error [OF s3(1)] xd by (cases "dp_xd_rc (rp_proc s2) = 0") simp_all
      then have "stopped K env unread readable written M D s2 reqs2" using bad good by (cases "rc1 = 0") simp_all
      then have "stopped K env unread readable written M D s4 reqs2" "x = Inl (rc3, s4, acc @ reqs2)"
        using stopped_read [OF s3(1) _ xd e2] r(2) s4(2) s3(2) by (metis append_Nil2 stopped_calls)+
      then show thesis by (rule that(1) [rotated])
    qed
  qed
qed

lemma move_loop_stops:
  assumes "move_loop sys ops send False acc s = Some (rc, s', reqs)" "moving K env unread readable written writable M D s" "dp_xd_rc (rp_proc s') = 0"
  shows "\<exists>new. reqs = acc @ new \<and> stopped K env unread readable written M D s' new"
proof -
  define P where "P sy op rd acc s r \<longleftrightarrow> (sy = sys \<longrightarrow> op = ops \<longrightarrow> \<not> rd \<longrightarrow> moving K env unread readable written writable M D s \<longrightarrow>
      dp_xd_rc (rp_proc (fst (snd r))) = 0 \<longrightarrow> (\<exists>new. snd (snd r) = acc @ new \<and> stopped K env unread readable written M D (fst (snd r)) new))"
    for sy op rd acc s and r :: "rc \<times> 'f raid_processor \<times> pho_req list"
  have "P sys ops False acc s (rc, s', reqs)"
  proof (rule move_loop.raw_induct [where P = "\<lambda>sy op _ rd acc s r. P sy op rd acc s r", OF _ assms(1)], goal_cases)
    case (1 loop sy op send rd acc s r)
    have turn: "P sys ops rd acc s r" if eq: "sy = sys" "op = ops" and rd: "\<not> rd" and m: "moving K env unread readable written writable M D s"
      and xd: "dp_xd_rc (rp_proc (fst (snd r))) = 0"
    proof -
      obtain x where x: "move_turn sys ops send False acc s = Some x"
        and r: "(case x of Inl result \<Rightarrow> Some result | Inr (rd, s, acc) \<Rightarrow> loop sys ops send rd acc s) = Some r"
        using 1(2) rd moving_fields(4) [OF m] unfolding eq by (auto split: if_splits elim!: bind_SomeE)
      have xl: "dp_xd_rc (rp_proc (fst (snd r'))) = 0" if "x = Inl r'" for r' using that xd r by simp
      consider new where "x = Inl r" "snd (snd r) = acc @ new" "stopped K env unread readable written M D (fst (snd r)) new"
        | s1 where "x = Inr (False, s1, acc)" "moving K env unread readable written writable M D s1"
        by (rule move_turn_cases [OF x m xl]) (use r in auto)
      then show ?thesis
      proof cases
        case 1
        then show ?thesis by (auto simp: P_def)
      next
        case (2 s1)
        then have "P sys ops False acc s1 r" using 1(1) r by simp
        then show ?thesis using 2(2) by (simp add: P_def)
      qed
    qed
    then show ?case by (simp add: P_def)
  qed
  then show ?thesis using assms(2,3) by (simp add: P_def)
qed

end

subsection \<open>Responses\<close>

context raid_put
begin

lemma allocation_error:
  assumes "raid_writer_processor_step sys ops (Some (RespWrite media thr)) s = Some (rc, s', reqs)" "rc \<noteq> 0"
    and "length (rp_targets s) \<le> Suc (current_target s)"
  shows "dp_xd_rc (rp_proc s') \<noteq> 0"
proof -
  have al: "alloc_stage sys ops (RespWrite media thr) s = Some (rc, s', reqs)" using assms(1) by (simp add: raid_writer_processor_step_def)
  obtain rc1 s1 where p: "prepare_writer_rebuilder_release_request sys (RespWrite media thr) s = Some (rc1, s1)"
    using al by (auto simp: alloc_stage_def elim!: bind_Some2E)
  have s1: "rp_targets s1 = rp_targets s" "rp_proc s1 = rp_proc s"
    using p by (auto simp: prepare_writer_rebuilder_release_request_def Let_def split: prod.splits if_splits)
  show ?thesis
  proof (cases "rc1 = 0")
    case False
    then show ?thesis using al p assms(2) by (auto simp: alloc_stage_def dest!: set_target_rc_Some)
  next
    case True
    define s2 where "s2 = s1\<lparr>rp_need_alloc_to_write := False\<rparr>"
    have st: "start_split sys ops s2 = Some (rc, s', reqs)" using al p True by (simp add: alloc_stage_def s2_def)
    have t: "length (rp_targets s2) \<le> Suc (current_target s2)" using assms(3) s1 by (simp add: s2_def current_target_def)
    show ?thesis
    proof (cases "target_rc (rp_proc s2) = 0")
      case False
      then show ?thesis using st t assms(2) by (auto simp: start_split_def dest: check_for_release_type)
    next
      case True
      then obtain rc3 s3 where su: "raid_writer_split_setup sys ops s2 = Some (rc3, s3)"
        and r: "(if rc3 \<noteq> 0 then check_for_release sys ops rc3 (no_write False) s3 else write_stage sys ops s3) = Some (rc, s', reqs)"
        using st by (auto simp: start_split_def elim!: bind_Some2E)
      have "length (rp_targets s3) \<le> Suc (current_target s3)" using raid_writer_split_setup_frame [OF su] t by (simp add: xfer_frame_def)
      then show ?thesis using r assms(2) by (auto split: if_splits dest: check_for_release_type write_stage_error)
    qed
  qed
qed

text \<open>The buffer gets the size of a number of stripes of the reader and of the writer.\<close>

lemma alloc_buffer_moving:
  assumes "put_state K env written D Ls w es s" "in_split K written writable M D Ls w (rp_proc s)" "length es + code_n_total K \<le> 2 ^ 31"
    and "source_state unread readable D s" "\<not> rp_need_alloc_to_write s"
  shows "\<exists>s'. alloc_buffer s = Some (Some s') \<and> moving K env unread readable written writable M D s'"
proof (cases "dp_buff (rp_proc s) = []")
  case False
  then show ?thesis using assms by (auto simp: alloc_buffer_def moving_def)
next
  case True
  define r c l where "r = dp_reader_stripe_size (rp_proc s)" and "c = ric_current_split_chunk_size (rt_ctx w)" and "l = lcm r (c * code_n_data K)"
  have S: "split_state K written writable D (rp_proc s) (rt_ctx w)" and b: "0 < r" "r \<le> M" "c \<le> M" "dp_writer_stripe_size (rp_proc s) = c * code_n_data K"
    using assms(2) by (simp_all add: in_split_def Let_def buffer_state_def r_def c_def)
  have c: "0 < c" using S by (simp add: split_state_def Let_def c_def)
  have "l \<le> r * (c * code_n_data K)" using b(1) c n_data unfolding l_def by (intro dvd_imp_le) (auto simp: lcm_least)
  also have "\<dots> \<le> M * (M * code_n_data K)" using b by (intro mult_le_mono) auto
  finally have l: "l < size_max" using small by (rule le_less_trans)
  have pos: "0 < l" using b(1) c n_data by (simp add: l_def lcm_pos_nat)
  have lc: "lcm_c r (c * code_n_data K) = Some l" using lcm_c_lcm b(1) l by (simp add: l_def)
  define p where "p = (rp_proc s)\<lparr>dp_buff := replicate l 0\<rparr>"
  have al: "alloc_buffer s = Some (Some (s\<lparr>rp_proc := p\<rparr>))"
    using True b c n_data lc by (simp add: alloc_buffer_def Let_def r_def [symmetric] p_def)
  have O: "dp_reader_offset (rp_proc s) = dp_writer_offset (rp_proc s)" "dp_buffer_offset (rp_proc s) = dp_writer_offset (rp_proc s)" "offsets_order D (rp_proc s)"
    using S True by (auto simp: split_state_def Let_def offsets_order_def)
  have dv: "c * code_n_data K dvd l" by (simp add: l_def)
  have "stripes_aligned D p (rt_ctx w)" if "code_strict K"
    using S that dv O strict_data [OF that] by (auto simp: split_state_def Let_def stripes_aligned_def p_def c_def [symmetric] mult.commute)
  moreover have "offsets_order D p" "pending D p" using O by (simp_all add: offsets_order_def pending_def p_def)
  ultimately have "split_state K written writable D p (rt_ctx w)" using S by (simp add: split_state_def Let_def is_rebuilder_def p_def)
  then have "in_split K written writable M D Ls w p"
    using assms(2) dv c by (simp add: in_split_def Let_def buffer_state_def p_def c_def [symmetric])
  moreover have "put_state K env written D Ls w es (s\<lparr>rp_proc := p\<rparr>)" by (rule put_state_proc [OF assms(1)]) (simp_all add: p_def)
  moreover have "source_state unread readable D (s\<lparr>rp_proc := p\<rparr>)" using assms(4) by (simp add: source_state_def p_def)
  moreover have "dp_buff p \<noteq> []" using pos by (simp add: p_def)
  ultimately show ?thesis using al assms(3,5) by (auto simp: moving_def)
qed

lemma stopped_phase: "stopped K env unread readable written M D s reqs \<Longrightarrow> put_phase K env unread readable written M D s"
  by (auto simp: stopped_def put_phase_def)

lemma communicate_alloc:
  assumes "processor_communicate sys ops send RQ_WRITE (RespWrite media thr) s = Some (rc, s', reqs)" "put_phase K env unread readable written M D s"
    and "rp_need_alloc_to_write s" "media_ok K M media" "n_written s + code_n_total K \<le> 2 ^ 31" "dp_xd_rc (rp_proc s') = 0"
  shows "put_phase K env unread readable written M D s' \<and> put_reqs (rp_need_alloc_to_write s') reqs"
proof -
  define s0 where "s0 = s\<lparr>rp_need_alloc_to_write := False\<rparr>"
  have W: "waiting K env unread readable written M D s" using assms(2,3) by (auto simp: put_phase_def all_written_def put_released_def)
  then have W0: "waiting K env unread readable written M D s0" by (simp add: waiting_def s0_def)
  have T: "dp_type (rp_proc s0) = PHO_PROC_ENCODER" "length (rp_targets s0) \<le> Suc (current_target s0)" "n_written s0 = n_written s"
    using W by (auto simp: waiting_def put_state_def s0_def n_written_def current_writer_def)
  have ws: "writer_step sys ops (Some (RespWrite media thr)) s0 = raid_writer_processor_step sys ops (Some (RespWrite media thr)) s0"
    using T(1) by (simp add: writer_step_def)
  obtain rc1 s1 reqs1 where 1: "step_and_send_requests send (writer_step sys ops (Some (RespWrite media thr)) s0) = Some (rc1, s1, reqs1)"
    using assms(1) T(1) unfolding processor_communicate_def Let_def s0_def by (auto simp: is_eraser_def elim!: bind_Some3E)
  have k: "rc1 \<noteq> 0 \<Longrightarrow> (rc, s', reqs) = (rc1, s1, reqs1)" "rc1 = 0 \<Longrightarrow> alloc_buffer s1 = Some (Some b) \<Longrightarrow> reqs1 \<noteq> [] \<Longrightarrow> (rc, s', reqs) = (0, b, reqs1)"
    "rc1 = 0 \<Longrightarrow> alloc_buffer s1 = Some (Some b) \<Longrightarrow> reqs1 = [] \<Longrightarrow> move_loop sys ops send False [] b = Some (rc, s', reqs)" for b
    using assms(1) 1 [unfolded s0_def] T(1) [unfolded s0_def] by (auto simp: processor_communicate_def is_eraser_def)
  obtain rc0 s2 n where 2: "raid_writer_processor_step sys ops (Some (RespWrite media thr)) s0 = Some (rc0, s2, reqs1)" "s1 = s2\<lparr>rp_calls := n\<rparr>"
    "rc0 \<noteq> 0 \<Longrightarrow> rc1 = rc0" "reqs1 = [] \<Longrightarrow> rc1 = rc0"
    using step_and_sendE [OF 1] unfolding ws by blast
  have keep: "dp_xd_rc (rp_proc s1) = 0" if "rc0 \<noteq> 0" using k(1) 2(3) that assms(6) by auto
  have rc0: "rc0 = 0" using allocation_error [OF 2(1) _ T(2)] keep 2(2) by auto
  have few: "n_written s0 + code_n_total K \<le> 2 ^ 31" using assms(5) T(3) by simp
  have "after_write K env unread readable written writable M D s1 reqs1"
    using allocation_step [OF 2(1) [unfolded rc0] W0 assms(4) few] by (simp add: 2(2))
  from after_write_cases [OF this] show ?thesis
  proof (elim disjE conjE exE)
    assume st: "reqs1 \<noteq> []" "stopped K env unread readable written M D s1 reqs1"
    then have "alloc_buffer s1 = Some (Some s1)" by (simp add: stopped_def alloc_buffer_def)
    then have "s' = s1" "reqs = reqs1" using k(1,2) st(1) by (cases "rc1 = 0"; auto)+
    then show ?thesis using st(2) stopped_phase by (auto simp: stopped_def)
  next
    fix Ls w es
    assume a: "reqs1 = []" "source_state unread readable D s1" "\<not> rp_need_alloc_to_write s1" "put_state K env written D Ls w es s1"
      "in_split K written writable M D Ls w (rp_proc s1)" "length es + code_n_total K \<le> 2 ^ 31"
    obtain b where b: "alloc_buffer s1 = Some (Some b)" "moving K env unread readable written writable M D b"
      using alloc_buffer_moving [OF a(4-6,2,3)] by blast
    have "move_loop sys ops send False [] b = Some (rc, s', reqs)" using k(3) [OF _ b(1) a(1)] 2(4) a(1) rc0 by simp
    from move_loop_stops [OF this b(2) assms(6)] have "stopped K env unread readable written M D s' reqs" by simp
    then show ?thesis using stopped_phase by (auto simp: stopped_def)
  qed
qed

end


end
