(* ===== verification/Raid_Put_Theorem.thy ===== *)
theory Raid_Put_Theorem
  imports Raid_Put_Correct "HOL-Library.Code_Target_Nat"
begin

text \<open>
  A put from its construction by \<open>layout_encoder\<close> to its end: whatever the media that the LRS grants and the
  order of its responses, a put that is done and recorded no error has stored the object.
\<close>

subsection \<open>Runs\<close>

text \<open>
  The states of a put: each response of the LRS answers a request, an allocation grants media that \<open>ok\<close>
  accepts, and no error is recorded. The index of an extent is an \<open>int\<close>, which bounds their number.
\<close>

inductive put_run ::
  "'f raid_sys \<Rightarrow> 'f raid_ops \<Rightarrow> (nat \<Rightarrow> pho_req \<Rightarrow> rc) \<Rightarrow> (write_elt list \<Rightarrow> bool) \<Rightarrow> nat \<Rightarrow> 'f raid_processor \<Rightarrow> 'f raid_processor \<Rightarrow> bool"
  for sys ops send ok n_extents s0 where
  start: "put_run sys ops send ok n_extents s0 s0"
| allocated: "put_run sys ops send ok n_extents s0 s \<Longrightarrow> rp_need_alloc_to_write s \<Longrightarrow> ok media \<Longrightarrow> n_written s + n_extents \<le> 2 ^ 31 \<Longrightarrow>
    processor_communicate sys ops send RQ_WRITE (RespWrite media thr) s = Some (rc, s', reqs) \<Longrightarrow> dp_xd_rc (rp_proc s') = 0 \<Longrightarrow>
    put_run sys ops send ok n_extents s0 s'"
| released: "put_run sys ops send ok n_extents s0 s \<Longrightarrow>
    processor_communicate sys ops send RQ_RELEASE_WRITE (RespRelease ids False) s = Some (rc, s', reqs) \<Longrightarrow> dp_xd_rc (rp_proc s') = 0 \<Longrightarrow>
    put_run sys ops send ok n_extents s0 s'"

lemma phase_fields:
  assumes "put_phase K env unread readable written M D s"
  shows "dp_type (rp_proc s) = PHO_PROC_ENCODER" "dp_done (rp_proc s) \<Longrightarrow> put_released K env written D s"
  using assms by (auto simp: put_phase_def waiting_def all_written_def put_released_def put_state_def)

context raid_put
begin

lemma communicate_release:
  assumes "processor_communicate sys ops send RQ_RELEASE_WRITE (RespRelease ids False) s = Some (rc, s', reqs)"
    and "put_phase K env unread readable written M D s" "dp_xd_rc (rp_proc s') = 0"
  shows "put_phase K env unread readable written M D s' \<and> reqs = []"
proof -
  have t: "dp_type (rp_proc s) = PHO_PROC_ENCODER" by (rule phase_fields(1) [OF assms(2)])
  have "step_and_send_requests send (raid_writer_processor_step sys ops (Some (RespRelease ids False)) s) = Some (rc, s', reqs)"
    using assms(1) t by (auto simp: processor_communicate_def is_eraser_def writer_step_def elim!: bind_Some3E)
  then obtain rc0 s0 n where w: "raid_writer_processor_step sys ops (Some (RespRelease ids False)) s = Some (rc0, s0, reqs)" "s' = s0\<lparr>rp_calls := n\<rparr>"
    by (rule step_and_sendE)
  have "rc0 = 0" using w assms(3) by (auto simp: raid_writer_processor_step_def dest!: set_target_rc_Some elim!: bind_Some2E)
  then show ?thesis using release_step [OF w(1) [unfolded \<open>rc0 = 0\<close>] assms(2)] by (simp add: w(2))
qed

lemma put_run_phase:
  assumes "put_run sys ops send (media_ok K M) (code_n_total K) s0 s" "put_phase K env unread readable written M D s0"
  shows "put_phase K env unread readable written M D s"
  using assms
proof (induction rule: put_run.induct)
  case (allocated s media thr rc s' reqs)
  then show ?case using communicate_alloc by blast
next
  case (released s ids rc s' reqs)
  then show ?case using communicate_release by blast
qed

end

subsection \<open>The construction of a put\<close>

text \<open>A processor before its construction, for one target of the size of \<open>D\<close>.\<close>

definition fresh_put :: "byte list \<Rightarrow> xfer_target \<Rightarrow> 'f raid_processor \<Rightarrow> bool" where
  "fresh_put D t s \<longleftrightarrow>
     rp_targets s = [t] \<and> xt_size t = length D \<and> rp_media s = [] \<and> \<not> rp_need_alloc_to_read s \<and>
     dp_current_target (rp_proc s) = 0 \<and> dp_reader_offset (rp_proc s) = 0 \<and> dp_writer_offset (rp_proc s) = 0 \<and>
     dp_buffer_offset (rp_proc s) = 0 \<and> dp_buff (rp_proc s) = [] \<and> dp_xt_rc (rp_proc s) = [0] \<and> 2 * length D + 2 < size_max"

text \<open>A processor whose writer was built, before its first call.\<close>

definition built_put :: "layout_code \<Rightarrow> byte list \<Rightarrow> xfer_target \<Rightarrow> 'f raid_processor \<Rightarrow> bool" where
  "built_put K D t s \<longleftrightarrow>
     fresh_put D t s \<and> dp_type (rp_proc s) = PHO_PROC_ENCODER \<and> \<not> dp_done (rp_proc s) \<and> dp_object_size (rp_proc s) = length D \<and>
     length (rp_dest_layout s) = 1 \<and>
     (\<exists>w. rp_writers s = [w] \<and> rt_written_extents w = Some [] \<and> \<not> rt_released w \<and> ctx_shape K (rt_ctx w) \<and>
        ric_current_split_chunk_size (rt_ctx w) = 0 \<and> ric_current_split (rt_ctx w) = 0 \<and> ric_current_split_offset (rt_ctx w) = 0 \<and>
        ric_out_extents (rt_ctx w) = replicate (code_n_total K) extent_zero \<and> (ric_all_is_written (rt_ctx w) \<longrightarrow> D = []))"

lemma init_hashes_length: "init_hashes env md5 xxh n = (rc, hs) \<Longrightarrow> length hs = n"
  by (induction n arbitrary: rc hs) (auto simp: Let_def split: prod.splits if_splits)

lemma encoder_init_built:
  assumes "encoder_contexts (sys_env sys) cfg nm (code_n_data K) (code_n_parity K) (rp_targets s) 0 = Inr ws"
    and "raid_encoder_init sys nm (s\<lparr>rp_writers := ws\<rparr>) = Some (0, s')" "fresh_put D t s" "dp_type (rp_proc s) = PHO_PROC_ENCODER"
    and "\<not> dp_done (rp_proc s)" "dp_object_size (rp_proc s) = length D" "length (rp_dest_layout s) = 1"
  shows "built_put K D t s'"
proof -
  have t: "rp_targets s = [t]" "xt_size t = length D" using assms(3) by (simp_all add: fresh_put_def)
  obtain l where l: "rp_dest_layout s = [l]" using assms(7) by (auto simp: length_Suc_conv)
  obtain rc hs where h: "init_hashes (sys_env sys) (lc_extent_md5 cfg) (lc_extent_xxh128 cfg) (code_n_total K) = (rc, hs)"
    by (cases "init_hashes (sys_env sys) (lc_extent_md5 cfg) (lc_extent_xxh128 cfg) (code_n_total K)")
  define w where "w = target_zero nm ((ctx_zero (code_n_data K) (code_n_parity K) :: 'a raid_io_context)\<lparr>ric_all_is_written := (xt_size t = 0), ric_hashes := hs\<rparr>)"
  have ws: "ws = [w]" using assms(1) h by (auto simp: t(1) w_def code_n_total_def Let_def split: if_splits)
  have n: "n_total_extents (rt_ctx w) = code_n_total K" by (simp add: w_def target_zero_def ctx_zero_def n_total_extents_def code_n_total_def)
  obtain md l1 where s': "s' = s\<lparr>rp_writers := [w\<lparr>rt_user_md := md, rt_written_extents := Some [], rt_to_release_media := [],
      rt_ioa := replicate (code_n_total K) False, rt_ctx := (rt_ctx w)\<lparr>ric_iods := replicate (code_n_total K) (iod_zero sys),
        ric_out_extents := replicate (code_n_total K) extent_zero\<rparr>\<rparr>], rp_dest_layout := [l1]\<rparr>"
    using assms(2) unfolding raid_encoder_init_def
    by (auto simp: t(1) l ws common_rebuilder_writer_init_def n Let_def split: if_splits prod.splits elim!: bind_Some3E)
  show ?thesis
    using assms(3-6) init_hashes_length [OF h] t(2)
    by (simp add: built_put_def s' fresh_put_def w_def target_zero_def ctx_zero_def ctx_shape_def code_n_total_def)
qed

context raid_put
begin

lemma io_size_bounds:
  assumes "0 \<le> q" "q \<le> int M" "b \<le> M"
  shows "0 < update_io_size q (nat (sys_page_size sys)) b \<and> update_io_size q (nat (sys_page_size sys)) b \<le> M"
proof -
  have "M \<le> M * (M * code_n_data K)" using n_data mult_le_mono2 [of 1 "M * code_n_data K" M] by (cases "M = 0") simp_all
  then have "M < size_max" using small by (rule le_less_trans)
  then have "c_size q = nat q" using assms by (simp add: c_size_def size_max_def nat_less_iff)
  then show ?thesis using assms page_size by (auto simp: update_io_size_def Let_def)
qed

text \<open>The first step of the reader computes the size of its reads.\<close>

lemma built_reader_step:
  assumes "built_put K D t s" "rp_posix s = [iod]" "readable (iod_ctx iod)" "unread (iod_ctx iod) = D" "iod_size iod = 0" "dp_io_block_size (rp_proc s) \<le> M"
  shows "\<exists>s'. reader_step sys ops None s = Some (0, s', []) \<and> waiting K env unread readable written M D s' \<and> dp_buff (rp_proc s') = []"
proof -
  define r where "r = update_io_size (posix_preferred sys s) (nat (sys_page_size sys)) (dp_io_block_size (rp_proc s))"
  have r: "0 < r" "r \<le> M" using io_size_bounds [OF _ _ assms(6)] preferred by (simp_all add: r_def posix_preferred_def)
  define s' where "s' = s\<lparr>rp_proc := (rp_proc s)\<lparr>dp_reader_stripe_size := r\<rparr>, rp_posix := [iod]\<rparr>"
  have F: "fresh_put D t s" "dp_type (rp_proc s) = PHO_PROC_ENCODER" "length (rp_dest_layout s) = 1" "dp_object_size (rp_proc s) = length D"
    "\<not> dp_done (rp_proc s)" using assms(1) by (simp_all add: built_put_def)
  obtain w where w: "rp_writers s = [w]" "rt_written_extents w = Some []" "\<not> rt_released w" "ctx_shape K (rt_ctx w)"
    "ric_current_split_chunk_size (rt_ctx w) = 0" "ric_current_split (rt_ctx w) = 0" "ric_current_split_offset (rt_ctx w) = 0"
    "ric_out_extents (rt_ctx w) = replicate (code_n_total K) extent_zero" "ric_all_is_written (rt_ctx w) \<longrightarrow> D = []"
    using assms(1) by (auto simp: built_put_def)
  have step: "reader_step sys ops None s = Some (0, s', [])"
    using F(1,2) by (simp add: reader_step_def posix_step_def posix_reader_step_def current_target_def fresh_put_def assms(2) r_def s'_def)
  have "put_state K env written D [] w [] s'" using F w by (simp add: put_state_def s'_def fresh_put_def object_stored_def)
  moreover have "at_boundary K M D [] w [] (rp_proc s')"
    using F(1,4) w r assms(6) by (simp add: at_boundary_def s'_def fresh_put_def offsets_order_def pending_def buffer_state_def boundary_aligned_def)
  moreover have "source_state unread readable D s'" using F(1) assms(3-5) by (simp add: source_state_def s'_def fresh_put_def)
  ultimately have "waiting K env unread readable written M D s'" unfolding waiting_def by blast
  then show ?thesis using step F(1) by (auto simp: s'_def fresh_put_def)
qed

text \<open>The first step of the writer asks for media.\<close>

lemma waiting_first_write:
  assumes "raid_writer_processor_step sys ops None s = Some (rc, s', reqs)" "waiting K env unread readable written M D s" "dp_buff (rp_proc s) = []"
    and "dp_xd_rc (rp_proc s') = 0"
  shows "rp_need_alloc_to_write s' \<and> waiting K env unread readable written M D s' \<and> put_reqs True reqs"
proof -
  obtain rc0 remain where x: "xfer_remain_to_write_per_medium sys s = Some (rc0, remain)"
    using assms(1,3) by (auto simp: raid_writer_processor_step_def elim!: bind_Some2E)
  have "rc0 = 0"
  proof (rule ccontr)
    assume "rc0 \<noteq> 0"
    then show False using assms(1,3,4) x by (auto simp: raid_writer_processor_step_def dest!: set_target_rc_Some)
  qed
  then obtain req where req: "raid_writer_rebuilder_build_allocation_req s remain = Some req" and s: "s' = s\<lparr>rp_need_alloc_to_write := True\<rparr>" "reqs = [req]"
    using assms(1,3) x by (auto simp: raid_writer_processor_step_def dest!: set_target_rc_Some elim!: bind_SomeE)
  have "is_write_req req \<and> put_req req" using req by (auto simp: raid_writer_rebuilder_build_allocation_req_def Let_def elim!: bind_SomeE)
  then show ?thesis using assms(2) by (simp add: s waiting_def source_state_def put_reqs_def)
qed

lemma built_first_call:
  assumes "built_put K D t s" "posix_then_block_size sys fam s = Some (0, s1)" "first_data_processor_call sys ops send s1 = Some (rc, s2, reqs)"
    and "dp_xd_rc (rp_proc s2) = 0" "\<And>n f. sys_dup_fd sys n (xt_fd t) = (0, f) \<Longrightarrow> readable f \<and> unread f = D"
    and "\<And>b. sys_io_block_size sys fam = (0, b) \<Longrightarrow> b \<le> M"
  shows "put_phase K env unread readable written M D s2"
proof -
  have t: "rp_targets s = [t]" "dp_type (rp_proc s) = PHO_PROC_ENCODER" using assms(1) by (simp_all add: built_put_def fresh_put_def)
  obtain rc0 iods where p: "set_private_posix_io_descr sys [t] (rp_calls s) = Some (rc0, iods)"
    using assms(2) unfolding posix_then_block_size_def set_posix_def t(1) by (cases "set_private_posix_io_descr sys [t] (rp_calls s)") auto
  obtain b where b: "sys_io_block_size sys fam = (0, b)"
    using assms(2) by (cases "sys_io_block_size sys fam") (auto simp: posix_then_block_size_def Let_def split: if_splits elim!: bind_Some2E)
  let ?n = "rp_calls s + 1"
  have s1: "s1 = (let s = s\<lparr>rp_posix := iods, rp_calls := ?n\<rparr>; s = (if rc0 \<noteq> 0 then layout_destroy s else s) in s\<lparr>rp_proc := (rp_proc s)\<lparr>dp_io_block_size := b\<rparr>\<rparr>)"
    using assms(2) by (simp add: posix_then_block_size_def set_posix_def t p b Let_def del: set_private_posix_io_descr.simps split: if_splits)
  have T: "dp_type (rp_proc s1) = PHO_PROC_ENCODER" using t(2) by (simp add: s1 Let_def layout_destroy_def)
  have r: "rc0 = 0"
  proof (rule ccontr)
    assume "rc0 \<noteq> 0"
    then have "rp_posix s1 = []" by (simp add: s1 Let_def layout_destroy_def)
    then show False using assms(3) T by (simp add: first_data_processor_call_def is_eraser_def reader_step_def posix_step_def step_and_send_requests_def)
  qed
  obtain f where f: "sys_dup_fd sys (rp_calls s) (xt_fd t) = (0, f)" "iods = [(iod_zero sys)\<lparr>iod_ctx := f\<rparr>]"
    using p r by (cases "sys_dup_fd sys (rp_calls s) (xt_fd t)") (auto split: if_splits)
  have B: "built_put K D t s1" using assms(1) r by (simp add: s1 Let_def built_put_def fresh_put_def)
  obtain s3 where s3: "reader_step sys ops None s1 = Some (0, s3, [])" "waiting K env unread readable written M D s3" "dp_buff (rp_proc s3) = []"
    using built_reader_step [OF B, of "(iod_zero sys)\<lparr>iod_ctx := f\<rparr>"] assms(5) [OF f(1)] assms(6) [OF b] r by (auto simp: s1 f(2) Let_def iod_zero_def)
  have T3: "dp_type (rp_proc s3) = PHO_PROC_ENCODER" using s3(2) by (auto simp: waiting_def put_state_def)
  obtain s4 reqs4 where "step_and_send_requests send (raid_writer_processor_step sys ops None s3) = Some (rc, s2, reqs4)"
    using assms(3) T T3 by (auto simp: first_data_processor_call_def is_eraser_def step_and_send_requests_def [of send "Some _"] s3(1) then_send_def writer_step_def
        elim!: bind_Some3E)
  then obtain rc5 s5 n where w: "raid_writer_processor_step sys ops None s3 = Some (rc5, s5, reqs4)" "s2 = s5\<lparr>rp_calls := n\<rparr>"
    by (rule step_and_sendE)
  show ?thesis using waiting_first_write [OF w(1) s3(2,3)] assms(4) by (simp add: w(2) put_phase_def)
qed

text \<open>A put that is done without error has stored its object.\<close>

lemma put_stores:
  assumes "built_put K D t s" "posix_then_block_size sys fam s = Some (0, s1)" "first_data_processor_call sys ops send s1 = Some (rc, s2, reqs)"
    and "dp_xd_rc (rp_proc s2) = 0" "\<And>n f. sys_dup_fd sys n (xt_fd t) = (0, f) \<Longrightarrow> readable f \<and> unread f = D"
    and "\<And>b. sys_io_block_size sys fam = (0, b) \<Longrightarrow> b \<le> M"
    and "put_run sys ops send (media_ok K M) (code_n_total K) s2 s3" "dp_done (rp_proc s3)"
  shows "\<exists>lyt. rp_dest_layout s3 = [lyt] \<and> layout_stores K env written D (rp_media s3) lyt"
proof -
  have "put_phase K env unread readable written M D s2" using built_first_call [OF assms(1-4)] assms(5,6) by blast
  then show ?thesis using phase_fields(2) [OF put_run_phase [OF assms(7)] assms(8)] by (auto simp: put_released_def)
qed

end

subsection \<open>Objects on POSIX files\<close>

text \<open>
  The system of a put: new files are empty, the sizes of blocks and pages are at most \<open>M\<close>, and two
  blocks of that size can be multiplied.
\<close>

definition posix_put_sys ::
  "(byte list \<Rightarrow> byte list) \<Rightarrow> (byte list \<Rightarrow> byte list) \<Rightarrow> (hash_call \<Rightarrow> bool) \<Rightarrow> nat \<Rightarrow> posix_fd raid_sys \<Rightarrow> bool" where
  "posix_put_sys md5 xxh128 hash_fails M sys \<longleftrightarrow>
     sys_env sys = posix_env md5 xxh128 hash_fails \<and>
     (\<forall>n oid loc f. sys_open sys n oid loc True = (0, f) \<longrightarrow> posix_writable f \<and> fd_data f = []) \<and>
     0 < sys_page_size sys \<and> sys_page_size sys \<le> int M \<and>
     (\<forall>f. 0 \<le> sys_preferred_io_size sys f \<and> sys_preferred_io_size sys f \<le> int M) \<and>
     (\<forall>fam b. sys_io_block_size sys fam = (0, b) \<longrightarrow> b \<le> M) \<and> M * (M * 2) < size_max"

text \<open>The file of the target can be read and holds the object.\<close>

definition put_source :: "posix_fd raid_sys \<Rightarrow> byte list \<Rightarrow> xfer_target \<Rightarrow> bool" where
  "put_source sys D t \<longleftrightarrow> (\<forall>n f. sys_dup_fd sys n (xt_fd t) = (0, f) \<longrightarrow> posix_readable f \<and> posix_unread f = D)"

text \<open>The construction and the first call of an encoder, without error.\<close>

definition put_started ::
  "'f raid_sys \<Rightarrow> 'f raid_ops \<Rightarrow> 'f module_loader \<Rightarrow> string \<Rightarrow> (nat \<Rightarrow> pho_req \<Rightarrow> rc) \<Rightarrow> 'f raid_processor \<Rightarrow> 'f raid_processor \<Rightarrow> bool" where
  "put_started sys ops load nm send s0 s \<longleftrightarrow>
     (\<exists>s1 rc reqs. layout_encoder sys load nm s0 = Some (0, s1) \<and> first_data_processor_call sys ops send s1 = Some (rc, s, reqs) \<and>
        dp_xd_rc (rp_proc s) = 0)"

lemma raid1_put_posix:
  assumes "posix_put_sys md5 xxh128 hash_fails M sys"
  shows "raid_put (posix_env md5 xxh128 hash_fails) posix_unread posix_readable fd_data posix_writable
    (RAID1_OPS (posix_env md5 xxh128 hash_fails)) (RAID1_CODE k) sys M"
proof unfold_locales
  have "M * M \<le> M * (M * 2)" by simp
  then show "M * (M * code_n_data (RAID1_CODE k)) < size_max" using assms unfolding posix_put_sys_def code_simps by simp
qed (use assms in \<open>auto simp: posix_put_sys_def\<close>)

lemma raid4_put_posix:
  assumes "posix_put_sys md5 xxh128 hash_fails M sys"
  shows "raid_put (posix_env md5 xxh128 hash_fails) posix_unread posix_readable fd_data posix_writable
    (RAID4_OPS (posix_env md5 xxh128 hash_fails)) RAID4_CODE sys M"
  by unfold_locales (use assms in \<open>auto simp: posix_put_sys_def\<close>)

interpretation raid1_put: raid_put "posix_env rev id (\<lambda>_. False)" posix_unread posix_readable fd_data posix_writable
  "RAID1_OPS (posix_env rev id (\<lambda>_. False))" "RAID1_CODE k" sample_sys 4096 for k
  by (rule raid1_put_posix)
    (auto simp: posix_put_sys_def sample_sys_def sample_env_def sample_fd_def posix_writable_def size_max_def)

interpretation raid4_put: raid_put "posix_env rev id (\<lambda>_. False)" posix_unread posix_readable fd_data posix_writable
  "RAID4_OPS (posix_env rev id (\<lambda>_. False))" RAID4_CODE sample_sys 4096
  by (rule raid4_put_posix)
    (auto simp: posix_put_sys_def sample_sys_def sample_env_def sample_fd_def posix_writable_def size_max_def)

subsection \<open>The two layouts\<close>

text \<open>The number of replicas that is asked for, by the put or else by the configuration.\<close>

definition asked_repl_count :: "layout_cfg \<Rightarrow> 'f raid_processor \<Rightarrow> string option" where
  "asked_repl_count cfg s =
     (let params = pp_lyt_params (rp_put s) in if pho_attrs_is_empty params then lc_repl_count cfg else pho_attr_get params ''repl_count'')"

lemma repl_count_read:
  assumes "pho_attr_get (lyt_mod_attrs l) ''raid1.repl_count'' = Some (nat2str n)" "0 < n" "n < 2 ^ 32"
  shows "raid1_repl_count l = (0, n)"
proof -
  have "strtoul (nat2str n) = (n, False)"
    using nat2str_digits [of n] assms(3) by (simp add: strtoul_def dropWhile_space_digits takeWhile_all_digits size_max_def)
  then show ?thesis using assms by (simp add: raid1_repl_count_def)
qed

lemma raid1_built:
  assumes "build_layout_writer load ''raid1'' (start_processor PHO_PROC_ENCODER s0) = Some (0, s)" "fresh_put D t s0"
    and "find_module load ''raid1'' = Inr (LAYOUT_RAID1_OPS sys cfg)" "asked_repl_count cfg s0 = Some (nat2str (Suc k))" "Suc k < 2 ^ 32"
  shows "built_put (RAID1_CODE k) D t s"
proof -
  have t: "rp_targets s0 = [t]" "xt_size t = length D" using assms(2) by (simp_all add: fresh_put_def)
  define s1 where "s1 = s0\<lparr>rp_proc := (rp_proc s0)\<lparr>dp_type := PHO_PROC_ENCODER, dp_done := False, dp_object_size := length D\<rparr>,
    rp_dest_layout := [(dest_layout_init (rp_put s0) (length D) t)\<lparr>lyt_mod_attrs :=
      pho_attr_set (lyt_mod_attrs (dest_layout_init (rp_put s0) (length D) t)) ''raid1.repl_count'' (Some (nat2str (Suc k)))\<rparr>]\<rparr>"
  have "raid1_repl_count (rp_dest_layout s1 ! 0) = (0, Suc k)"
    using assms(5) by (intro repl_count_read) (simp_all add: s1_def pho_attr_get_set)
  then have e: "(case encoder_contexts (sys_env sys) cfg ''raid1'' 1 k (rp_targets s1) 0 of Inl _ \<Rightarrow> None
      | Inr ws \<Rightarrow> raid_encoder_init sys ''raid1'' (s1\<lparr>rp_writers := ws\<rparr>)) = Some (0, s)"
    using assms(1,3-5) t
    by (simp add: build_layout_writer_def LAYOUT_RAID1_OPS_def layout_raid1_encode_def raid1_encoder_get_repl_count_def asked_repl_count_def
        start_processor_def s1_def Let_def size_sub_def size_max_def del: encoder_contexts.simps cong: sum.case_cong)
  then obtain ws where ws: "encoder_contexts (sys_env sys) cfg ''raid1'' 1 k (rp_targets s1) 0 = Inr ws"
      "raid_encoder_init sys ''raid1'' (s1\<lparr>rp_writers := ws\<rparr>) = Some (0, s)" by (auto split: sum.splits)
  show ?thesis by (rule encoder_init_built [OF _ ws(2)]) (use ws(1) assms(2) in \<open>simp_all add: s1_def fresh_put_def\<close>)
qed

lemma raid4_built:
  assumes "build_layout_writer load ''raid4'' (start_processor PHO_PROC_ENCODER s0) = Some (0, s)" "fresh_put D t s0"
    and "find_module load ''raid4'' = Inr (LAYOUT_RAID4_OPS sys cfg)"
  shows "built_put RAID4_CODE D t s"
proof -
  have t: "rp_targets s0 = [t]" "xt_size t = length D" using assms(2) by (simp_all add: fresh_put_def)
  define s1 where "s1 = s0\<lparr>rp_proc := (rp_proc s0)\<lparr>dp_type := PHO_PROC_ENCODER, dp_done := False, dp_object_size := length D\<rparr>,
    rp_dest_layout := [dest_layout_init (rp_put s0) (length D) t]\<rparr>"
  have e: "layout_raid4_encode sys cfg s1 = Some (0, s)"
    using assms(1,3) t by (simp add: build_layout_writer_def LAYOUT_RAID4_OPS_def start_processor_def s1_def Let_def)
  obtain ws where ws: "encoder_contexts (sys_env sys) cfg ''raid4'' 2 1 (rp_targets s1) 0 = Inr ws"
      "raid_encoder_init sys ''raid4'' (s1\<lparr>rp_writers := ws\<rparr>) = Some (0, s)"
    using e unfolding layout_raid4_encode_def by (auto simp: s1_def t(1) Let_def split: sum.splits prod.splits if_splits)
  show ?thesis by (rule encoder_init_built [OF _ ws(2)]) (use ws(1) assms(2) in \<open>simp_all add: s1_def fresh_put_def\<close>)
qed

lemma put_startedE:
  assumes "put_started sys ops load nm send s0 s2"
  obtains s s1 rc reqs where "build_layout_writer load nm (start_processor PHO_PROC_ENCODER s0) = Some (0, s)"
    "posix_then_block_size sys (pp_family (rp_put s)) s = Some (0, s1)"
    "first_data_processor_call sys ops send s1 = Some (rc, s2, reqs)" "dp_xd_rc (rp_proc s2) = 0"
proof -
  obtain s1 rc reqs where s1: "layout_encoder sys load nm s0 = Some (0, s1)" "first_data_processor_call sys ops send s1 = Some (rc, s2, reqs)"
      "dp_xd_rc (rp_proc s2) = 0" using assms by (auto simp: put_started_def)
  then obtain s where "build_layout_writer load nm (start_processor PHO_PROC_ENCODER s0) = Some (0, s)"
      "posix_then_block_size sys (pp_family (rp_put s)) s = Some (0, s1)"
    by (auto simp: layout_encoder_def or_destroy_def split: option.splits prod.splits if_splits)
  then show thesis using that s1(2,3) by blast
qed

subsection \<open>A sample put\<close>

text \<open>Runs on given responses, computed.\<close>

fun run_put ::
  "'f raid_sys \<Rightarrow> 'f raid_ops \<Rightarrow> (nat \<Rightarrow> pho_req \<Rightarrow> rc) \<Rightarrow> (write_elt list \<Rightarrow> bool) \<Rightarrow> nat \<Rightarrow> pho_resp list \<Rightarrow> 'f raid_processor \<Rightarrow> 'f raid_processor option" where
  "run_put sys ops send ok n [] s = Some s"
| "run_put sys ops send ok n (resp # resps) s =
     (case resp of
        RespWrite media thr \<Rightarrow>
          if rp_need_alloc_to_write s \<and> ok media \<and> n_written s + n \<le> 2 ^ 31 then
            (case processor_communicate sys ops send RQ_WRITE resp s of
               Some (rc, s', reqs) \<Rightarrow> if dp_xd_rc (rp_proc s') = 0 then run_put sys ops send ok n resps s' else None
             | None \<Rightarrow> None)
          else None
      | RespRelease ids False \<Rightarrow>
          (case processor_communicate sys ops send RQ_RELEASE_WRITE resp s of
             Some (rc, s', reqs) \<Rightarrow> if dp_xd_rc (rp_proc s') = 0 then run_put sys ops send ok n resps s' else None
           | None \<Rightarrow> None)
      | _ \<Rightarrow> None)"

lemma run_put_sound: "run_put sys ops send ok n resps s = Some s' \<Longrightarrow> put_run sys ops send ok n s0 s \<Longrightarrow> put_run sys ops send ok n s0 s'"
  by (induction resps arbitrary: s) (auto split: pho_resp.splits bool.splits option.splits if_splits prod.splits dest: put_run.allocated put_run.released)

definition start_put :: "'f raid_sys \<Rightarrow> 'f raid_ops \<Rightarrow> 'f module_loader \<Rightarrow> string \<Rightarrow> (nat \<Rightarrow> pho_req \<Rightarrow> rc) \<Rightarrow> 'f raid_processor \<Rightarrow> 'f raid_processor option" where
  "start_put sys ops load nm send s0 =
     (case layout_encoder sys load nm s0 of
        None \<Rightarrow> None
      | Some (rc, s1) \<Rightarrow>
          if rc \<noteq> 0 then None
          else (case first_data_processor_call sys ops send s1 of
                  None \<Rightarrow> None | Some (rc, s, reqs) \<Rightarrow> if dp_xd_rc (rp_proc s) = 0 then Some s else None))"

lemma start_put_sound: "start_put sys ops load nm send s0 = Some s \<Longrightarrow> put_started sys ops load nm send s0 s"
  by (auto simp: start_put_def put_started_def split: option.splits prod.splits if_splits)

lemma run_put_done:
  assumes "map_option (dp_done \<circ> rp_proc) (Option.bind (start_put sys ops load nm send s0) (run_put sys ops send ok n resps)) = Some True"
  obtains s1 s where "put_started sys ops load nm send s0 s1" "put_run sys ops send ok n s1 s" "dp_done (rp_proc s)"
proof -
  obtain s1 s where "start_put sys ops load nm send s0 = Some s1" "run_put sys ops send ok n resps s1 = Some s" "dp_done (rp_proc s)"
    using assms by (auto elim!: bind_SomeE)
  then show thesis using that start_put_sound run_put_sound put_run.start by metis
qed

definition put_sample_sys :: "posix_fd raid_sys" where
  "put_sample_sys = sample_sys\<lparr>sys_dup_fd := (\<lambda>n fd. (0, sample_fd (\<lambda>_. OsFull) [7, 8, 9] 0))\<rparr>"

definition put_sample_target :: xfer_target where
  "put_sample_target = \<lparr>xt_objid = ''oid'', xt_objuuid = ''uuid'', xt_version = 1, xt_size = 3, xt_attrs = None, xt_fd = 0\<rparr>"

definition put_sample_cfg :: layout_cfg where
  "put_sample_cfg = \<lparr>lc_extent_md5 = True, lc_extent_xxh128 = False, lc_check_hash = True, lc_repl_count = Some ''2''\<rparr>"

definition put_sample_load :: "posix_fd module_loader" where
  "put_sample_load nm = Inr (if nm = ''layout_raid1'' then LAYOUT_RAID1_OPS put_sample_sys put_sample_cfg else LAYOUT_RAID4_OPS put_sample_sys put_sample_cfg)"

definition put_sample_state :: "posix_fd raid_processor" where
  "put_sample_state = (sample_state [] (sample_proc [] 0 0))\<lparr>rp_targets := [put_sample_target], rp_proc := (sample_proc [] 0 0)\<lparr>dp_xt_rc := [0]\<rparr>\<rparr>"

definition put_sample_elt :: "nat \<Rightarrow> string \<Rightarrow> write_elt" where
  "put_sample_elt n nm =
     \<lparr>we_med_id = sample_medium nm, we_avail_size = n, we_root_path = ''/mnt'', we_fs_type = PHO_FS_POSIX, we_addr_type = PHO_ADDR_PATH\<rparr>"

lemma put_sample_ok:
  "posix_put_sys rev id (\<lambda>_. False) 4096 put_sample_sys" "fresh_put [7, 8, 9] put_sample_target put_sample_state"
  "put_source put_sample_sys [7, 8, 9] put_sample_target"
  "find_module put_sample_load ''raid1'' = Inr (LAYOUT_RAID1_OPS put_sample_sys put_sample_cfg)"
  "find_module put_sample_load ''raid4'' = Inr (LAYOUT_RAID4_OPS put_sample_sys put_sample_cfg)"
  by (simp_all add: posix_put_sys_def put_sample_sys_def sample_sys_def sample_env_def sample_fd_def posix_writable_def size_max_def fresh_put_def
      put_sample_target_def put_sample_state_def sample_state_def sample_proc_def put_source_def posix_readable_def posix_unread_def
      find_module_def build_layout_name_def put_sample_load_def)

lemma put_sample_repl_count: "asked_repl_count put_sample_cfg put_sample_state = Some (nat2str (Suc 1))"
  by code_simp

declare move_loop.simps [code] raid4_stripes_loop.simps [code]

text \<open>The first medium has room for two of the three bytes, so that the object has two splits.\<close>

lemma raid1_put_sample:
  "map_option (dp_done \<circ> rp_proc)
     (Option.bind (start_put put_sample_sys (RAID1_OPS (sys_env put_sample_sys)) put_sample_load ''raid1'' (\<lambda>n r. 0) put_sample_state)
        (run_put put_sample_sys (RAID1_OPS (sys_env put_sample_sys)) (\<lambda>n r. 0) (media_ok (RAID1_CODE 1) 4096) (Suc 1)
           [RespWrite [put_sample_elt 2 ''a'', put_sample_elt 9 ''b''] None, RespRelease [sample_medium ''b'', sample_medium ''a''] False,
            RespWrite [put_sample_elt 9 ''c'', put_sample_elt 9 ''d''] None, RespRelease [sample_medium ''c''] False,
            RespRelease [sample_medium ''d''] False])) = Some True"
  by code_simp

lemma raid4_put_sample:
  "map_option (dp_done \<circ> rp_proc)
     (Option.bind (start_put put_sample_sys (RAID4_OPS (sys_env put_sample_sys)) put_sample_load ''raid4'' (\<lambda>n r. 0) put_sample_state)
        (run_put put_sample_sys (RAID4_OPS (sys_env put_sample_sys)) (\<lambda>n r. 0) (media_ok RAID4_CODE 4096) 3
           [RespWrite [put_sample_elt 4096 ''a'', put_sample_elt 4096 ''b'', put_sample_elt 4096 ''c''] None,
            RespRelease [sample_medium ''c'', sample_medium ''b'', sample_medium ''a''] False])) = Some True"
  by code_simp

text \<open>
  C1. A RAID1 put of an object in a POSIX file to one target, with reads of the file that are not
  partial: when the media that the LRS grants for a split differ from each other, whatever the
  order of its responses, when the processor is done and no error was recorded, its layout describes
  the whole object as a sequence of splits, each with the asked number of replicas on distinct
  media, and the files on the media hold exactly the bytes that the layout says; where the layout
  records a digest, it is the digest of these bytes.
\<close>

theorem raid1_put_stores:
  assumes "posix_put_sys md5 xxh128 hash_fails M sys" "fresh_put D t s0" "put_source sys D t"
    and "find_module load ''raid1'' = Inr (LAYOUT_RAID1_OPS sys cfg)" "asked_repl_count cfg s0 = Some (nat2str (Suc k))" "Suc k < 2 ^ 32"
    and "put_started sys (RAID1_OPS (sys_env sys)) load ''raid1'' send s0 s1"
    and "put_run sys (RAID1_OPS (sys_env sys)) send (media_ok (RAID1_CODE k) M) (Suc k) s1 s" "dp_done (rp_proc s)"
  shows "\<exists>lyt. rp_dest_layout s = [lyt] \<and> layout_stores (RAID1_CODE k) (sys_env sys) fd_data D (rp_media s) lyt"
proof -
  have env: "sys_env sys = posix_env md5 xxh128 hash_fails" using assms(1) by (simp add: posix_put_sys_def)
  note put = raid_put.put_stores [OF raid1_put_posix [OF assms(1)], folded env]
  obtain s' s'' rc reqs where st: "build_layout_writer load ''raid1'' (start_processor PHO_PROC_ENCODER s0) = Some (0, s')"
    "posix_then_block_size sys (pp_family (rp_put s')) s' = Some (0, s'')"
    "first_data_processor_call sys (RAID1_OPS (sys_env sys)) send s'' = Some (rc, s1, reqs)" "dp_xd_rc (rp_proc s1) = 0"
    using assms(7) by (rule put_startedE)
  show ?thesis
    by (rule put [OF raid1_built [OF st(1) assms(2,4,5,6)] st(2-4)])
      (use assms(1,3,8,9) in \<open>auto simp: posix_put_sys_def put_source_def\<close>)
qed

theorem raid1_put_stores_witness:
  "\<exists>s1 s lyt. put_started put_sample_sys (RAID1_OPS (sys_env put_sample_sys)) put_sample_load ''raid1'' (\<lambda>n r. 0) put_sample_state s1 \<and>
     put_run put_sample_sys (RAID1_OPS (sys_env put_sample_sys)) (\<lambda>n r. 0) (media_ok (RAID1_CODE 1) 4096) (Suc 1) s1 s \<and> dp_done (rp_proc s) \<and>
     rp_dest_layout s = [lyt] \<and> layout_stores (RAID1_CODE 1) (sys_env put_sample_sys) fd_data [7, 8, 9] (rp_media s) lyt"
proof -
  obtain s1 s where s: "put_started put_sample_sys (RAID1_OPS (sys_env put_sample_sys)) put_sample_load ''raid1'' (\<lambda>n r. 0) put_sample_state s1"
    "put_run put_sample_sys (RAID1_OPS (sys_env put_sample_sys)) (\<lambda>n r. 0) (media_ok (RAID1_CODE 1) 4096) (Suc 1) s1 s" "dp_done (rp_proc s)"
    by (rule run_put_done [OF raid1_put_sample])
  show ?thesis using s raid1_put_stores [OF put_sample_ok(1-4) put_sample_repl_count _ s] by auto
qed

text \<open>
  C2. A RAID4 put of an object in a POSIX file to one target, with reads of the file that are not
  partial: when the media granted for a split differ from each other and have room for a chunk,
  whatever the order of the responses of the LRS, a processor that is done without an
  error has stored the object as a sequence of splits of two extents and their parity on distinct
  media, as its layout says.
\<close>

theorem raid4_put_stores:
  assumes "posix_put_sys md5 xxh128 hash_fails M sys" "fresh_put D t s0" "put_source sys D t"
    and "find_module load ''raid4'' = Inr (LAYOUT_RAID4_OPS sys cfg)"
    and "put_started sys (RAID4_OPS (sys_env sys)) load ''raid4'' send s0 s1"
    and "put_run sys (RAID4_OPS (sys_env sys)) send (media_ok RAID4_CODE M) 3 s1 s" "dp_done (rp_proc s)"
  shows "\<exists>lyt. rp_dest_layout s = [lyt] \<and> layout_stores RAID4_CODE (sys_env sys) fd_data D (rp_media s) lyt"
proof -
  have env: "sys_env sys = posix_env md5 xxh128 hash_fails" using assms(1) by (simp add: posix_put_sys_def)
  note put = raid_put.put_stores [OF raid4_put_posix [OF assms(1)], folded env]
  obtain s' s'' rc reqs where st: "build_layout_writer load ''raid4'' (start_processor PHO_PROC_ENCODER s0) = Some (0, s')"
    "posix_then_block_size sys (pp_family (rp_put s')) s' = Some (0, s'')"
    "first_data_processor_call sys (RAID4_OPS (sys_env sys)) send s'' = Some (rc, s1, reqs)" "dp_xd_rc (rp_proc s1) = 0"
    using assms(5) by (rule put_startedE)
  show ?thesis
    by (rule put [OF raid4_built [OF st(1) assms(2,4)] st(2-4)])
      (use assms(1,3,6,7) in \<open>auto simp: posix_put_sys_def put_source_def\<close>)
qed


theorem raid4_put_stores_witness:
  "\<exists>s1 s lyt. put_started put_sample_sys (RAID4_OPS (sys_env put_sample_sys)) put_sample_load ''raid4'' (\<lambda>n r. 0) put_sample_state s1 \<and>
     put_run put_sample_sys (RAID4_OPS (sys_env put_sample_sys)) (\<lambda>n r. 0) (media_ok RAID4_CODE 4096) 3 s1 s \<and> dp_done (rp_proc s) \<and>
     rp_dest_layout s = [lyt] \<and> layout_stores RAID4_CODE (sys_env put_sample_sys) fd_data [7, 8, 9] (rp_media s) lyt"
proof -
  obtain s1 s where s: "put_started put_sample_sys (RAID4_OPS (sys_env put_sample_sys)) put_sample_load ''raid4'' (\<lambda>n r. 0) put_sample_state s1"
    "put_run put_sample_sys (RAID4_OPS (sys_env put_sample_sys)) (\<lambda>n r. 0) (media_ok RAID4_CODE 4096) 3 s1 s" "dp_done (rp_proc s)"
    by (rule run_put_done [OF raid4_put_sample])
  show ?thesis using s raid4_put_stores [OF put_sample_ok(1,2,3,5) s] by auto
qed

end
