(* ===== verification/Lrs_Media_List.thy ===== *)
theory Lrs_Media_List
  imports Pho_Types "HOL-Library.Multiset" "HOL-Library.Monad_Syntax"
begin

text \<open>
  The list of the media of a read request (\<^verbatim>\<open>src/lrs/lrs_utils.c\<close>): the media that are allocated, free,
  unavailable for now and in error are kept in this order in one array, and three counters tell where
  the sections end. Until the first \<open>rml_reset\<close>, \<open>rml_available\<close> counts the allocated and the free
  media; after it, only the free ones. The abstract view is four multisets.
\<close>

subsection \<open>Operations\<close>

record read_media_list =
  rml_media :: "pho_id list"
  rml_size :: size_t
  rml_available :: size_t
  rml_allocated :: size_t
  rml_errors :: size_t
  rml_reset_done :: bool

datatype read_medium_allocation_status = RMAS_OK | RMAS_UNAVAILABLE | RMAS_ERROR

definition med_ids_switch :: "nat \<Rightarrow> nat \<Rightarrow> read_media_list \<Rightarrow> read_media_list option" where
  "med_ids_switch i j l =
     (let xs = rml_media l in
      if i < length xs \<and> j < length xs then Some (l\<lparr>rml_media := xs[i := xs ! j, j := xs ! i]\<rparr>) else None)"

text \<open>The request of the list is zeroed when it is created.\<close>

definition rml_init :: "pho_id list \<Rightarrow> read_media_list" where
  "rml_init med_ids = \<lparr>rml_media = med_ids, rml_size = length med_ids, rml_available = length med_ids, rml_allocated = 0, rml_errors = 0,
     rml_reset_done = False\<rparr>"

definition rml_last_unavailable :: "read_media_list \<Rightarrow> size_t" where
  "rml_last_unavailable l = size_sub (size_sub (rml_size l) 1) (rml_errors l)"

definition rml_last_free :: "read_media_list \<Rightarrow> size_t" where
  "rml_last_free l = size_sub (size_sub (rml_size l) (rml_errors l)) 1"

definition rml_move_medium_to_unavailable :: "size_t \<Rightarrow> read_media_list \<Rightarrow> read_media_list option" where
  "rml_move_medium_to_unavailable index l =
     (if rml_available l = 0 then None
      else
        let l = l\<lparr>rml_available := size_sub (rml_available l) 1\<rparr> in
        if index < rml_available l then med_ids_switch index (rml_available l) l else Some l)"

definition rml_errno2status :: "rc \<Rightarrow> read_medium_allocation_status" where
  "rml_errno2status rc = (if rc = 0 then RMAS_OK else if rc = - EAGAIN then RMAS_UNAVAILABLE else RMAS_ERROR)"

definition rml_medium_update :: "size_t \<Rightarrow> read_medium_allocation_status \<Rightarrow> read_media_list \<Rightarrow> (size_t \<times> read_media_list) option" where
  "rml_medium_update index status l = do {
     l \<leftarrow> (case status of
         RMAS_OK \<Rightarrow> do {
           l \<leftarrow> med_ids_switch index (rml_allocated l) l;
           Some (l\<lparr>rml_allocated := size_add (rml_allocated l) 1\<rparr>)
         }
       | RMAS_ERROR \<Rightarrow> do {
           l \<leftarrow> (if size_sub (rml_size l) (rml_errors l) \<noteq> rml_available l then med_ids_switch index (rml_last_unavailable l) l else Some l);
           let l = l\<lparr>rml_errors := size_add (rml_errors l) 1\<rparr>;
           let l = (if rml_reset_done l then l\<lparr>rml_allocated := size_sub (rml_allocated l) 1\<rparr> else l);
           rml_move_medium_to_unavailable index l
         }
       | RMAS_UNAVAILABLE \<Rightarrow> rml_move_medium_to_unavailable index l);
     Some (rml_available l, l)
   }"

definition rml_medium_realloc_failed :: "size_t \<Rightarrow> size_t \<Rightarrow> read_media_list \<Rightarrow> read_media_list option" where
  "rml_medium_realloc_failed free_index failed_index l =
     (if size_add (size_add (rml_available l) (rml_errors l)) (rml_allocated l) \<noteq> rml_size l then None
      else do {
        l \<leftarrow> med_ids_switch free_index (rml_last_free l) l;
        l \<leftarrow> med_ids_switch failed_index (rml_last_free l) l;
        Some (l\<lparr>rml_errors := size_add (rml_errors l) 1, rml_available := size_sub (rml_available l) 1\<rparr>)
      })"

definition rml_medium_realloc :: "size_t \<Rightarrow> size_t \<Rightarrow> read_media_list \<Rightarrow> read_media_list option" where
  "rml_medium_realloc free_index allocated_index l = med_ids_switch free_index allocated_index l"

definition rml_nb_usable_media :: "read_media_list \<Rightarrow> size_t" where
  "rml_nb_usable_media l = size_sub (rml_size l) (rml_errors l)"

definition rml_reset :: "read_media_list \<Rightarrow> read_media_list" where
  "rml_reset l = l\<lparr>rml_available := size_sub (size_sub (rml_size l) (rml_errors l)) (rml_allocated l), rml_reset_done := True\<rparr>"

definition rml_requeue :: "read_media_list \<Rightarrow> read_media_list" where
  "rml_requeue l = l\<lparr>rml_available := size_sub (rml_size l) (rml_errors l), rml_allocated := 0\<rparr>"

subsection \<open>Sections\<close>

text \<open>The media at the places \<open>a\<close> to \<open>b - 1\<close>.\<close>

definition places :: "pho_id list \<Rightarrow> nat \<Rightarrow> nat \<Rightarrow> pho_id multiset" where
  "places xs a b = mset (take (b - a) (drop a xs))"

definition allocated_media :: "read_media_list \<Rightarrow> pho_id multiset" where
  "allocated_media l = places (rml_media l) 0 (rml_allocated l)"

definition error_media :: "read_media_list \<Rightarrow> pho_id multiset" where
  "error_media l = places (rml_media l) (rml_size l - rml_errors l) (rml_size l)"

text \<open>Before the first reset.\<close>

definition free_media :: "read_media_list \<Rightarrow> pho_id multiset" where
  "free_media l = places (rml_media l) (rml_allocated l) (rml_available l)"

definition unavailable_media :: "read_media_list \<Rightarrow> pho_id multiset" where
  "unavailable_media l = places (rml_media l) (rml_available l) (rml_size l - rml_errors l)"

definition rml_ok :: "read_media_list \<Rightarrow> bool" where
  "rml_ok l \<longleftrightarrow> rml_size l = length (rml_media l) \<and> rml_size l < size_max \<and> rml_errors l \<le> rml_size l \<and>
     rml_allocated l \<le> rml_available l \<and> rml_available l \<le> rml_size l - rml_errors l \<and> \<not> rml_reset_done l"

text \<open>After a reset, when no medium is unavailable.\<close>

definition rml_reset_ok :: "read_media_list \<Rightarrow> bool" where
  "rml_reset_ok l \<longleftrightarrow> rml_size l = length (rml_media l) \<and> rml_size l < size_max \<and>
     rml_available l + rml_errors l + rml_allocated l = rml_size l \<and> rml_reset_done l"

lemma places_nths: "b \<le> length xs \<Longrightarrow> places xs a b = image_mset ((!) xs) (mset_set {a..<b})"
proof -
  assume "b \<le> length xs"
  then have "take (b - a) (drop a xs) = map ((!) xs) [a..<b]" by (auto intro: nth_equalityI)
  then show ?thesis by (simp add: places_def)
qed

lemma places_split: "a \<le> b \<Longrightarrow> b \<le> c \<Longrightarrow> places xs a c = places xs a b + places xs b c"
  using take_add [of "b - a" "c - b" "drop a xs"] by (simp add: places_def flip: mset_append)

lemma places_one: "i < length xs \<Longrightarrow> places xs i (Suc i) = {#xs ! i#}"
  by (simp add: places_nths)

lemma places_empty [simp]: "b \<le> a \<Longrightarrow> places xs a b = {#}"
  by (simp add: places_def)

abbreviation swap_places :: "pho_id list \<Rightarrow> nat \<Rightarrow> nat \<Rightarrow> pho_id list" where
  "swap_places xs i j \<equiv> xs[i := xs ! j, j := xs ! i]"

lemma places_swap_same:
  assumes "b \<le> length xs" "i < length xs" "j < length xs" "i \<in> {a..<b} \<longleftrightarrow> j \<in> {a..<b}"
  shows "places (swap_places xs i j) a b = places xs a b"
proof (cases "i \<in> {a..<b}")
  case False
  then show ?thesis using assms by (simp add: places_nths) (intro image_mset_cong, auto simp: nth_list_update)
next
  case True
  have "length (swap_places xs i j) = length xs" by simp
  show ?thesis
  proof (cases "i = j")
    case True
    then show ?thesis by simp
  next
    case False
    define R where "R = mset_set ({a..<b} - {i, j})"
    have s: "mset_set {a..<b} = add_mset i (add_mset j R)"
    proof -
      have "mset_set (insert i (insert j ({a..<b} - {i, j}))) = add_mset i (add_mset j R)" using False by (simp add: R_def)
      moreover have "insert i (insert j ({a..<b} - {i, j})) = {a..<b}" using True assms(4) by auto
      ultimately show ?thesis by simp
    qed
    have r: "image_mset ((!) (swap_places xs i j)) R = image_mset ((!) xs) R" unfolding R_def by (intro image_mset_cong) (auto simp: nth_list_update)
    have "swap_places xs i j ! i = xs ! j" "swap_places xs i j ! j = xs ! i" using assms(2,3) False by simp_all
    then have "places (swap_places xs i j) a b = add_mset (xs ! j) (add_mset (xs ! i) (image_mset ((!) xs) R))" using assms(1) by (simp add: places_nths s r)
    moreover have "places xs a b = add_mset (xs ! i) (add_mset (xs ! j) (image_mset ((!) xs) R))" using assms(1) by (simp add: places_nths s)
    ultimately show ?thesis by (metis add_mset_commute)
  qed
qed

lemma places_swap_in:
  assumes "b \<le> length xs" "i \<in> {a..<b}" "j < length xs" "j \<notin> {a..<b}"
  shows "add_mset (xs ! i) (places (swap_places xs i j) a b) = add_mset (xs ! j) (places xs a b)"
proof -
  define R where "R = mset_set ({a..<b} - {i})"
  have s: "mset_set {a..<b} = add_mset i R" using assms(2) mset_set.remove [of "{a..<b}" i] by (simp add: R_def)
  have r: "image_mset ((!) (swap_places xs i j)) R = image_mset ((!) xs) R" unfolding R_def using assms(4) by (intro image_mset_cong) (auto simp: nth_list_update)
  have "swap_places xs i j ! i = xs ! j" using assms by (auto simp: nth_list_update)
  then have "places (swap_places xs i j) a b = add_mset (xs ! j) (image_mset ((!) xs) R)" using assms(1) by (simp add: places_nths s r)
  moreover have "places xs a b = add_mset (xs ! i) (image_mset ((!) xs) R)" using assms(1) by (simp add: places_nths s)
  ultimately show ?thesis by (metis add_mset_commute)
qed


lemma swap_self [simp]: "swap_places xs i i = xs"
  by simp

lemma swap_nth: "i < length xs \<Longrightarrow> j < length xs \<Longrightarrow> swap_places xs i j ! j = xs ! i"
  by simp

lemma places_cons: "a < b \<Longrightarrow> a < length xs \<Longrightarrow> places xs a b = add_mset (xs ! a) (places xs (Suc a) b)"
  using places_split [of a "Suc a" b xs] by (simp add: places_one)

lemma places_snoc: "a \<le> b \<Longrightarrow> b < length xs \<Longrightarrow> places xs a (Suc b) = add_mset (xs ! b) (places xs a b)"
  using places_split [of a b "Suc b" xs] by (simp add: places_one)

text \<open>Moving the medium \<open>i\<close> of a section to its first or its last place.\<close>

lemma swap_first:
  assumes "a \<le> i" "i < b" "b \<le> length xs"
  shows "add_mset (xs ! i) (places (swap_places xs i a) (Suc a) b) = places xs a b"
  using assms places_swap_same [of b xs i a a] places_cons [of a b "swap_places xs i a"] by simp

lemma swap_last:
  assumes "a \<le> i" "i \<le> b" "b < length xs"
  shows "add_mset (xs ! i) (places (swap_places xs i b) a b) = places xs a (Suc b)"
  using assms places_swap_same [of "Suc b" xs i b a] places_snoc [of a b "swap_places xs i b"] by simp

lemma rml_update_ok:
  assumes "rml_ok l" "rml_allocated l \<le> i" "i < rml_available l"
  shows "\<exists>l'. rml_medium_update i RMAS_OK l = Some (rml_available l', l') \<and> rml_ok l' \<and>
    add_mset (rml_media l ! i) (free_media l') = free_media l \<and> allocated_media l' = add_mset (rml_media l ! i) (allocated_media l) \<and>
    unavailable_media l' = unavailable_media l \<and> error_media l' = error_media l"
proof -
  let ?xs = "rml_media l" and ?a = "rml_allocated l" and ?v = "rml_available l"
  define l' where "l' = l\<lparr>rml_media := swap_places ?xs i ?a, rml_allocated := Suc ?a\<rparr>"
  have b: "?v \<le> length ?xs" "length ?xs < size_max" "i < length ?xs" "?a < length ?xs" "rml_size l = length ?xs" using assms by (auto simp: rml_ok_def)
  have "rml_medium_update i RMAS_OK l = Some (rml_available l', l')"
    using b assms(2,3) by (simp add: rml_medium_update_def med_ids_switch_def l'_def size_add_def Let_def)
  moreover have "rml_ok l'" using assms by (auto simp: rml_ok_def l'_def)
  moreover have "add_mset (?xs ! i) (free_media l') = free_media l" using swap_first [OF assms(2,3) b(1)] by (simp add: free_media_def l'_def)
  moreover have "places (swap_places ?xs i ?a) 0 ?a = places ?xs 0 ?a" using b assms by (intro places_swap_same) auto
  then have "allocated_media l' = add_mset (?xs ! i) (allocated_media l)"
    using b by (simp add: allocated_media_def l'_def places_snoc)
  moreover have "unavailable_media l' = unavailable_media l" "error_media l' = error_media l"
    using b assms by (auto simp: unavailable_media_def error_media_def l'_def rml_ok_def intro!: places_swap_same)
  ultimately show ?thesis by blast
qed

lemma rml_update_unavailable:
  assumes "rml_ok l" "rml_allocated l \<le> i" "i < rml_available l"
  shows "\<exists>l'. rml_medium_update i RMAS_UNAVAILABLE l = Some (rml_available l', l') \<and> rml_ok l' \<and>
    add_mset (rml_media l ! i) (free_media l') = free_media l \<and> allocated_media l' = allocated_media l \<and>
    unavailable_media l' = add_mset (rml_media l ! i) (unavailable_media l) \<and> error_media l' = error_media l"
proof -
  let ?xs = "rml_media l" and ?a = "rml_allocated l"
  obtain v where v: "rml_available l = Suc v" using assms(3) by (cases "rml_available l") auto
  define l' where "l' = l\<lparr>rml_media := swap_places ?xs i v, rml_available := v\<rparr>"
  have b: "v < length ?xs" "length ?xs < size_max" "rml_size l = length ?xs" "i \<le> v" "v < length ?xs - rml_errors l" using assms v by (auto simp: rml_ok_def)
  have "rml_medium_update i RMAS_UNAVAILABLE l = Some (rml_available l', l')"
    using b v by (auto simp: rml_medium_update_def rml_move_medium_to_unavailable_def med_ids_switch_def l'_def size_sub_def Let_def)
  moreover have "rml_ok l'" using assms v by (auto simp: rml_ok_def l'_def)
  moreover have "add_mset (?xs ! i) (free_media l') = free_media l" using swap_last [OF assms(2) b(4,1)] by (simp add: free_media_def l'_def v)
  moreover have "allocated_media l' = allocated_media l" "error_media l' = error_media l"
    using b assms v by (auto simp: allocated_media_def error_media_def l'_def rml_ok_def intro!: places_swap_same)
  moreover have "places (swap_places ?xs i v) (Suc v) (length ?xs - rml_errors l) = places ?xs (Suc v) (length ?xs - rml_errors l)"
    using b by (intro places_swap_same) auto
  then have "unavailable_media l' = add_mset (?xs ! i) (unavailable_media l)"
    using b v by (simp add: unavailable_media_def l'_def places_cons)
  ultimately show ?thesis by blast
qed


lemma rml_update_error:
  assumes "rml_ok l" "rml_allocated l \<le> i" "i < rml_available l"
  shows "\<exists>l'. rml_medium_update i RMAS_ERROR l = Some (rml_available l', l') \<and> rml_ok l' \<and>
    add_mset (rml_media l ! i) (free_media l') = free_media l \<and> allocated_media l' = allocated_media l \<and>
    unavailable_media l' = unavailable_media l \<and> error_media l' = add_mset (rml_media l ! i) (error_media l)"
proof -
  let ?xs = "rml_media l" and ?a = "rml_allocated l"
  obtain v where v: "rml_available l = Suc v" using assms(3) by (cases "rml_available l") auto
  obtain z where z: "length ?xs - rml_errors l = Suc z" using assms v by (cases "length ?xs - rml_errors l") (auto simp: rml_ok_def)
  define ys where "ys = (if v = z then ?xs else swap_places ?xs i z)"
  define l' where "l' = l\<lparr>rml_media := swap_places ys i v, rml_available := v, rml_errors := Suc (rml_errors l)\<rparr>"
  have b: "v \<le> z" "z < length ?xs" "length ?xs < size_max" "rml_size l = length ?xs" "i \<le> v" "length ys = length ?xs" "\<not> rml_reset_done l"
    "length ?xs - Suc (rml_errors l) = z" "Suc (rml_errors l) \<le> length ?xs" "?a \<le> v"
    using assms v z by (auto simp: rml_ok_def ys_def)
  have sub: "size_sub (length ?xs) (rml_errors l) = Suc z" "size_sub (size_sub (length ?xs) 1) (rml_errors l) = z" "Suc (rml_errors l) mod size_max = Suc (rml_errors l)"
    "size_sub (Suc v) 1 = v"
    using b z by (auto simp: size_sub_def)
  have m: "(if size_sub (rml_size l) (rml_errors l) \<noteq> rml_available l then med_ids_switch i (rml_last_unavailable l) l else Some l) = Some (l\<lparr>rml_media := ys\<rparr>)"
    using b v sub by (auto simp: ys_def med_ids_switch_def Let_def rml_last_unavailable_def)
  have "rml_medium_update i RMAS_ERROR l = Some (rml_available l', l')"
    unfolding rml_medium_update_def read_medium_allocation_status.case m using b v sub
    by (cases "i = v") (simp_all add: rml_move_medium_to_unavailable_def med_ids_switch_def l'_def size_add_def Let_def)
  moreover have "rml_ok l'" using assms v b by (auto simp: rml_ok_def l'_def)
  moreover have same: "places (swap_places ys i v) a' b' = places ?xs a' b'"
    if "b' \<le> ?a \<or> Suc z \<le> a' \<or> Suc v \<le> a' \<and> b' \<le> z" "b' \<le> length ?xs" for a' b'
  proof -
    have "places (swap_places ys i v) a' b' = places ys a' b'" using b that assms(2) by (intro places_swap_same) auto
    also have "\<dots> = places ?xs a' b'" using b that assms(2) by (auto simp: ys_def intro!: places_swap_same)
    finally show ?thesis .
  qed
  have "allocated_media l' = allocated_media l" using same [of ?a 0] b by (simp add: allocated_media_def l'_def)
  moreover have last: "swap_places ys i v ! z = ?xs ! i" using b by (auto simp: ys_def nth_list_update)
  have "error_media l' = add_mset (?xs ! i) (error_media l)"
    using same [of "length ?xs" "Suc z"] b z last by (simp add: error_media_def l'_def places_cons)
  moreover have "unavailable_media l' = unavailable_media l"
  proof (cases "v = z")
    case True
    then show ?thesis using b z v by (simp add: unavailable_media_def l'_def)
  next
    case False
    then have "swap_places ys i v ! v = ?xs ! z" using b by (auto simp: ys_def nth_list_update)
    then show ?thesis using same [of z "Suc v"] b z v False by (simp add: unavailable_media_def l'_def places_cons [of v] places_snoc)
  qed
  moreover have "add_mset (?xs ! i) (free_media l') = free_media l"
  proof (cases "v = z")
    case True
    then show ?thesis using swap_last [of ?a i v ?xs] assms(2) b v by (simp add: free_media_def l'_def ys_def)
  next
    case False
    define F where "F = places (swap_places ys i v) ?a v"
    have 1: "add_mset (ys ! i) F = places ys ?a (Suc v)" using swap_last [of ?a i v ys] assms(2) b by (simp add: F_def)
    have 2: "ys ! i = ?xs ! z" using False b by (auto simp: ys_def nth_list_update)
    have 3: "add_mset (?xs ! i) (places ys ?a (Suc v)) = add_mset (?xs ! z) (places ?xs ?a (Suc v))"
      unfolding ys_def if_not_P [OF False] by (rule places_swap_in) (use b assms(2) False in auto)
    have "add_mset (?xs ! z) (add_mset (?xs ! i) F) = add_mset (?xs ! i) (add_mset (?xs ! z) F)" by (rule add_mset_commute)
    also have "\<dots> = add_mset (?xs ! z) (places ?xs ?a (Suc v))" using 1 2 3 by simp
    finally show ?thesis by (simp add: free_media_def l'_def v F_def)
  qed
  ultimately show ?thesis by blast
qed

text \<open>
  C15. Until the first \<open>rml_reset\<close>, which \<open>rml_ok\<close> states, the list of the media of a request is kept
  as the header says: every update of a free medium returns, moves that medium to the section of its
  status and no other one, and returns the number of the media that are allocated or free. After a
  reset this does not hold, see \<open>rml_unavailable_after_reset\<close>.
\<close>

theorem rml_update_moves:
  assumes "rml_ok l" "rml_allocated l \<le> i" "i < rml_available l"
  shows "\<exists>l'. rml_medium_update i status l = Some (rml_available l', l') \<and> rml_ok l' \<and> add_mset (rml_media l ! i) (free_media l') = free_media l \<and>
    (allocated_media l', unavailable_media l', error_media l') =
      (case status of
         RMAS_OK \<Rightarrow> (add_mset (rml_media l ! i) (allocated_media l), unavailable_media l, error_media l)
       | RMAS_UNAVAILABLE \<Rightarrow> (allocated_media l, add_mset (rml_media l ! i) (unavailable_media l), error_media l)
       | RMAS_ERROR \<Rightarrow> (allocated_media l, unavailable_media l, add_mset (rml_media l ! i) (error_media l)))"
  using rml_update_ok [OF assms] rml_update_unavailable [OF assms] rml_update_error [OF assms] by (cases status) auto

definition sample_tape :: pho_id where
  "sample_tape = \<lparr>family = PHO_RSC_TAPE, name = ''t'', library = ''l''\<rparr>"

theorem rml_update_moves_witness:
  "\<exists>l'. rml_medium_update 0 RMAS_ERROR (rml_init [sample_tape, sample_tape]) = Some (rml_available l', l') \<and> rml_ok l' \<and>
     error_media l' = {#sample_tape#}"
  using rml_update_moves [of "rml_init [sample_tape, sample_tape]" 0 RMAS_ERROR]
  by (auto simp: rml_ok_def rml_init_def size_max_def error_media_def)

subsection \<open>After an error of a device\<close>

lemma rml_reset_sections:
  assumes "rml_ok l"
  shows "rml_reset_ok (rml_reset l)" "places (rml_media (rml_reset l)) (rml_allocated l) (rml_size l - rml_errors l) = free_media l + unavailable_media l"
  using assms places_split [of "rml_allocated l" "rml_available l" "rml_size l - rml_errors l" "rml_media l"]
  by (auto simp: rml_ok_def rml_reset_ok_def rml_reset_def size_sub_def free_media_def unavailable_media_def)

text \<open>
  C16. When a medium failed on its device, the medium that replaces it takes its place among the
  allocated ones, and the failed one is added to those in error.
\<close>

theorem rml_realloc_replaces:
  assumes "rml_reset_ok l" "rml_allocated l \<le> i" "i < rml_size l - rml_errors l" "j < rml_allocated l"
  shows "\<exists>l'. rml_medium_realloc_failed i j l = Some l' \<and> rml_reset_ok l' \<and> rml_allocated l' = rml_allocated l \<and> rml_media l' ! j = rml_media l ! i \<and>
    add_mset (rml_media l ! j) (allocated_media l') = add_mset (rml_media l ! i) (allocated_media l) \<and>
    error_media l' = add_mset (rml_media l ! j) (error_media l)"
proof -
  let ?xs = "rml_media l" and ?a = "rml_allocated l"
  obtain z where z: "length ?xs - rml_errors l = Suc z" using assms by (cases "length ?xs - rml_errors l") (auto simp: rml_reset_ok_def)
  have b: "length ?xs < size_max" "rml_size l = length ?xs" "i \<le> z" "z < length ?xs" "j < length ?xs" "j < z" "rml_errors l < length ?xs" "?a \<le> z"
    "rml_available l + rml_errors l + ?a = length ?xs" "length ?xs - Suc (rml_errors l) = z" "rml_available l + rml_errors l + ?a < size_max" "0 < rml_available l"
    using assms z by (auto simp: rml_reset_ok_def)
  define ys where "ys = swap_places ?xs i z"
  define l' where "l' = l\<lparr>rml_media := swap_places ys j z, rml_errors := Suc (rml_errors l), rml_available := rml_available l - 1\<rparr>"
  have ys: "length ys = length ?xs" "ys ! z = ?xs ! i" "ys ! j = ?xs ! j" using b assms(2,4) by (auto simp: ys_def nth_list_update)
  have s: "size_sub (size_sub (length ?xs) (rml_errors l)) 1 = z" "size_add (size_add (rml_available l) (rml_errors l)) ?a = length ?xs"
    "Suc (rml_errors l) mod size_max = Suc (rml_errors l)" "size_sub (rml_available l) 1 = rml_available l - 1"
    using b z by (auto simp: size_sub_def size_add_def)
  have "rml_medium_realloc_failed i j l = Some l'"
    using b s by (simp add: rml_medium_realloc_failed_def rml_last_free_def med_ids_switch_def l'_def ys_def Let_def size_add_def)
  moreover have "rml_reset_ok l'" using assms(1) b by (auto simp: rml_reset_ok_def l'_def ys_def)
  moreover have "rml_allocated l' = ?a" by (simp add: l'_def)
  moreover have "rml_media l' ! j = ?xs ! i" using b ys by (simp add: l'_def nth_list_update)
  moreover have "places ys 0 ?a = places ?xs 0 ?a" using b assms(2) unfolding ys_def by (intro places_swap_same) auto
  then have "add_mset (?xs ! j) (allocated_media l') = add_mset (?xs ! i) (allocated_media l)"
    using places_swap_in [of ?a ys j 0 z] ys b assms(4) by (simp add: allocated_media_def l'_def)
  moreover have "places (swap_places ys j z) (Suc z) (length ?xs) = places ?xs (Suc z) (length ?xs)"
    using places_swap_same [of "length ?xs" ys j z "Suc z"] places_swap_same [of "length ?xs" ?xs i z "Suc z"] b ys(1) by (simp add: ys_def)
  then have "error_media l' = add_mset (?xs ! j) (error_media l)"
    using b z ys by (simp add: error_media_def l'_def places_cons)
  ultimately show ?thesis by blast
qed

theorem rml_realloc_replaces_witness:
  "\<exists>l'. rml_medium_realloc_failed 1 0 (rml_reset ((rml_init [sample_tape, sample_tape])\<lparr>rml_allocated := 1\<rparr>)) = Some l' \<and>
     error_media l' = {#sample_tape#}"
  using rml_realloc_replaces [of "rml_reset ((rml_init [sample_tape, sample_tape])\<lparr>rml_allocated := 1\<rparr>)" 1 0]
  by (auto simp: rml_reset_ok_def rml_init_def rml_reset_def size_max_def size_sub_def error_media_def)

text \<open>
  After a reset \<open>rml_available\<close> counts the free media only, but an update still uses it as the place
  where the free section ends. A free medium that becomes unavailable then stays where it is, in the
  free section, and the last medium of that section leaves it.
\<close>

lemma rml_unavailable_after_reset:
  assumes "rml_reset_ok l" "rml_allocated l \<le> i" "Suc i < rml_allocated l + rml_available l" "rml_available l \<le> Suc i"
  shows "\<exists>l'. rml_medium_update i RMAS_UNAVAILABLE l = Some (rml_available l - 1, l') \<and> rml_media l' = rml_media l \<and>
    rml_available l' = rml_available l - 1 \<and> rml_allocated l' = rml_allocated l \<and> i < rml_allocated l' + rml_available l'"
proof -
  have "0 < rml_available l" "rml_available l < size_max" using assms by (auto simp: rml_reset_ok_def)
  then show ?thesis
    using assms(2-4) by (auto simp: rml_medium_update_def rml_move_medium_to_unavailable_def size_sub_def Let_def)
qed

text \<open>
  C37. A read request that needs all its media, after the reset of its list: when the device of one of
  them failed but not the medium, and no device is free for the retry, the update of the list fails
  its assertion.
\<close>

theorem rml_retry_without_spare_aborts:
  assumes "rml_ok l" "rml_allocated l = rml_size l - rml_errors l"
  shows "rml_medium_update i (rml_errno2status (- EAGAIN)) (rml_reset l) = None"
  using assms by (auto simp: rml_ok_def rml_medium_update_def rml_errno2status_def rml_move_medium_to_unavailable_def rml_reset_def size_sub_def)

theorem rml_retry_without_spare_aborts_witness:
  "\<exists>l. rml_medium_update 0 RMAS_OK (rml_init [sample_tape]) = Some (1, l) \<and> rml_medium_update 0 (rml_errno2status (- EAGAIN)) (rml_reset l) = None"
proof -
  let ?l = "(rml_init [sample_tape])\<lparr>rml_allocated := 1\<rparr>"
  have "rml_medium_update 0 RMAS_OK (rml_init [sample_tape]) = Some (1, ?l)"
    by (simp add: rml_medium_update_def med_ids_switch_def rml_init_def size_add_def size_max_def)
  moreover have "rml_medium_update 0 (rml_errno2status (- EAGAIN)) (rml_reset ?l) = None"
    by (rule rml_retry_without_spare_aborts) (simp_all add: rml_ok_def rml_init_def size_max_def)
  ultimately show ?thesis by blast
qed

text \<open>A read allocation marks a medium allocated before it knows whether the device takes it. When the device is refused, the medium
  becomes unavailable but stays counted as allocated, and the next allocation is stored one place too far.\<close>

lemma rml_refused_medium_stays_counted:
  "map_option (\<lambda>l. (rml_allocated l, rml_media l)) (do {
     (_, l) \<leftarrow> rml_medium_update 0 RMAS_OK (rml_init [x, y, z]);
     (_, l) \<leftarrow> rml_medium_update 0 RMAS_UNAVAILABLE l;
     (_, l) \<leftarrow> rml_medium_update 0 RMAS_OK l;
     Some l
   }) = Some (2, [y, z, x])"
  by (simp add: rml_medium_update_def med_ids_switch_def rml_init_def rml_move_medium_to_unavailable_def size_add_def size_sub_def size_max_def)


end
