(* ===== verification/Lrs_Dev.thy ===== *)
theory Lrs_Dev
  imports Pho_Common Pho_Type_Utils Lrs_Media_List "HOL-Library.AList"
begin

text \<open>
  The devices and the requests of the LRS (\<^verbatim>\<open>src/lrs/lrs_device.h\<close>, \<^verbatim>\<open>src/lrs/lrs_sched.h\<close>), as its
  scheduler sees them. Devices, requests and media are referred to by their addresses; a hash table is an
  association list with distinct keys. The counts of the references to a medium are the subject of
  \<open>Pho_Cache\<close>. The limits of the configuration are parameters.
\<close>

subsection \<open>Requests\<close>

datatype io_request_type = IO_REQ_READ | IO_REQ_WRITE | IO_REQ_FORMAT

record walloc_elt =
  wm_size :: size_t
  wm_tags :: string_array
  wm_empty_medium :: bool

record walloc_req =
  wq_family :: rsc_family
  wq_library :: "string option"
  wq_grouping :: "string option"
  wq_media :: "walloc_elt list"
  wq_avoid_med :: "pho_id list"
  wq_no_split :: bool
  wq_prevent_duplicate :: bool

datatype read_target_op = PHO_READ_TARGET_ALLOC_OP_READ | PHO_READ_TARGET_ALLOC_OP_DELETE

record ralloc_req =
  rq_n_required :: size_t
  rq_operation :: read_target_op

record format_req =
  fq_med_id :: pho_id
  fq_force :: bool

datatype lrs_req = WriteAlloc walloc_req | ReadAlloc ralloc_req | Format format_req | OtherReq

datatype sub_request_status = SUB_REQUEST_TODO | SUB_REQUEST_DONE | SUB_REQUEST_ERROR | SUB_REQUEST_CANCEL

record rwalloc_medium =
  alloc_medium :: "nat option"
  rwm_status :: sub_request_status

record req_container =
  rqc_socket_id :: int
  rqc_req :: lrs_req
  rqc_received_at :: timespec
  rqc_media :: "rwalloc_medium list"
  rqc_media_list :: read_media_list
  rqc_devices :: "nat option list"
  rqc_medium_to_format :: "nat option"

definition pho_request_is_read :: "req_container \<Rightarrow> bool" where
  "pho_request_is_read r \<longleftrightarrow> (case rqc_req r of ReadAlloc _ \<Rightarrow> True | _ \<Rightarrow> False)"

definition pho_request_is_write :: "req_container \<Rightarrow> bool" where
  "pho_request_is_write r \<longleftrightarrow> (case rqc_req r of WriteAlloc _ \<Rightarrow> True | _ \<Rightarrow> False)"

definition pho_request_is_format :: "req_container \<Rightarrow> bool" where
  "pho_request_is_format r \<longleftrightarrow> (case rqc_req r of Format _ \<Rightarrow> True | _ \<Rightarrow> False)"

definition is_rwalloc_ended :: "req_container \<Rightarrow> bool" where
  "is_rwalloc_ended r \<longleftrightarrow> list_all (\<lambda>m. rwm_status m \<noteq> SUB_REQUEST_TODO) (rqc_media r)"

subsection \<open>Devices\<close>

datatype thread_state = THREAD_RUNNING | THREAD_STOPPING | THREAD_STOPPED

record sub_request =
  sub_reqc :: nat
  sub_medium_index :: size_t
  sub_failure_on_medium :: bool

record lrs_dev =
  ld_dss_dev_info :: dev_info
  ld_op_status :: dev_op_status
  ld_dss_media_info :: "nat option"
  ld_sub_request :: "sub_request option"
  ld_ongoing_scheduled :: bool
  ld_ongoing_io :: "(int \<times> string option) list"
  ld_ongoing_partial_io_waiting_sync :: "(int \<times> string option) list"
  ld_needs_sync :: bool
  ld_sync_blocking :: bool
  ld_device_thread :: thread_state
  ld_tosync_len :: nat
  ld_io_request_type :: "io_request_type set"
  ld_technology :: "string option"

text \<open>The values of the configuration that the scheduler reads; 0 parallel I/Os means no limit.\<close>

record lrs_conf =
  cf_nb_max_parallel_io :: "rsc_family \<Rightarrow> nat"
  cf_fifo_max_write_per_grouping :: int
  cf_grouping_on_dir :: bool
  cf_locate_lock_expirancy :: int
  cf_policy :: "string option"

definition move_ongoing_io :: "int \<Rightarrow> (int \<times> string option) list \<times> (int \<times> string option) list \<Rightarrow> (int \<times> string option) list \<times> (int \<times> string option) list" where
  "move_ongoing_io socket_id tables =
     (case tables of (from_table, into_table) \<Rightarrow>
        case map_of from_table socket_id of
          None \<Rightarrow> (from_table, into_table)
        | Some grouping \<Rightarrow> (AList.delete socket_id from_table, AList.update socket_id grouping into_table))"

definition dev_clean_io :: "int \<Rightarrow> lrs_dev \<Rightarrow> lrs_dev" where
  "dev_clean_io socket_id dev =
     (if map_of (ld_ongoing_io dev) socket_id \<noteq> None then dev\<lparr>ld_ongoing_io := AList.delete socket_id (ld_ongoing_io dev)\<rparr>
      else dev\<lparr>ld_ongoing_partial_io_waiting_sync := AList.delete socket_id (ld_ongoing_partial_io_waiting_sync dev)\<rparr>)"

definition dev_is_failed :: "lrs_dev \<Rightarrow> bool" where
  "dev_is_failed dev \<longleftrightarrow> ld_op_status dev = PHO_DEV_OP_ST_FAILED"

definition dev_is_loaded :: "lrs_dev \<Rightarrow> bool" where
  "dev_is_loaded dev \<longleftrightarrow> ld_op_status dev = PHO_DEV_OP_ST_LOADED"

definition dev_is_mounted :: "lrs_dev \<Rightarrow> bool" where
  "dev_is_mounted dev \<longleftrightarrow> ld_op_status dev = PHO_DEV_OP_ST_MOUNTED"

definition dev_is_empty :: "lrs_dev \<Rightarrow> bool" where
  "dev_is_empty dev \<longleftrightarrow> ld_op_status dev = PHO_DEV_OP_ST_EMPTY"

definition thread_is_running :: "lrs_dev \<Rightarrow> bool" where
  "thread_is_running dev \<longleftrightarrow> ld_device_thread dev = THREAD_RUNNING"

definition dev_has_ongoing_io :: "lrs_dev \<Rightarrow> bool" where
  "dev_has_ongoing_io dev \<longleftrightarrow> ld_ongoing_io dev \<noteq> [] \<or> ld_ongoing_partial_io_waiting_sync dev \<noteq> []"

definition dev_family :: "lrs_dev \<Rightarrow> rsc_family" where
  "dev_family dev = family (rsc_id (dev_rsc (ld_dss_dev_info dev)))"

definition dev_is_full_ongoing_io :: "lrs_conf \<Rightarrow> lrs_dev \<Rightarrow> bool" where
  "dev_is_full_ongoing_io cf dev =
     (let nb_max = cf_nb_max_parallel_io cf (dev_family dev) in
      if nb_max = 0 then False
      else length (ld_ongoing_io dev) + length (ld_ongoing_partial_io_waiting_sync dev) \<ge> nb_max)"

definition dev_is_parallel_sync :: "lrs_conf \<Rightarrow> lrs_dev \<Rightarrow> bool" where
  "dev_is_parallel_sync cf dev \<longleftrightarrow> cf_nb_max_parallel_io cf (dev_family dev) \<noteq> 1"

definition dev_is_sched_ready :: "lrs_conf \<Rightarrow> lrs_dev \<Rightarrow> bool" where
  "dev_is_sched_ready cf dev \<longleftrightarrow>
     thread_is_running dev \<and> (\<not> ld_needs_sync dev \<or> (dev_is_parallel_sync cf dev \<and> \<not> ld_sync_blocking dev)) \<and>
     ld_sub_request dev = None \<and> \<not> ld_ongoing_scheduled dev \<and> \<not> dev_is_failed dev \<and>
     rsc_adm_status (dev_rsc (ld_dss_dev_info dev)) = PHO_RSC_ADM_ST_UNLOCKED \<and> \<not> dev_is_full_ongoing_io cf dev"

definition dev_is_online :: "lrs_dev \<Rightarrow> bool" where
  "dev_is_online dev \<longleftrightarrow> thread_is_running dev \<and> rsc_adm_status (dev_rsc (ld_dss_dev_info dev)) = PHO_RSC_ADM_ST_UNLOCKED"

text \<open>The count of the owners is compared with 0, not with 1.\<close>

definition is_device_shared_between_schedulers :: "lrs_dev \<Rightarrow> bool" where
  "is_device_shared_between_schedulers dev \<longleftrightarrow> card (ld_io_request_type dev) \<noteq> 0"

definition sched_has_running_devices :: "lrs_dev list \<Rightarrow> bool" where
  "sched_has_running_devices devs \<longleftrightarrow>
     list_ex (\<lambda>dev. dev_has_ongoing_io dev \<or> ld_needs_sync dev \<or> ld_sub_request dev \<noteq> None \<or> ld_tosync_len dev \<noteq> 0 \<or> ld_ongoing_scheduled dev) devs"

end
