(* ===== verification/Lrs_Priority.thy ===== *)
theory Lrs_Priority
  imports Lrs_Dev
begin

text \<open>
  The choice of the next request among the three I/O schedulers
  (\<^verbatim>\<open>src/lrs/io_schedulers/scheduler_priority_algorithms.c\<close>). A request is its address, \<open>None\<close> when a
  scheduler has none; \<open>at\<close> gives its time of reception.
\<close>

subsection \<open>The oldest request\<close>

definition oldest_request :: "(nat \<Rightarrow> timespec) \<Rightarrow> nat option \<Rightarrow> nat option \<Rightarrow> nat option" where
  "oldest_request at a b =
     (case (a, b) of
        (None, None) \<Rightarrow> None
      | (Some x, None) \<Rightarrow> a
      | (None, Some y) \<Rightarrow> b
      | (Some x, Some y) \<Rightarrow> if cmp_timespec (at x) (at y) = -1 then a else b)"

definition fifo_next_request :: "(nat \<Rightarrow> timespec) \<Rightarrow> nat option \<Rightarrow> nat option \<Rightarrow> nat option \<Rightarrow> nat option" where
  "fifo_next_request at rd wr fmt =
     (if oldest_request at rd wr = rd then
        if rd \<noteq> None \<and> oldest_request at rd fmt = rd then rd else fmt
      else
        if wr \<noteq> None \<and> oldest_request at wr fmt = wr then wr else fmt)"

text \<open>The first request is there and was received no later than the second, or both are missing.\<close>

fun no_younger :: "(nat \<Rightarrow> timespec) \<Rightarrow> nat option \<Rightarrow> nat option \<Rightarrow> bool" where
  "no_younger at (Some x) (Some y) \<longleftrightarrow> timespec_ns (at x) \<le> timespec_ns (at y)"
| "no_younger at a b \<longleftrightarrow> b = None"

lemma no_younger_trans: "no_younger at a b \<Longrightarrow> no_younger at b c \<Longrightarrow> no_younger at a c"
  by (cases a; cases b; cases c) auto

lemma oldest_request_no_younger:
  assumes "\<And>x. Some x \<in> {a, b} \<Longrightarrow> timespec_wf (at x)"
  shows "oldest_request at a b = a \<Longrightarrow> no_younger at a b" "oldest_request at a b \<noteq> a \<Longrightarrow> no_younger at b a"
proof -
  have "oldest_request at a b = a \<and> no_younger at a b \<or> oldest_request at a b = b \<and> no_younger at b a"
  proof (cases "a = None \<or> b = None")
    case False
    then obtain x y where xy: "a = Some x" "b = Some y" by auto
    have "timespec_wf (at x)" "timespec_wf (at y)" using assms xy by auto
    then show ?thesis using timespec_ns_less [of "at x" "at y"] timespec_ns_less [of "at y" "at x"]
      by (auto simp: xy oldest_request_def cmp_timespec_def)
  qed (auto simp: oldest_request_def split: option.split)
  then show "oldest_request at a b = a \<Longrightarrow> no_younger at a b" "oldest_request at a b \<noteq> a \<Longrightarrow> no_younger at b a" by auto
qed

text \<open>
  C34. The next request of the schedulers without dispatch is one of the oldest of the three, and there
  is none only when no scheduler has a request.
\<close>

theorem fifo_next_request_oldest:
  assumes "\<And>x. Some x \<in> {rd, wr, fmt} \<Longrightarrow> timespec_wf (at x)"
  shows "fifo_next_request at rd wr fmt \<in> {rd, wr, fmt} \<and> (\<forall>r \<in> {rd, wr, fmt}. no_younger at (fifo_next_request at rd wr fmt) r)"
proof -
  have o: "oldest_request at a b = a \<Longrightarrow> no_younger at a b" "oldest_request at a b \<noteq> a \<Longrightarrow> no_younger at b a" if "a \<in> {rd, wr, fmt}" "b \<in> {rd, wr, fmt}" for a b
    using oldest_request_no_younger [of a b at] assms that by auto
  have refl: "no_younger at a a" for a by (cases a) auto
  show ?thesis
  proof (cases "oldest_request at rd wr = rd")
    case True
    have 1: "no_younger at rd wr" using o(1) True by blast
    then have "no_younger at rd fmt \<and> fifo_next_request at rd wr fmt = rd \<or>
        no_younger at fmt rd \<and> no_younger at fmt wr \<and> fifo_next_request at rd wr fmt = fmt"
      using True o [of rd fmt] no_younger_trans [OF _ 1, of fmt] by (cases rd; cases fmt; cases wr) (auto simp: fifo_next_request_def)
    then show ?thesis using 1 refl by auto
  next
    case False
    have 1: "no_younger at wr rd" using o(2) False by blast
    then have "no_younger at wr fmt \<and> fifo_next_request at rd wr fmt = wr \<or>
        no_younger at fmt wr \<and> no_younger at fmt rd \<and> fifo_next_request at rd wr fmt = fmt"
      using False o [of wr fmt] no_younger_trans [OF _ 1, of fmt] by (cases rd; cases fmt; cases wr) (auto simp: fifo_next_request_def)
    then show ?thesis using 1 refl by auto
  qed
qed

theorem fifo_next_request_oldest_witness:
  "fifo_next_request (\<lambda>x. \<lparr>tv_sec = int x, tv_nsec = 0\<rparr>) (Some 3) None (Some 1) = Some 1"
  using fifo_next_request_oldest [of "Some 3" None "Some 1" "\<lambda>x. \<lparr>tv_sec = int x, tv_nsec = 0\<rparr>"]
  by (auto simp: timespec_wf_def timespec_ns_def)

subsection \<open>Round robin\<close>

fun next_scheduler :: "io_request_type \<Rightarrow> io_request_type" where
  "next_scheduler IO_REQ_READ = IO_REQ_WRITE"
| "next_scheduler IO_REQ_WRITE = IO_REQ_FORMAT"
| "next_scheduler IO_REQ_FORMAT = IO_REQ_READ"

text \<open>The turn of the schedulers is kept between the calls.\<close>

definition round_robin :: "nat option \<Rightarrow> nat option \<Rightarrow> nat option \<Rightarrow> io_request_type \<Rightarrow> nat option \<times> io_request_type" where
  "round_robin rd wr fmt current =
     (if rd = None \<and> wr = None \<and> fmt = None then (None, current)
      else if current = IO_REQ_READ \<and> rd \<noteq> None then (rd, next_scheduler current)
      else
        let current = (if current = IO_REQ_READ then next_scheduler current else current) in
        if current = IO_REQ_WRITE \<and> wr \<noteq> None then (wr, next_scheduler current)
        else
          let current = (if current = IO_REQ_WRITE then next_scheduler current else current) in
          if current = IO_REQ_FORMAT \<and> fmt \<noteq> None then (fmt, next_scheduler current)
          else (None, if current = IO_REQ_FORMAT then next_scheduler current else current))"

fun rr_calls :: "(nat option \<times> nat option \<times> nat option) list \<Rightarrow> io_request_type \<Rightarrow> nat option list" where
  "rr_calls [] current = []"
| "rr_calls ((rd, wr, fmt) # inputs) current =
     (let (r, current) = round_robin rd wr fmt current in r # rr_calls inputs current)"

fun proposed :: "io_request_type \<Rightarrow> nat option \<times> nat option \<times> nat option \<Rightarrow> nat option" where
  "proposed IO_REQ_READ (rd, wr, fmt) = rd"
| "proposed IO_REQ_WRITE (rd, wr, fmt) = wr"
| "proposed IO_REQ_FORMAT (rd, wr, fmt) = fmt"

text \<open>
  C17. The round robin starves no scheduler: among any three consecutive calls in which a scheduler
  proposes a request, one chooses the request of that scheduler, whatever the others propose.
\<close>

theorem round_robin_fair:
  assumes "proposed k p0 \<noteq> None" "proposed k p1 \<noteq> None" "proposed k p2 \<noteq> None"
  shows "list_ex (\<lambda>(p, r). r = proposed k p) (zip [p0, p1, p2] (rr_calls [p0, p1, p2] current))"
  using assms
  by (cases p0; cases p1; cases p2; cases k; cases current) (auto simp: round_robin_def Let_def)

theorem round_robin_fair_witness:
  "rr_calls [(Some 1, Some 2, None), (Some 1, Some 3, None), (Some 1, None, None)] IO_REQ_WRITE = [Some 2, None, Some 1]"
  using round_robin_fair [of IO_REQ_READ "(Some 1, Some 2, None)" "(Some 1, Some 3, None)" "(Some 1, None, None)" IO_REQ_WRITE]
  by (auto simp: round_robin_def)

text \<open>A call may choose no request although a scheduler proposes one.\<close>

lemma round_robin_skips: "round_robin (Some x) None None IO_REQ_WRITE = (None, IO_REQ_READ)"
  by (simp add: round_robin_def)

end
