(* ===== verification/C_Double.thy ===== *)
theory C_Double
  imports Complex_Main
begin

text \<open>
  The \<^verbatim>\<open>double\<close> arithmetic of C on values that are neither infinite nor subnormal: an operation
  returns the exact result rounded to a significand of 53 bits, to the nearest and ties to the even one.
\<close>

subsection \<open>Rounding\<close>

text \<open>The largest \<open>k\<close> with \<open>2 ^ k \<le> x\<close>.\<close>

function log2_ge1 :: "rat \<Rightarrow> nat" where
  "log2_ge1 x = (if x < 2 then 0 else Suc (log2_ge1 (x / 2)))"
  by auto
termination
proof (relation "measure (\<lambda>x. nat \<lfloor>x\<rfloor>)")
  fix x :: rat
  assume "\<not> x < 2"
  then have "\<lfloor>x / 2\<rfloor> < \<lfloor>x\<rfloor>" "0 < \<lfloor>x\<rfloor>" by linarith+
  then show "(x / 2, x) \<in> measure (\<lambda>x. nat \<lfloor>x\<rfloor>)" by simp
qed simp

declare log2_ge1.simps [simp del]

definition exp2 :: "int \<Rightarrow> rat" where
  "exp2 e = (if e \<ge> 0 then 2 ^ nat e else 1 / 2 ^ nat (- e))"

text \<open>The exponent of a positive value.\<close>

definition exponent :: "rat \<Rightarrow> int" where
  "exponent x =
     (if x \<ge> 1 then int (log2_ge1 x)
      else let k = log2_ge1 (1 / x) in if 2 ^ k = 1 / x then - int k else - int k - 1)"

definition round_even :: "rat \<Rightarrow> int" where
  "round_even y =
     (let f = \<lfloor>y\<rfloor>; r = y - of_int f in
      if r < 1 / 2 then f else if r > 1 / 2 then f + 1 else if even f then f else f + 1)"

definition dbl :: "rat \<Rightarrow> rat" where
  "dbl x =
     (if x = 0 then 0
      else
        let ulp = exp2 (exponent \<bar>x\<bar> - 52); m = of_int (round_even (\<bar>x\<bar> / ulp)) * ulp
        in if x < 0 then - m else m)"

subsection \<open>Laws\<close>

lemma exp2_pos [simp]: "0 < exp2 e"
  by (simp add: exp2_def)

lemma exp2_add1: "exp2 (e + 1) = 2 * exp2 e"
proof (cases "e \<ge> 0")
  case True
  then show ?thesis by (simp add: exp2_def nat_add_distrib)
next
  case False
  then obtain n where "e = - int (Suc n)" by (metis linorder_not_le negD)
  then show ?thesis by (cases n) (auto simp: exp2_def nat_add_distrib)
qed

lemma exp2_power: "exp2 (e + int n) = 2 ^ n * exp2 e"
proof (induction n)
  case (Suc n)
  have "exp2 (e + int (Suc n)) = exp2 (e + int n + 1)" by (simp add: algebra_simps)
  also have "\<dots> = 2 * exp2 (e + int n)" by (rule exp2_add1)
  finally show ?case using Suc by simp
qed simp

lemma exp2_mono: "e \<le> f \<Longrightarrow> exp2 e \<le> exp2 f"
  using exp2_power [of e "nat (f - e)"] by simp

lemma log2_ge1_bounds: "1 \<le> x \<Longrightarrow> 2 ^ log2_ge1 x \<le> x \<and> x < 2 ^ Suc (log2_ge1 x)"
proof (induction x rule: log2_ge1.induct)
  case (1 x)
  show ?case
  proof (cases "x < 2")
    case True
    then show ?thesis using 1(2) by (simp add: log2_ge1.simps [of x])
  next
    case False
    then have "2 ^ log2_ge1 (x / 2) \<le> x / 2 \<and> x / 2 < 2 ^ Suc (log2_ge1 (x / 2))" using 1(1) by simp
    then show ?thesis using False by (simp add: log2_ge1.simps [of x])
  qed
qed

lemma exponent_bounds:
  assumes "0 < x"
  shows "exp2 (exponent x) \<le> x \<and> x < exp2 (exponent x + 1)"
proof (cases "1 \<le> x")
  case True
  have "exp2 (int k + 1) = 2 ^ Suc k" for k using exp2_power [of 0 "Suc k"] by (simp add: exp2_def add.commute)
  then show ?thesis using True log2_ge1_bounds [OF True] exp2_power [of 0 "log2_ge1 x"] by (simp add: exponent_def exp2_def)
next
  case False
  define k where "k = log2_ge1 (1 / x)"
  have k: "2 ^ k \<le> 1 / x" "1 / x < 2 ^ Suc k" using log2_ge1_bounds [of "1 / x"] False assms by (auto simp: k_def)
  have p: "exp2 (- int n) = 1 / 2 ^ n" for n by (cases n) (auto simp: exp2_def nat_add_distrib)
  have "- int k - 1 = - int (Suc k)" by simp
  then have s: "exp2 (- int k - 1) = 1 / 2 ^ Suc k" by (simp only: p)
  have x: "x \<le> 1 / 2 ^ k" "1 / 2 ^ Suc k < x" using k assms by (simp_all add: field_simps)
  show ?thesis
  proof (cases "2 ^ k = 1 / x")
    case True
    then have "x = 1 / 2 ^ k" using assms by (simp add: field_simps)
    then show ?thesis using False True assms p [of k] exp2_add1 [of "- int k"] by (simp add: exponent_def k_def [symmetric] Let_def)
  next
    case ne: False
    then have "x < 1 / 2 ^ k" using x(1) assms by (auto simp: field_simps)
    then show ?thesis using ne False x(2) s p [of k] by (simp add: exponent_def k_def [symmetric] Let_def)
  qed
qed

lemma round_even_bounds: "of_int (round_even y) \<le> y + 1 / 2" "y - 1 / 2 \<le> of_int (round_even y)"
  by (auto simp: round_even_def Let_def) linarith+

lemma round_even_of_int [simp]: "round_even (of_int n) = n"
  by (simp add: round_even_def)

lemma round_even_floor: "\<lfloor>y\<rfloor> \<le> round_even y" "round_even y \<le> \<lfloor>y\<rfloor> + 1"
  by (auto simp: round_even_def Let_def)

lemma round_even_mono: "x \<le> y \<Longrightarrow> round_even x \<le> round_even y"
proof (cases "\<lfloor>x\<rfloor> = \<lfloor>y\<rfloor>")
  case True
  assume "x \<le> y"
  then show ?thesis using True by (auto simp: round_even_def Let_def)
next
  case False
  assume "x \<le> y"
  then have "\<lfloor>x\<rfloor> + 1 \<le> \<lfloor>y\<rfloor>" using False floor_mono [of x y] by simp
  then show ?thesis using round_even_floor(2) [of x] round_even_floor(1) [of y] by linarith
qed

text \<open>The rounding of a positive value stays between the powers of two around it.\<close>

lemma dbl_between:
  assumes "0 < x"
  shows "exp2 (exponent x) \<le> dbl x \<and> dbl x \<le> exp2 (exponent x + 1)"
proof -
  define e ulp where "e = exponent x" and "ulp = exp2 (exponent x - 52)"
  have u: "0 < ulp" "exp2 e = 2 ^ 52 * ulp" "exp2 (e + 1) = 2 ^ 53 * ulp"
    using exp2_power [of "e - 52" 52] exp2_power [of "e - 52" 53] by (simp_all add: ulp_def e_def add.commute)
  have "of_int (2 ^ 52) \<le> x / ulp" "x / ulp \<le> of_int (2 ^ 53)" using exponent_bounds [OF assms] u by (simp_all add: e_def field_simps)
  then have "round_even (of_int (2 ^ 52)) \<le> round_even (x / ulp)" "round_even (x / ulp) \<le> round_even (of_int (2 ^ 53))" by (blast intro: round_even_mono)+
  then have r: "2 ^ 52 \<le> round_even (x / ulp)" "round_even (x / ulp) \<le> 2 ^ 53" by (simp_all only: round_even_of_int)
  then have "of_int (2 ^ 52) * ulp \<le> of_int (round_even (x / ulp)) * ulp" "of_int (round_even (x / ulp)) * ulp \<le> of_int (2 ^ 53) * ulp"
    using u(1) by (simp_all only: mult_le_cancel_right_pos of_int_le_iff)
  then show ?thesis using u assms by (simp add: dbl_def Let_def ulp_def e_def)
qed

lemma exponent_mono: "0 < x \<Longrightarrow> x \<le> y \<Longrightarrow> exponent x \<le> exponent y"
proof (rule ccontr)
  assume "0 < x" "x \<le> y" "\<not> exponent x \<le> exponent y"
  then have "exp2 (exponent y + 1) \<le> exp2 (exponent x)" by (intro exp2_mono) simp
  then show False using exponent_bounds [of x] exponent_bounds [of y] \<open>0 < x\<close> \<open>x \<le> y\<close> by linarith
qed

lemma dbl_mono_pos:
  assumes "0 < x" "x \<le> y"
  shows "dbl x \<le> dbl y"
proof (cases "exponent x = exponent y")
  case True
  have u: "0 < exp2 (exponent y - 52)" by simp
  have "x / exp2 (exponent y - 52) \<le> y / exp2 (exponent y - 52)" by (intro divide_right_mono) (use assms less_imp_le [OF u] in auto)
  then have "round_even (x / exp2 (exponent y - 52)) \<le> round_even (y / exp2 (exponent y - 52))" by (rule round_even_mono)
  then show ?thesis using assms u True by (simp add: dbl_def Let_def)
next
  case False
  then have "exp2 (exponent x + 1) \<le> exp2 (exponent y)" using exponent_mono [OF assms] by (intro exp2_mono) simp
  then show ?thesis using dbl_between [OF assms(1)] dbl_between [of y] assms by linarith
qed

lemma dbl_minus: "dbl (- x) = - dbl x"
  by (simp add: dbl_def Let_def)

lemma dbl_pos: "0 < x \<Longrightarrow> 0 < dbl x"
  using dbl_between [of x] exp2_pos [of "exponent x"] by linarith

lemma dbl_neg: "x < 0 \<Longrightarrow> dbl x < 0"
  using dbl_pos [of "- x"] by (simp add: dbl_minus)

lemma dbl_0 [simp]: "dbl 0 = 0"
  by (simp add: dbl_def)

lemma dbl_mono: "x \<le> y \<Longrightarrow> dbl x \<le> dbl y"
proof -
  assume xy: "x \<le> y"
  consider "0 < x" | "x = 0" | "x < 0" "0 \<le> y" | "y < 0" using xy by linarith
  then show ?thesis
  proof cases
    case 1
    then show ?thesis using xy by (rule dbl_mono_pos)
  next
    case 2
    then show ?thesis using xy dbl_pos [of y] by (cases "y = 0") auto
  next
    case 3
    then show ?thesis using dbl_neg [of x] dbl_pos [of y] by (cases "y = 0") auto
  next
    case 4
    then show ?thesis using xy dbl_mono_pos [of "- y" "- x"] by (simp add: dbl_minus)
  qed
qed

lemma dbl_power2: "dbl (exp2 e) = exp2 e"
proof -
  have "exponent (exp2 e) = e"
  proof (rule antisym)
    show "exponent (exp2 e) \<le> e"
    proof (rule ccontr)
      assume "\<not> ?thesis"
      then have "exp2 (e + 1) \<le> exp2 (exponent (exp2 e))" by (intro exp2_mono) simp
      then show False using exponent_bounds [of "exp2 e"] exp2_add1 [of e] exp2_pos [of e] by (simp del: exp2_pos)
    qed
    show "e \<le> exponent (exp2 e)"
    proof (rule ccontr)
      assume "\<not> ?thesis"
      then have "exp2 (exponent (exp2 e) + 1) \<le> exp2 e" by (intro exp2_mono) simp
      then show False using exponent_bounds [of "exp2 e"] by simp
    qed
  qed
  moreover have "exp2 e / exp2 (e - 52) = of_int (2 ^ 52)" using exp2_power [of "e - 52" 52] exp2_pos [of "e - 52"] by (simp del: exp2_pos)
  ultimately have "dbl (exp2 e) = of_int (2 ^ 52) * exp2 (e - 52)"
    using exp2_pos [of e] by (simp only: dbl_def Let_def abs_of_pos round_even_of_int) (simp del: exp2_pos)
  then show ?thesis using exp2_power [of "e - 52" 52] by simp
qed

lemma dbl_1 [simp]: "dbl 1 = 1" and dbl_2 [simp]: "dbl 2 = 2"
  using dbl_power2 [of 0] dbl_power2 [of 1] by (simp_all add: exp2_def)

end
