(* ===== verification/Lrs_Repartition.thy ===== *)
theory Lrs_Repartition
  imports Lrs_Dev C_Double
begin

text \<open>
  The numbers of devices that the algorithm \<^verbatim>\<open>fair_share\<close> gives to the three I/O schedulers of a technology
  of tapes (\<^verbatim>\<open>src/lrs/io_schedulers/device_dispatch_algorithms.c\<close>, \<^verbatim>\<open>src/lrs/io_sched.c\<close>). The weights are
  values of type \<^verbatim>\<open>double\<close>.
\<close>

subsection \<open>Weights\<close>

record io_stats =
  ios_nb_reads :: size_t
  ios_nb_writes :: size_t
  ios_nb_formats :: size_t

record io_sched_weights =
  wgt_read :: rat
  wgt_write :: rat
  wgt_format :: rat

record device_repartition =
  rep_nb_reads :: size_t
  rep_nb_writes :: size_t
  rep_nb_formats :: size_t

record range =
  rg_min :: int
  rg_max :: int

record device_list =
  dl_technology :: string
  dl_devices :: "nat list"
  dl_read :: range
  dl_write :: range
  dl_format :: range

definition c_double :: "nat \<Rightarrow> rat" where
  "c_double n = dbl (of_nat n)"

definition io_sched_compute_scheduler_weights :: "io_stats \<Rightarrow> io_sched_weights" where
  "io_sched_compute_scheduler_weights st =
     (let total = size_add (size_add (ios_nb_reads st) (ios_nb_writes st)) (ios_nb_formats st) in
      if total = 0 then \<lparr>wgt_read = dbl (1 / 3), wgt_write = dbl (1 / 3), wgt_format = dbl (1 / 3)\<rparr>
      else \<lparr>wgt_read = dbl (c_double (ios_nb_reads st) / c_double total), wgt_write = dbl (c_double (ios_nb_writes st) / c_double total),
            wgt_format = dbl (c_double (ios_nb_formats st) / c_double total)\<rparr>)"

definition device_repartition_total :: "device_repartition \<Rightarrow> size_t" where
  "device_repartition_total rep = size_add (size_add (rep_nb_reads rep) (rep_nb_writes rep)) (rep_nb_formats rep)"

definition compute_weight_diff :: "rat \<Rightarrow> size_t \<Rightarrow> size_t \<Rightarrow> rat option" where
  "compute_weight_diff original_weight new_number_of_devices total_devices =
     (if total_devices = 0 then None
      else Some (dbl (dbl (c_double new_number_of_devices / c_double total_devices) - original_weight)))"

subsection \<open>Maxima\<close>

definition max_reached :: "io_stats \<Rightarrow> device_repartition \<Rightarrow> device_list \<Rightarrow> io_request_type set" where
  "max_reached st rep dl =
     (if int (rep_nb_reads rep) = rg_max (dl_read dl) \<or> ios_nb_reads st = 0 then {IO_REQ_READ} else {}) \<union>
     (if int (rep_nb_writes rep) = rg_max (dl_write dl) \<or> ios_nb_writes st = 0 then {IO_REQ_WRITE} else {}) \<union>
     (if int (rep_nb_formats rep) = rg_max (dl_format dl) \<or> ios_nb_formats st = 0 then {IO_REQ_FORMAT} else {})"

definition set_heaviest_scheduler_devices_to_2 ::
  "device_list \<Rightarrow> io_stats \<Rightarrow> io_sched_weights \<Rightarrow> device_repartition \<Rightarrow> device_repartition" where
  "set_heaviest_scheduler_devices_to_2 dl st w rep =
     (let m = max_reached st rep dl in
      if wgt_read w > wgt_write w then
        if IO_REQ_READ \<notin> m \<and> wgt_read w > wgt_format w then rep\<lparr>rep_nb_reads := 2\<rparr>
        else if IO_REQ_FORMAT \<notin> m \<and> wgt_format w > wgt_write w then rep\<lparr>rep_nb_formats := 2\<rparr>
        else if IO_REQ_WRITE \<notin> m then rep\<lparr>rep_nb_writes := 2\<rparr>
        else rep
      else
        if IO_REQ_WRITE \<notin> m \<and> wgt_write w > wgt_format w then rep\<lparr>rep_nb_writes := 2\<rparr>
        else if IO_REQ_FORMAT \<notin> m \<and> wgt_format w > wgt_write w then rep\<lparr>rep_nb_formats := 2\<rparr>
        else if IO_REQ_READ \<notin> m then rep\<lparr>rep_nb_reads := 2\<rparr>
        else rep)"

definition count_not_maxed_schedulers :: "io_request_type set \<Rightarrow> nat" where
  "count_not_maxed_schedulers m = card ({IO_REQ_READ, IO_REQ_WRITE, IO_REQ_FORMAT} - m)"

subsection \<open>One more device\<close>

text \<open>A third of \<open>increment_least_favored_scheduler\<close>: the weight of a scheduler at its maximum goes to the others.\<close>

definition add_share :: "bool \<Rightarrow> rat \<Rightarrow> nat \<Rightarrow> rat \<Rightarrow> rat" where
  "add_share cond diff n d = (if cond then dbl (d + dbl (diff / c_double n)) else d)"

definition redistribute ::
  "(io_request_type \<Rightarrow> size_t) \<Rightarrow> io_request_type set \<Rightarrow> io_request_type \<Rightarrow> (io_request_type \<Rightarrow> rat) \<Rightarrow> io_request_type \<Rightarrow> rat" where
  "redistribute st m k d =
     (if k \<in> m \<and> st k > 0 then
        (\<lambda>j. if j = k then 0 else add_share (d k < 0 \<and> j \<notin> m \<and> st j > 0) (d k) (count_not_maxed_schedulers m) (d j))
      else d)"

definition lower_all :: "(io_request_type \<Rightarrow> size_t) \<Rightarrow> io_request_type set \<Rightarrow> (io_request_type \<Rightarrow> rat) \<Rightarrow> io_request_type \<Rightarrow> rat" where
  "lower_all st m d =
     (if d IO_REQ_READ \<ge> 0 \<and> d IO_REQ_WRITE \<ge> 0 \<and> d IO_REQ_FORMAT \<ge> 0 then
        let max_rwf = dbl (max (max (d IO_REQ_READ) (d IO_REQ_WRITE)) (d IO_REQ_FORMAT) + 1)
        in (\<lambda>j. if j \<notin> m \<and> st j > 0 then dbl (d j - max_rwf) else d j)
      else d)"

fun stat_of :: "io_stats \<Rightarrow> io_request_type \<Rightarrow> size_t" where
  "stat_of st IO_REQ_READ = ios_nb_reads st"
| "stat_of st IO_REQ_WRITE = ios_nb_writes st"
| "stat_of st IO_REQ_FORMAT = ios_nb_formats st"

definition increment_least_favored_scheduler ::
  "device_list \<Rightarrow> io_sched_weights \<Rightarrow> device_repartition \<Rightarrow> io_stats \<Rightarrow> size_t \<Rightarrow> device_repartition option" where
  "increment_least_favored_scheduler dl w rep st nb_devices = do {
     read_diff \<leftarrow> compute_weight_diff (wgt_read w) (rep_nb_reads rep) nb_devices;
     write_diff \<leftarrow> compute_weight_diff (wgt_write w) (rep_nb_writes rep) nb_devices;
     format_diff \<leftarrow> compute_weight_diff (wgt_format w) (rep_nb_formats rep) nb_devices;
     let m = max_reached st rep dl;
     let d = (\<lambda>k. case k of IO_REQ_READ \<Rightarrow> read_diff | IO_REQ_WRITE \<Rightarrow> write_diff | IO_REQ_FORMAT \<Rightarrow> format_diff);
     let d = redistribute (stat_of st) m IO_REQ_FORMAT (redistribute (stat_of st) m IO_REQ_WRITE (redistribute (stat_of st) m IO_REQ_READ d));
     let d = lower_all (stat_of st) m d;
     let (rd, wr, fmt) = (d IO_REQ_READ, d IO_REQ_WRITE, d IO_REQ_FORMAT);
     if rd < 0 \<and> rd < wr then
       Some (if rd < fmt then rep\<lparr>rep_nb_reads := rep_nb_reads rep + 1\<rparr> else rep\<lparr>rep_nb_formats := rep_nb_formats rep + 1\<rparr>)
     else if wr < 0 then
       Some (if wr < fmt then rep\<lparr>rep_nb_writes := rep_nb_writes rep + 1\<rparr> else rep\<lparr>rep_nb_formats := rep_nb_formats rep + 1\<rparr>)
     else if fmt < 0 then Some (rep\<lparr>rep_nb_formats := rep_nb_formats rep + 1\<rparr>)
     else if rd = 0 \<and> wr = 0 \<and> fmt = 0 then Some rep else None
   }"

subsection \<open>The repartition\<close>

definition clamp :: "int \<Rightarrow> range \<Rightarrow> size_t" where
  "clamp a r = nat (min (max a (rg_min r)) (rg_max r))"

definition compute_device_repartition :: "io_sched_weights \<Rightarrow> io_stats \<Rightarrow> device_list \<Rightarrow> size_t \<Rightarrow> device_repartition" where
  "compute_device_repartition w st dl total_devices =
     \<lparr>rep_nb_reads = (if ios_nb_reads st > 0 then clamp \<lfloor>dbl (wgt_read w * c_double total_devices)\<rfloor> (dl_read dl) else 0),
      rep_nb_writes = (if ios_nb_writes st > 0 then clamp \<lfloor>dbl (wgt_write w * c_double total_devices)\<rfloor> (dl_write dl) else 0),
      rep_nb_formats = (if ios_nb_formats st > 0 then clamp \<lfloor>dbl (wgt_format w * c_double total_devices)\<rfloor> (dl_format dl) else 0)\<rparr>"

text \<open>The loop that takes devices back; it goes on when no scheduler has more than its minimum.\<close>

partial_function (option) reduce_repartition :: "device_list \<Rightarrow> size_t \<Rightarrow> device_repartition \<Rightarrow> device_repartition option" where
  "reduce_repartition dl nb_devices rep =
     (if device_repartition_total rep > nb_devices then
        reduce_repartition dl nb_devices
          (if int (rep_nb_reads rep) > rg_min (dl_read dl) then rep\<lparr>rep_nb_reads := rep_nb_reads rep - 1\<rparr>
           else if int (rep_nb_writes rep) > rg_min (dl_write dl) then rep\<lparr>rep_nb_writes := rep_nb_writes rep - 1\<rparr>
           else if int (rep_nb_formats rep) > rg_min (dl_format dl) then rep\<lparr>rep_nb_formats := rep_nb_formats rep - 1\<rparr>
           else rep)
      else Some rep)"

text \<open>The loop that gives the remaining devices.\<close>

partial_function (option) fill_repartition ::
  "device_list \<Rightarrow> io_sched_weights \<Rightarrow> io_stats \<Rightarrow> size_t \<Rightarrow> device_repartition \<Rightarrow> device_repartition option" where
  "fill_repartition dl w st nb_devices rep =
     (if device_repartition_total rep < nb_devices \<and> max_reached st rep dl \<noteq> {IO_REQ_READ, IO_REQ_WRITE, IO_REQ_FORMAT} then
        Option.bind (increment_least_favored_scheduler dl w rep st nb_devices) (fill_repartition dl w st nb_devices)
      else Some rep)"

text \<open>The ranges when there are not enough devices for the minima.\<close>

definition to_min :: "range \<Rightarrow> range" where
  "to_min r = \<lparr>rg_min = min 1 (rg_min r), rg_max = rg_min r\<rparr>"

definition compute_number_of_devices :: "io_stats \<Rightarrow> io_sched_weights \<Rightarrow> device_list \<Rightarrow> int \<Rightarrow> (device_repartition \<times> device_list) option" where
  "compute_number_of_devices st w dl min_devices =
     (let nb_devices = length (dl_devices dl) in
      if nb_devices = 0 then Some (\<lparr>rep_nb_reads = 0, rep_nb_writes = 0, rep_nb_formats = 0\<rparr>, dl)
      else
        let dl = (if nb_devices < nat min_devices \<and> nb_devices > 2
                  then dl\<lparr>dl_read := to_min (dl_read dl), dl_write := to_min (dl_write dl), dl_format := to_min (dl_format dl)\<rparr> else dl)
        in if nb_devices = 1 \<or> nb_devices = 2 then
             let rep = \<lparr>rep_nb_reads = (if ios_nb_reads st > 0 then clamp 1 (dl_read dl) else 0),
                        rep_nb_writes = (if ios_nb_writes st > 0 then clamp 1 (dl_write dl) else 0),
                        rep_nb_formats = (if ios_nb_formats st > 0 then clamp 1 (dl_format dl) else 0)\<rparr>
             in Some (if nb_devices = 2 then set_heaviest_scheduler_devices_to_2 dl st w rep else rep, dl)
           else do {
             rep \<leftarrow> reduce_repartition dl nb_devices (compute_device_repartition w st dl nb_devices);
             rep \<leftarrow> fill_repartition dl w st nb_devices rep;
             Some (rep, dl)
           })"

text \<open>What \<^verbatim>\<open>fair_share_number_of_requests_one_techno\<close> adds up in an \<^verbatim>\<open>int\<close> before the call; overflow is undefined.\<close>

definition fair_share_min_devices :: "io_stats \<Rightarrow> device_list \<Rightarrow> int option" where
  "fair_share_min_devices st dl =
     (let m = (if ios_nb_reads st > 0 then rg_min (dl_read dl) else 0) + (if ios_nb_writes st > 0 then rg_min (dl_write dl) else 0) +
              (if ios_nb_formats st > 0 then rg_min (dl_format dl) else 0)
      in if m \<le> 2147483647 then Some m else None)"

subsection \<open>Every increment helps a scheduler below its maximum\<close>

fun rep_of :: "device_repartition \<Rightarrow> io_request_type \<Rightarrow> size_t" where
  "rep_of rep IO_REQ_READ = rep_nb_reads rep"
| "rep_of rep IO_REQ_WRITE = rep_nb_writes rep"
| "rep_of rep IO_REQ_FORMAT = rep_nb_formats rep"

fun range_of :: "device_list \<Rightarrow> io_request_type \<Rightarrow> range" where
  "range_of dl IO_REQ_READ = dl_read dl"
| "range_of dl IO_REQ_WRITE = dl_write dl"
| "range_of dl IO_REQ_FORMAT = dl_format dl"

fun weight_of :: "io_sched_weights \<Rightarrow> io_request_type \<Rightarrow> rat" where
  "weight_of w IO_REQ_READ = wgt_read w"
| "weight_of w IO_REQ_WRITE = wgt_write w"
| "weight_of w IO_REQ_FORMAT = wgt_format w"

fun add_one :: "device_repartition \<Rightarrow> io_request_type \<Rightarrow> device_repartition" where
  "add_one rep IO_REQ_READ = rep\<lparr>rep_nb_reads := rep_nb_reads rep + 1\<rparr>"
| "add_one rep IO_REQ_WRITE = rep\<lparr>rep_nb_writes := rep_nb_writes rep + 1\<rparr>"
| "add_one rep IO_REQ_FORMAT = rep\<lparr>rep_nb_formats := rep_nb_formats rep + 1\<rparr>"

lemma rep_of_add_one [simp]: "rep_of (add_one rep k) j = (if j = k then Suc (rep_of rep j) else rep_of rep j)"
  by (cases k; cases j) simp_all

lemma all_kinds: "(\<forall>k. P k) \<longleftrightarrow> P IO_REQ_READ \<and> P IO_REQ_WRITE \<and> P IO_REQ_FORMAT"
  by (metis io_request_type.exhaust)

lemma max_reached_iff: "k \<in> max_reached st rep dl \<longleftrightarrow> int (rep_of rep k) = rg_max (range_of dl k) \<or> stat_of st k = 0"
  by (cases k) (auto simp: max_reached_def)

lemma max_reached_all: "max_reached st rep dl = {IO_REQ_READ, IO_REQ_WRITE, IO_REQ_FORMAT} \<longleftrightarrow> (\<forall>k. k \<in> max_reached st rep dl)"
  by (auto simp: all_kinds max_reached_def)

lemma c_double_pos: "0 < n \<Longrightarrow> 0 < c_double n"
  by (simp add: c_double_def dbl_pos)

lemma c_double_mono: "a \<le> b \<Longrightarrow> c_double a \<le> c_double b"
  by (simp add: c_double_def dbl_mono)

lemma dbl_le_1: "x \<le> 1 \<Longrightarrow> dbl x \<le> 1"
  using dbl_mono [of x 1] by simp

lemma weight_diff_le_1: "compute_weight_diff w n nb = Some d \<Longrightarrow> n \<le> nb \<Longrightarrow> 0 \<le> w \<Longrightarrow> d \<le> 1"
proof -
  assume a: "compute_weight_diff w n nb = Some d" "n \<le> nb" "0 \<le> w"
  then have nb: "0 < nb" by (auto simp: compute_weight_diff_def split: if_splits)
  have "c_double n / c_double nb \<le> 1" using c_double_mono [OF a(2)] c_double_pos [OF nb] by simp
  then have "dbl (c_double n / c_double nb) - w \<le> 1" using dbl_le_1 a(3) by (metis diff_mono diff_zero)
  then show ?thesis using a(1) by (auto simp: compute_weight_diff_def dbl_le_1 split: if_splits)
qed

lemma redistribute_le_1: "(\<And>j. d j \<le> 1) \<Longrightarrow> redistribute st m k d j \<le> 1"
proof -
  assume d: "\<And>j. d j \<le> 1"
  have "add_share c x n y \<le> 1" if "c \<longrightarrow> x < 0" "y \<le> 1" for c x n y
  proof -
    have "x / c_double n \<le> 0" if "c" using \<open>c \<longrightarrow> x < 0\<close> that c_double_pos [of n] by (cases "n = 0") (auto simp: c_double_def divide_le_0_iff)
    then have "dbl (x / c_double n) \<le> 0" if "c" using that dbl_mono [of "x / c_double n" 0] by simp
    then show ?thesis using that by (auto simp: add_share_def intro!: dbl_le_1)
  qed
  then show ?thesis using d by (auto simp: redistribute_def)
qed

lemma redistribute_maxed:
  "j \<in> m \<Longrightarrow> redistribute st m k d j = (if j = k \<and> st j > 0 then 0 else d j)"
  by (auto simp: redistribute_def add_share_def)

lemma lowered:
  assumes "\<And>j. d j \<le> 1" "\<And>j. j \<in> m \<Longrightarrow> d j = 0" "\<And>j. st j = 0 \<Longrightarrow> j \<in> m" "k \<notin> m"
  shows "(\<forall>j. lower_all st m d j < 0 \<longrightarrow> j \<notin> m) \<and> (\<exists>j. lower_all st m d j < 0)"
proof (cases "\<forall>j. 0 \<le> d j")
  case False
  then obtain j where j: "d j < 0" by (auto simp: not_le)
  have "lower_all st m d = d" using False unfolding lower_all_def all_kinds by (simp only: if_False)
  then show ?thesis using assms(2) j by (metis less_irrefl)
next
  case True
  define M where "M = max (max (d IO_REQ_READ) (d IO_REQ_WRITE)) (d IO_REQ_FORMAT)"
  have M: "d j \<le> M" "M \<le> 1" "0 \<le> M" for j using assms(1) True by (cases j; simp add: M_def le_max_iff_disj)+
  have "M < dbl (M + 1)"
  proof (cases "M = 1")
    case False
    then have "M < 1" using M(2) by simp
    moreover have "1 \<le> dbl (M + 1)" using dbl_mono [of 1 "M + 1"] M(3) by simp
    ultimately show ?thesis by simp
  qed simp
  then have "dbl (d j - dbl (M + 1)) < 0" for j using M(1) [of j] by (intro dbl_neg) simp
  moreover have "0 < st k" using assms(3) [of k] assms(4) by (cases "st k") auto
  ultimately show ?thesis using True assms(2,4) by (auto simp: lower_all_def Let_def M_def [symmetric])
qed

text \<open>The last part of \<open>increment_least_favored_scheduler\<close>.\<close>

definition picked :: "rat \<Rightarrow> rat \<Rightarrow> rat \<Rightarrow> device_repartition \<Rightarrow> device_repartition option" where
  "picked rd wr fmt rep =
     (if rd < 0 \<and> rd < wr then Some (if rd < fmt then add_one rep IO_REQ_READ else add_one rep IO_REQ_FORMAT)
      else if wr < 0 then Some (if wr < fmt then add_one rep IO_REQ_WRITE else add_one rep IO_REQ_FORMAT)
      else if fmt < 0 then Some (add_one rep IO_REQ_FORMAT)
      else if rd = 0 \<and> wr = 0 \<and> fmt = 0 then Some rep else None)"

lemma picked_negative:
  assumes "f IO_REQ_READ < 0 \<or> f IO_REQ_WRITE < 0 \<or> f IO_REQ_FORMAT < 0"
  shows "\<exists>k. f k < 0 \<and> picked (f IO_REQ_READ) (f IO_REQ_WRITE) (f IO_REQ_FORMAT) rep = Some (add_one rep k)"
proof (cases "f IO_REQ_READ < 0 \<and> f IO_REQ_READ < f IO_REQ_WRITE")
  case True
  then show ?thesis by (intro exI [of _ "if f IO_REQ_READ < f IO_REQ_FORMAT then IO_REQ_READ else IO_REQ_FORMAT"]) (auto simp: picked_def)
next
  case False
  show ?thesis
  proof (cases "f IO_REQ_WRITE < 0")
    case True
    then show ?thesis using False
      by (intro exI [of _ "if f IO_REQ_WRITE < f IO_REQ_FORMAT then IO_REQ_WRITE else IO_REQ_FORMAT"]) (auto simp: picked_def)
  next
    case n: False
    then have "f IO_REQ_FORMAT < 0" using assms False by auto
    then show ?thesis using False n by (intro exI [of _ IO_REQ_FORMAT]) (auto simp: picked_def)
  qed
qed

lemma increment_spec:
  assumes "0 < nb" "\<And>k. rep_of rep k \<le> nb" "\<And>k. 0 \<le> weight_of w k" "\<And>k. stat_of st k = 0 \<Longrightarrow> weight_of w k = 0 \<and> rep_of rep k = 0"
    and "k0 \<notin> max_reached st rep dl"
  shows "\<exists>k. k \<notin> max_reached st rep dl \<and> increment_least_favored_scheduler dl w rep st nb = Some (add_one rep k)"
proof -
  define m where "m = max_reached st rep dl"
  define d where "d k = dbl (dbl (c_double (rep_of rep k) / c_double nb) - weight_of w k)" for k
  have cw: "compute_weight_diff (weight_of w k) (rep_of rep k) nb = Some (d k)" for k using assms(1) by (simp add: compute_weight_diff_def d_def)
  have d1: "d j \<le> 1" for j using weight_diff_le_1 [OF cw] assms(2,3) by blast
  have d0: "stat_of st j = 0 \<Longrightarrow> d j = 0" for j using assms(4) by (simp add: d_def c_double_def)
  define e where "e = redistribute (stat_of st) m IO_REQ_FORMAT (redistribute (stat_of st) m IO_REQ_WRITE (redistribute (stat_of st) m IO_REQ_READ d))"
  have e1: "e j \<le> 1" for j unfolding e_def by (intro redistribute_le_1 d1)
  have e0: "j \<in> m \<Longrightarrow> e j = 0" for j using d0 [of j] by (cases j; cases "stat_of st j = 0") (simp_all add: e_def redistribute_maxed)
  have em: "stat_of st j = 0 \<Longrightarrow> j \<in> m" for j by (simp add: m_def max_reached_iff)
  define f where "f = lower_all (stat_of st) m e"
  have k0: "k0 \<notin> m" using assms(5) by (simp add: m_def)
  have "(\<forall>j. f j < 0 \<longrightarrow> j \<notin> m) \<and> (\<exists>j. f j < 0)"
    unfolding f_def by (rule lowered [where k = k0]) (fact e1 k0 | erule e0 em)+
  then have f: "\<And>j. f j < 0 \<Longrightarrow> j \<notin> m" "\<exists>j. f j < 0" by blast+
  have "d = (\<lambda>k. case k of IO_REQ_READ \<Rightarrow> d IO_REQ_READ | IO_REQ_WRITE \<Rightarrow> d IO_REQ_WRITE | IO_REQ_FORMAT \<Rightarrow> d IO_REQ_FORMAT)"
    by (rule ext) (simp split: io_request_type.split)
  then have i: "increment_least_favored_scheduler dl w rep st nb = picked (f IO_REQ_READ) (f IO_REQ_WRITE) (f IO_REQ_FORMAT) rep"
    using cw [of IO_REQ_READ] cw [of IO_REQ_WRITE] cw [of IO_REQ_FORMAT]
    by (simp add: increment_least_favored_scheduler_def picked_def f_def e_def m_def Let_def)
  have "f IO_REQ_READ < 0 \<or> f IO_REQ_WRITE < 0 \<or> f IO_REQ_FORMAT < 0" using f(2) by (metis io_request_type.exhaust)
  then have "\<exists>k. f k < 0 \<and> picked (f IO_REQ_READ) (f IO_REQ_WRITE) (f IO_REQ_FORMAT) rep = Some (add_one rep k)" by (rule picked_negative)
  then show ?thesis using f(1) unfolding m_def i by blast
qed


subsection \<open>The loops end\<close>

definition total_of :: "device_repartition \<Rightarrow> nat" where
  "total_of rep = rep_nb_reads rep + rep_nb_writes rep + rep_nb_formats rep"

definition kinds :: "io_request_type list" where
  "kinds = [IO_REQ_READ, IO_REQ_WRITE, IO_REQ_FORMAT]"

lemma total_of_sum: "total_of rep = sum_list (map (rep_of rep) kinds)"
  by (simp add: total_of_def kinds_def)

lemma total_exact: "total_of rep < size_max \<Longrightarrow> device_repartition_total rep = total_of rep"
  by (simp add: device_repartition_total_def total_of_def size_add_def)

lemma rep_le_total: "rep_of rep k \<le> total_of rep"
  by (cases k) (simp_all add: total_of_def)

lemma total_add_one [simp]: "total_of (add_one rep k) = Suc (total_of rep)"
  by (cases k) (simp_all add: total_of_def)

text \<open>A step of the first loop.\<close>

lemma reduce_step:
  assumes "nb < total_of rep" "sum_list (map (\<lambda>k. min (rep_of rep k) (nat (rg_min (range_of dl k)))) kinds) \<le> nb" "\<And>k. 0 \<le> rg_min (range_of dl k)"
    and "total_of rep < size_max"
  shows "\<exists>k rep'. rep = add_one rep' k \<and> rg_min (range_of dl k) \<le> int (rep_of rep' k) \<and> reduce_repartition dl nb rep = reduce_repartition dl nb rep'"
proof -
  define k where "k = (if int (rep_nb_reads rep) > rg_min (dl_read dl) then IO_REQ_READ
    else if int (rep_nb_writes rep) > rg_min (dl_write dl) then IO_REQ_WRITE else IO_REQ_FORMAT)"
  define rep' where "rep' = (case k of IO_REQ_READ \<Rightarrow> rep\<lparr>rep_nb_reads := rep_nb_reads rep - 1\<rparr>
    | IO_REQ_WRITE \<Rightarrow> rep\<lparr>rep_nb_writes := rep_nb_writes rep - 1\<rparr> | IO_REQ_FORMAT \<Rightarrow> rep\<lparr>rep_nb_formats := rep_nb_formats rep - 1\<rparr>)"
  have "rg_min (range_of dl k) < int (rep_of rep k)"
  proof (rule ccontr)
    assume "\<not> ?thesis"
    then have "int (rep_nb_reads rep) \<le> rg_min (dl_read dl)" "int (rep_nb_writes rep) \<le> rg_min (dl_write dl)" "int (rep_nb_formats rep) \<le> rg_min (dl_format dl)"
      by (auto simp: k_def split: if_splits)
    then have "min (rep_of rep j) (nat (rg_min (range_of dl j))) = rep_of rep j" for j by (cases j) (auto simp: nat_le_iff le_nat_iff)
    then show False using assms(1,2) by (simp add: total_of_sum)
  qed
  then have pos: "rg_min (range_of dl k) < int (rep_of rep k)" .
  then have "0 < rep_of rep k" using assms(3) [of k] by linarith
  then have "rep = add_one rep' k" by (cases k) (simp_all add: rep'_def)
  moreover have "rg_min (range_of dl k) \<le> int (rep_of rep' k)" using pos \<open>0 < rep_of rep k\<close> by (cases k) (simp_all add: rep'_def of_nat_diff)
  moreover have "reduce_repartition dl nb rep = reduce_repartition dl nb rep'"
    using assms(1) pos total_exact [OF assms(4)] by (subst reduce_repartition.simps) (auto simp: rep'_def k_def split: if_splits)
  ultimately show ?thesis by blast
qed

lemma reduce_spec:
  assumes "sum_list (map (\<lambda>k. min (rep_of rep k) (nat (rg_min (range_of dl k)))) kinds) \<le> nb" "\<And>k. 0 \<le> rg_min (range_of dl k)" "total_of rep < size_max"
  shows "\<exists>rep'. reduce_repartition dl nb rep = Some rep' \<and> total_of rep' \<le> nb \<and>
    (\<forall>k. min (rep_of rep k) (nat (rg_min (range_of dl k))) \<le> rep_of rep' k \<and> rep_of rep' k \<le> rep_of rep k)"
  using assms(1,3)
proof (induction "total_of rep" arbitrary: rep rule: less_induct)
  case less
  show ?case
  proof (cases "nb < total_of rep")
    case False
    then show ?thesis using total_exact [OF less.prems(2)] by (subst reduce_repartition.simps) simp
  next
    case True
    obtain k r where r: "rep = add_one r k" "rg_min (range_of dl k) \<le> int (rep_of r k)" "reduce_repartition dl nb rep = reduce_repartition dl nb r"
      using reduce_step [OF True less.prems(1) assms(2) less.prems(2)] by blast
    have m: "min (rep_of r j) (nat (rg_min (range_of dl j))) = min (rep_of rep j) (nat (rg_min (range_of dl j)))" for j
      using r(2) by (auto simp: r(1))
    have "\<exists>rep'. reduce_repartition dl nb r = Some rep' \<and> total_of rep' \<le> nb \<and>
        (\<forall>k. min (rep_of r k) (nat (rg_min (range_of dl k))) \<le> rep_of rep' k \<and> rep_of rep' k \<le> rep_of r k)"
      using less.hyps [of r] less.prems m by (simp add: r(1))
    then show ?thesis using r(1,3) m by (fastforce intro: le_SucI)
  qed
qed

lemma fill_spec:
  assumes "0 < nb" "nb < size_max" "\<And>k. 0 \<le> weight_of w k" "\<And>k. stat_of st k = 0 \<Longrightarrow> weight_of w k = 0"
    and "total_of rep \<le> nb" "\<forall>k. stat_of st k = 0 \<longrightarrow> rep_of rep k = 0" "\<forall>k. stat_of st k > 0 \<longrightarrow> int (rep_of rep k) \<le> rg_max (range_of dl k)"
  shows "\<exists>rep'. fill_repartition dl w st nb rep = Some rep' \<and> total_of rep' \<le> nb \<and>
    (\<forall>k. rep_of rep k \<le> rep_of rep' k \<and> (stat_of st k = 0 \<longrightarrow> rep_of rep' k = 0) \<and> (stat_of st k > 0 \<longrightarrow> int (rep_of rep' k) \<le> rg_max (range_of dl k))) \<and>
    (total_of rep' = nb \<or> (\<forall>k. stat_of st k > 0 \<longrightarrow> int (rep_of rep' k) = rg_max (range_of dl k)))"
  using assms(5-7)
proof (induction "nb - total_of rep" arbitrary: rep rule: less_induct)
  case less
  have t: "device_repartition_total rep = total_of rep" using less.prems(1) assms(2) by (intro total_exact) simp
  show ?case
  proof (cases "total_of rep < nb \<and> max_reached st rep dl \<noteq> {IO_REQ_READ, IO_REQ_WRITE, IO_REQ_FORMAT}")
    case False
    then have "total_of rep = nb \<or> (\<forall>k. stat_of st k > 0 \<longrightarrow> int (rep_of rep k) = rg_max (range_of dl k))"
      using less.prems(1) by (auto simp: max_reached_all max_reached_iff)
    moreover have "fill_repartition dl w st nb rep = Some rep" using False by (subst fill_repartition.simps) (simp only: t if_False)
    ultimately show ?thesis using less.prems by auto
  next
    case True
    then obtain k0 where k0: "k0 \<notin> max_reached st rep dl" by (auto simp: max_reached_all)
    obtain k where k: "k \<notin> max_reached st rep dl" "increment_least_favored_scheduler dl w rep st nb = Some (add_one rep k)"
      using increment_spec [of nb rep w st k0 dl] assms(1,3,4) k0 rep_le_total [of rep] less.prems(1,2) by (meson le_trans)
    have ka: "stat_of st k > 0" "int (rep_of rep k) \<noteq> rg_max (range_of dl k)" using k(1) by (auto simp: max_reached_iff)
    then have "int (rep_of rep k) < rg_max (range_of dl k)" using less.prems(3) by (metis order_le_less)
    then have "\<exists>rep'. fill_repartition dl w st nb (add_one rep k) = Some rep' \<and> total_of rep' \<le> nb \<and>
      (\<forall>j. rep_of (add_one rep k) j \<le> rep_of rep' j \<and> (stat_of st j = 0 \<longrightarrow> rep_of rep' j = 0) \<and> (stat_of st j > 0 \<longrightarrow> int (rep_of rep' j) \<le> rg_max (range_of dl j))) \<and>
      (total_of rep' = nb \<or> (\<forall>k. stat_of st k > 0 \<longrightarrow> int (rep_of rep' k) = rg_max (range_of dl k)))"
      using less.prems True ka by (intro less.hyps) auto
    moreover have "fill_repartition dl w st nb rep = fill_repartition dl w st nb (add_one rep k)"
      using True k(2) by (subst fill_repartition.simps) (simp add: t)
    moreover have "rep_of (add_one rep k) j \<le> n \<Longrightarrow> rep_of rep j \<le> n" for j n by (simp split: if_splits)
    ultimately show ?thesis by auto
  qed
qed


subsection \<open>The whole computation\<close>

definition range_ok :: "range \<Rightarrow> bool" where
  "range_ok r \<longleftrightarrow> 0 \<le> rg_min r \<and> rg_min r \<le> rg_max r \<and> rg_max r \<le> 2147483647"

definition stats_total :: "io_stats \<Rightarrow> nat" where
  "stats_total st = ios_nb_reads st + ios_nb_writes st + ios_nb_formats st"

text \<open>The ranges the computation uses when there are fewer devices than the sum of the minima.\<close>

definition scarce :: "io_stats \<Rightarrow> device_list \<Rightarrow> bool" where
  "scarce st dl \<longleftrightarrow> length (dl_devices dl) < (\<Sum>k\<leftarrow>kinds. if stat_of st k > 0 then nat (rg_min (range_of dl k)) else 0)"

definition effective_range :: "io_stats \<Rightarrow> device_list \<Rightarrow> io_request_type \<Rightarrow> range" where
  "effective_range st dl k = (if scarce st dl then to_min (range_of dl k) else range_of dl k)"

lemma clamp_bounds: "range_ok r \<Longrightarrow> rg_min r \<le> int (clamp a r) \<and> int (clamp a r) \<le> rg_max r"
  by (auto simp: clamp_def range_ok_def)

lemma to_min_ok: "range_ok r \<Longrightarrow> range_ok (to_min r)"
  by (auto simp: range_ok_def to_min_def)

lemma weights_ok:
  assumes "0 < stats_total st" "stats_total st < size_max"
  shows "0 \<le> weight_of (io_sched_compute_scheduler_weights st) k"
    and "stat_of st k = 0 \<Longrightarrow> weight_of (io_sched_compute_scheduler_weights st) k = 0"
proof -
  have t: "size_add (size_add (ios_nb_reads st) (ios_nb_writes st)) (ios_nb_formats st) = stats_total st"
    using assms(2) by (simp add: size_add_def stats_total_def)
  have w: "weight_of (io_sched_compute_scheduler_weights st) k = dbl (c_double (stat_of st k) / c_double (stats_total st))"
    using assms(1) by (cases k) (simp_all add: io_sched_compute_scheduler_weights_def t Let_def)
  have nn: "0 \<le> c_double n" for n using dbl_mono [of 0 "of_nat n"] by (simp add: c_double_def)
  show "0 \<le> weight_of (io_sched_compute_scheduler_weights st) k" using dbl_mono [of 0 "c_double (stat_of st k) / c_double (stats_total st)"] nn by (simp add: w)
  show "stat_of st k = 0 \<Longrightarrow> weight_of (io_sched_compute_scheduler_weights st) k = 0" by (simp add: w c_double_def)
qed

lemma compute_device_repartition_bounds:
  assumes "\<And>k. range_ok (range_of dl k)"
  shows "stat_of st k = 0 \<Longrightarrow> rep_of (compute_device_repartition w st dl nb) k = 0"
    and "stat_of st k > 0 \<Longrightarrow> rg_min (range_of dl k) \<le> int (rep_of (compute_device_repartition w st dl nb) k) \<and>
           int (rep_of (compute_device_repartition w st dl nb) k) \<le> rg_max (range_of dl k)"
  using clamp_bounds [OF assms, of k] by (cases k; simp add: compute_device_repartition_def)+

lemma compute_device_repartition_small:
  assumes "\<And>k. range_ok (range_of dl k)"
  shows "total_of (compute_device_repartition w st dl nb) < size_max"
proof -
  have "int (rep_of (compute_device_repartition w st dl nb) k) \<le> 2147483647" for k
    using compute_device_repartition_bounds [OF assms, where k = k and st = st and w = w and nb = nb] assms [of k]
    by (cases "stat_of st k = 0") (simp_all add: range_ok_def)
  from this [of IO_REQ_READ] this [of IO_REQ_WRITE] this [of IO_REQ_FORMAT] show ?thesis
    by (simp add: total_of_def size_max_def)
qed

text \<open>The two loops on ranges whose minima fit.\<close>

lemma loops_spec:
  assumes ok: "\<And>k. range_ok (range_of dl k)" and fit: "(\<Sum>k\<leftarrow>kinds. if stat_of st k > 0 then nat (rg_min (range_of dl k)) else 0) \<le> nb"
    and nb: "0 < nb" "nb < size_max" and st: "0 < stats_total st" "stats_total st < size_max" and w: "w = io_sched_compute_scheduler_weights st"
  shows "\<exists>r rep. reduce_repartition dl nb (compute_device_repartition w st dl nb) = Some r \<and> fill_repartition dl w st nb r = Some rep \<and> total_of rep \<le> nb \<and>
    (\<forall>k. if stat_of st k = 0 then rep_of rep k = 0 else rg_min (range_of dl k) \<le> int (rep_of rep k) \<and> int (rep_of rep k) \<le> rg_max (range_of dl k)) \<and>
    (total_of rep = nb \<or> (\<forall>k. stat_of st k > 0 \<longrightarrow> int (rep_of rep k) = rg_max (range_of dl k)))"
proof -
  let ?c = "compute_device_repartition w st dl nb"
  note cb = compute_device_repartition_bounds [OF ok, where st = st and w = w and nb = nb]
  have mn: "min (rep_of ?c k) (nat (rg_min (range_of dl k))) = (if stat_of st k > 0 then nat (rg_min (range_of dl k)) else 0)" for k
    using cb [of k] by (auto simp: min_def)
  obtain r where r: "reduce_repartition dl nb ?c = Some r" "total_of r \<le> nb"
      "\<forall>k. min (rep_of ?c k) (nat (rg_min (range_of dl k))) \<le> rep_of r k \<and> rep_of r k \<le> rep_of ?c k"
    using reduce_spec [of ?c dl nb] fit ok compute_device_repartition_small [OF ok] by (auto simp: mn range_ok_def)
  have lo: "rg_min (range_of dl k) \<le> int (rep_of r k)" if "stat_of st k > 0" for k
    using spec [OF r(3), of k] mn [of k] that by (simp add: nat_le_iff)
  have hi: "int (rep_of r k) \<le> rg_max (range_of dl k)" if "stat_of st k > 0" for k
    using spec [OF r(3), of k] cb(2) [OF that] by linarith
  have z: "rep_of r k = 0" if "stat_of st k = 0" for k using r(3) cb(1) [OF that] by (metis le_zero_eq)
  obtain rep where f: "fill_repartition dl w st nb r = Some rep" "total_of rep \<le> nb"
      "\<forall>k. rep_of r k \<le> rep_of rep k \<and> (stat_of st k = 0 \<longrightarrow> rep_of rep k = 0) \<and> (stat_of st k > 0 \<longrightarrow> int (rep_of rep k) \<le> rg_max (range_of dl k))"
      "total_of rep = nb \<or> (\<forall>k. stat_of st k > 0 \<longrightarrow> int (rep_of rep k) = rg_max (range_of dl k))"
    using fill_spec [of nb w st r dl] nb r(2) hi z weights_ok [OF st] by (auto simp: w)
  have "rg_min (range_of dl k) \<le> int (rep_of rep k)" if "stat_of st k > 0" for k
    using lo [OF that] spec [OF f(3), of k] by linarith
  then show ?thesis using r(1) f by (intro exI [of _ r] exI [of _ rep]) simp
qed

lemma min_devices_sum:
  assumes "\<And>k. range_ok (range_of dl k)" "fair_share_min_devices st dl = Some m"
  shows "nat m = (\<Sum>k\<leftarrow>kinds. if stat_of st k > 0 then nat (rg_min (range_of dl k)) else 0)"
  using assms(2) assms(1) [of IO_REQ_READ] assms(1) [of IO_REQ_WRITE] assms(1) [of IO_REQ_FORMAT]
  by (auto simp: fair_share_min_devices_def kinds_def range_ok_def Let_def nat_add_distrib split: if_splits)

text \<open>C12. The fair share of three devices or more between the schedulers returns, and what it returns is a
  fair share: it hands out no more than the devices there are, nothing to a scheduler without requests, and to each
  scheduler with requests a number within its range, where the ranges are the configured ones, or, when there are fewer
  devices than the sum of the minima of those schedulers, go from at most one device to the minimum. A configured maximum
  of 0 gives the scheduler no device, although the manual says that it does not restrict their number. No device is left
  unused while a scheduler with requests is below its maximum.\<close>

theorem fair_share_repartition:
  assumes "3 \<le> length (dl_devices dl)" "length (dl_devices dl) < size_max"
    and "range_ok (dl_read dl)" "range_ok (dl_write dl)" "range_ok (dl_format dl)"
    and "0 < stats_total st" "stats_total st < size_max" "fair_share_min_devices st dl = Some m"
  shows "\<exists>rep dl'. compute_number_of_devices st (io_sched_compute_scheduler_weights st) dl m = Some (rep, dl') \<and>
    total_of rep \<le> length (dl_devices dl) \<and>
    (\<forall>k. if stat_of st k = 0 then rep_of rep k = 0
         else rg_min (effective_range st dl k) \<le> int (rep_of rep k) \<and> int (rep_of rep k) \<le> rg_max (effective_range st dl k)) \<and>
    (total_of rep = length (dl_devices dl) \<or> (\<forall>k. stat_of st k > 0 \<longrightarrow> int (rep_of rep k) = rg_max (effective_range st dl k)))"
proof -
  let ?nb = "length (dl_devices dl)"
  have ok: "range_ok (range_of dl k)" for k using assms(3-5) by (cases k) simp_all
  define dl' where "dl' = (if ?nb < nat m then dl\<lparr>dl_read := to_min (dl_read dl), dl_write := to_min (dl_write dl), dl_format := to_min (dl_format dl)\<rparr> else dl)"
  have sc: "scarce st dl \<longleftrightarrow> ?nb < nat m" by (simp add: scarce_def min_devices_sum [OF ok assms(8)])
  have er: "range_of dl' k = effective_range st dl k" for k by (cases k) (simp_all add: effective_range_def dl'_def sc)
  have ok': "range_ok (range_of dl' k)" for k using ok [of k] to_min_ok by (simp add: er effective_range_def)
  have "(\<Sum>k\<leftarrow>kinds. if stat_of st k > 0 then nat (rg_min (range_of dl' k)) else 0) \<le> ?nb"
  proof (cases "?nb < nat m")
    case True
    have "(if stat_of st k > 0 then nat (rg_min (range_of dl' k)) else 0) \<le> 1" for k by (simp add: er effective_range_def sc True to_min_def nat_le_iff)
    from this [of IO_REQ_READ] this [of IO_REQ_WRITE] this [of IO_REQ_FORMAT] show ?thesis using assms(1) by (simp add: kinds_def del: stat_of.simps range_of.simps)
  next
    case False
    then have "dl' = dl" by (simp add: dl'_def)
    then show ?thesis using False min_devices_sum [OF ok assms(8)] by (metis not_less)
  qed
  moreover have "0 < ?nb" using assms(1) by linarith
  ultimately obtain r rep where
    l: "reduce_repartition dl' ?nb (compute_device_repartition (io_sched_compute_scheduler_weights st) st dl' ?nb) = Some r"
      "fill_repartition dl' (io_sched_compute_scheduler_weights st) st ?nb r = Some rep" "total_of rep \<le> ?nb"
      "\<forall>k. if stat_of st k = 0 then rep_of rep k = 0 else rg_min (effective_range st dl k) \<le> int (rep_of rep k) \<and> int (rep_of rep k) \<le> rg_max (effective_range st dl k)"
      "total_of rep = ?nb \<or> (\<forall>k. stat_of st k > 0 \<longrightarrow> int (rep_of rep k) = rg_max (effective_range st dl k))"
    using loops_spec [OF ok' _ _ assms(2,6,7) refl] unfolding er by blast
  have "compute_number_of_devices st (io_sched_compute_scheduler_weights st) dl m = Some (rep, dl')"
  proof -
    have n: "?nb \<noteq> 0" "\<not> (?nb = 1 \<or> ?nb = 2)" "(?nb < nat m \<and> 2 < ?nb) = (?nb < nat m)" using assms(1) by linarith+
    show ?thesis using l(1,2) unfolding compute_number_of_devices_def Let_def n(3) dl'_def [symmetric] by (simp only: n if_False bind.bind_lunit)
  qed
  then show ?thesis using l(3-5) by blast
qed

definition sample_stats :: io_stats where
  "sample_stats = \<lparr>ios_nb_reads = 7, ios_nb_writes = 2, ios_nb_formats = 0\<rparr>"

definition sample_device_list :: device_list where
  "sample_device_list = \<lparr>dl_technology = ''LTO5'', dl_devices = [0, 1, 2, 3],
     dl_read = \<lparr>rg_min = 1, rg_max = 3\<rparr>, dl_write = \<lparr>rg_min = 1, rg_max = 2\<rparr>, dl_format = \<lparr>rg_min = 1, rg_max = 1\<rparr>\<rparr>"

theorem fair_share_repartition_witness:
  "\<exists>rep dl'. compute_number_of_devices sample_stats (io_sched_compute_scheduler_weights sample_stats) sample_device_list 2 = Some (rep, dl') \<and>
    total_of rep = 4 \<and> 1 \<le> rep_nb_reads rep \<and> 1 \<le> rep_nb_writes rep \<and> rep_nb_formats rep = 0"
proof -
  have "3 \<le> length (dl_devices sample_device_list)" "length (dl_devices sample_device_list) < size_max"
    "range_ok (dl_read sample_device_list)" "range_ok (dl_write sample_device_list)" "range_ok (dl_format sample_device_list)"
    "0 < stats_total sample_stats" "stats_total sample_stats < size_max" "fair_share_min_devices sample_stats sample_device_list = Some 2"
    by (simp_all add: sample_device_list_def sample_stats_def range_ok_def stats_total_def size_max_def fair_share_min_devices_def)
  from fair_share_repartition [OF this] obtain rep dl' where
    r: "compute_number_of_devices sample_stats (io_sched_compute_scheduler_weights sample_stats) sample_device_list 2 = Some (rep, dl')"
      "total_of rep \<le> length (dl_devices sample_device_list)"
      "\<forall>k. if stat_of sample_stats k = 0 then rep_of rep k = 0
         else rg_min (effective_range sample_stats sample_device_list k) \<le> int (rep_of rep k) \<and> int (rep_of rep k) \<le> rg_max (effective_range sample_stats sample_device_list k)"
      "total_of rep = length (dl_devices sample_device_list) \<or>
       (\<forall>k. stat_of sample_stats k > 0 \<longrightarrow> int (rep_of rep k) = rg_max (effective_range sample_stats sample_device_list k))"
    by blast
  have e: "effective_range sample_stats sample_device_list k = range_of sample_device_list k" for k
    by (simp add: effective_range_def scarce_def sample_device_list_def sample_stats_def kinds_def)
  have s: "stat_of sample_stats IO_REQ_READ = 7" "stat_of sample_stats IO_REQ_WRITE = 2" "stat_of sample_stats IO_REQ_FORMAT = 0"
    "range_of sample_device_list IO_REQ_READ = \<lparr>rg_min = 1, rg_max = 3\<rparr>" "range_of sample_device_list IO_REQ_WRITE = \<lparr>rg_min = 1, rg_max = 2\<rparr>"
    "length (dl_devices sample_device_list) = 4"
    by (simp_all add: sample_stats_def sample_device_list_def)
  have b: "1 \<le> rep_nb_reads rep" "1 \<le> rep_nb_writes rep" "rep_nb_formats rep = 0"
    using spec [OF r(3), of IO_REQ_READ] spec [OF r(3), of IO_REQ_WRITE] spec [OF r(3), of IO_REQ_FORMAT]
    by (simp_all add: e s del: stat_of.simps range_of.simps)
  have "total_of rep = 4"
    using r(4)
  proof
    assume "\<forall>k. stat_of sample_stats k > 0 \<longrightarrow> int (rep_of rep k) = rg_max (effective_range sample_stats sample_device_list k)"
    from spec [OF this, of IO_REQ_READ] spec [OF this, of IO_REQ_WRITE] have "rep_nb_reads rep = 3" "rep_nb_writes rep = 2"
      by (simp_all add: e s del: stat_of.simps range_of.simps)
    then show ?thesis using r(2) by (simp add: total_of_def s)
  qed (simp add: s)
  with b show ?thesis using r(1) by blast
qed

end
