(* ===== verification/Lrs_State.thy ===== *)
theory Lrs_State
  imports Lrs_Repartition Lrs_Priority Io_Copy
begin

text \<open>
  The state of a scheduler of the LRS and what it reads of it to choose a medium and a device: searches and
  tests on the devices (\<^verbatim>\<open>src/lrs/lrs_utils.c\<close>, \<^verbatim>\<open>src/lrs/lrs_sched.c\<close>), the locks of the media and the
  policies of the selection of a device. The media cache, the database and the locks it keeps, the compatibility of the
  models and the clock are parameters (\<open>lrs_env\<close>) that act on a world \<open>'w\<close>. The result \<open>None\<close> is undefined
  behaviour or a call of \<^verbatim>\<open>abort\<close>. A device and a medium are locked for each access, and the model runs the
  scheduler's thread alone.
\<close>

subsection \<open>State\<close>

record queue_element =
  qe_reqc :: nat
  qe_num_media_allocated :: size_t

record io_scheduler =
  is_type :: io_request_type
  is_devices :: "nat list"
  is_queue :: "queue_element list"

record io_sched_handle =
  ih_read :: io_scheduler
  ih_write :: io_scheduler
  ih_format :: io_scheduler
  ih_stats :: io_stats
  ih_global :: "nat list"

record 'w lrs_state =
  st_dev :: "nat \<Rightarrow> lrs_dev"
  st_req :: "nat \<Rightarrow> req_container"
  st_med :: "nat \<Rightarrow> media_info"
  st_hdl :: io_sched_handle
  st_world :: 'w

text \<open>The media cache may store a new medium at a fresh address.\<close>

record 'w lrs_env =
  le_conf :: lrs_conf
  le_hostname :: string
  le_owner :: int
  le_compat_models :: "string option \<Rightarrow> string option \<Rightarrow> rc \<times> bool option"
  le_acquire :: "pho_id \<Rightarrow> (nat \<Rightarrow> media_info) \<times> 'w \<Rightarrow> (rc + nat) \<times> (nat \<Rightarrow> media_info) \<times> 'w"
  le_lock_status :: "pho_id \<Rightarrow> 'w \<Rightarrow> (rc + pho_lock) \<times> 'w"
  le_lock_take :: "pho_id \<Rightarrow> 'w \<Rightarrow> rc \<times> 'w"
  le_unlock :: "pho_id \<Rightarrow> 'w \<Rightarrow> 'w"
  le_clock :: "'w \<Rightarrow> timespec option \<times> 'w"
  le_media_get :: "rsc_family \<Rightarrow> string option \<Rightarrow> string option \<Rightarrow> string_array \<Rightarrow> bool \<Rightarrow> 'w \<Rightarrow> (rc \<times> media_info list) \<times> 'w"
  le_medium_health :: "pho_id \<Rightarrow> 'w \<Rightarrow> (rc + size_t) \<times> 'w"
  le_insert :: "media_info \<Rightarrow> (nat \<Rightarrow> media_info) \<times> 'w \<Rightarrow> (rc + nat) \<times> (nat \<Rightarrow> media_info) \<times> 'w"

definition med_id :: "media_info \<Rightarrow> pho_id" where
  "med_id m = rsc_id (med_rsc m)"

definition dev_id :: "lrs_dev \<Rightarrow> pho_id" where
  "dev_id dev = rsc_id (dev_rsc (ld_dss_dev_info dev))"

definition set_dev :: "nat \<Rightarrow> lrs_dev \<Rightarrow> 'w lrs_state \<Rightarrow> 'w lrs_state" where
  "set_dev d dev st = st\<lparr>st_dev := (st_dev st)(d := dev)\<rparr>"

definition set_req :: "nat \<Rightarrow> req_container \<Rightarrow> 'w lrs_state \<Rightarrow> 'w lrs_state" where
  "set_req q r st = st\<lparr>st_req := (st_req st)(q := r)\<rparr>"

definition set_lock :: "nat \<Rightarrow> pho_lock \<Rightarrow> 'w lrs_state \<Rightarrow> 'w lrs_state" where
  "set_lock m l st = st\<lparr>st_med := (st_med st)(m := (st_med st m)\<lparr>med_lock := l\<rparr>)\<rparr>"

subsection \<open>The media of a request\<close>

definition reqc_get_medium_to_alloc :: "req_container \<Rightarrow> size_t \<Rightarrow> nat option option" where
  "reqc_get_medium_to_alloc r index =
     (if pho_request_is_format r then Some (rqc_medium_to_format r)
      else if pho_request_is_read r \<or> pho_request_is_write r then
        if index < length (rqc_media r) then Some (alloc_medium (rqc_media r ! index)) else None
      else None)"

text \<open>A store through the pointer that \<open>reqc_get_medium_to_alloc\<close> returns.\<close>

definition reqc_set_medium_to_alloc :: "size_t \<Rightarrow> nat option \<Rightarrow> req_container \<Rightarrow> req_container option" where
  "reqc_set_medium_to_alloc index m r =
     (if pho_request_is_format r then Some (r\<lparr>rqc_medium_to_format := m\<rparr>)
      else if pho_request_is_read r \<or> pho_request_is_write r then
        if index < length (rqc_media r) then Some (r\<lparr>rqc_media := (rqc_media r)[index := (rqc_media r ! index)\<lparr>alloc_medium := m\<rparr>]\<rparr>) else None
      else None)"

definition get_sub_request_medium :: "'w lrs_state \<Rightarrow> sub_request \<Rightarrow> pho_id option option" where
  "get_sub_request_medium st sr =
     (let r = st_req st (sub_reqc sr) in
      if pho_request_is_write r \<or> pho_request_is_read r then
        if sub_medium_index sr < length (rqc_media r)
        then Some (map_option (\<lambda>m. med_id (st_med st m)) (alloc_medium (rqc_media r ! sub_medium_index sr)))
        else None
      else Some (map_option (\<lambda>m. med_id (st_med st m)) (rqc_medium_to_format r)))"

definition reqc_pho_id_from_index :: "req_container \<Rightarrow> size_t \<Rightarrow> pho_id option" where
  "reqc_pho_id_from_index r index =
     (case rqc_req r of
        ReadAlloc _ \<Rightarrow> if index < length (rml_media (rqc_media_list r)) then Some (rml_media (rqc_media_list r) ! index) else None
      | Format fq \<Rightarrow> Some (fq_med_id fq)
      | _ \<Rightarrow> None)"

subsection \<open>Searches\<close>

definition holds_medium :: "'w lrs_state \<Rightarrow> lrs_dev \<Rightarrow> string \<Rightarrow> string \<Rightarrow> bool" where
  "holds_medium st dev n l \<longleftrightarrow>
     (case ld_dss_media_info dev of
        None \<Rightarrow> False
      | Some m \<Rightarrow> name (med_id (st_med st m)) = n \<and> library (med_id (st_med st m)) = l)"

fun search_loaded_medium :: "'w lrs_state \<Rightarrow> nat list \<Rightarrow> string \<Rightarrow> string \<Rightarrow> nat option" where
  "search_loaded_medium st [] n l = None"
| "search_loaded_medium st (d # ds) n l =
     (let dev = st_dev st d in
      if ld_op_status dev \<noteq> PHO_DEV_OP_ST_MOUNTED \<and> ld_op_status dev \<noteq> PHO_DEV_OP_ST_LOADED then search_loaded_medium st ds n l
      else if holds_medium st dev n l then Some d
      else search_loaded_medium st ds n l)"

fun search_in_use_medium :: "lrs_conf \<Rightarrow> 'w lrs_state \<Rightarrow> nat list \<Rightarrow> string \<Rightarrow> string \<Rightarrow> (nat option \<times> bool) option" where
  "search_in_use_medium cf st [] n l = Some (None, False)"
| "search_in_use_medium cf st (d # ds) n l = do {
     let dev = st_dev st d;
     sub \<leftarrow> (case ld_sub_request dev of None \<Rightarrow> Some None | Some sr \<Rightarrow> get_sub_request_medium st sr);
     if (case sub of None \<Rightarrow> False | Some i \<Rightarrow> name i = n \<and> library i = l) then Some (Some d, False)
     else if ld_op_status dev \<noteq> PHO_DEV_OP_ST_EMPTY \<and> holds_medium st dev n l then Some (Some d, dev_is_sched_ready cf dev)
     else search_in_use_medium cf st ds n l
   }"

text \<open>The medium of each device of the request but one; \<open>-EINVAL\<close> when one has none. The code acquires each medium for the
  test and releases it after: the media are held by the request or by the device, and the cache returns them (\<open>Pho_Cache\<close>).\<close>

fun medium_in_devices_from :: "'w lrs_state \<Rightarrow> pho_id \<Rightarrow> req_container \<Rightarrow> size_t \<Rightarrow> size_t \<Rightarrow> nat \<Rightarrow> (rc + bool) option" where
  "medium_in_devices_from st i r not_alloc k 0 = Some (Inr False)"
| "medium_in_devices_from st i r not_alloc k (Suc n) =
     (if k = not_alloc then medium_in_devices_from st i r not_alloc (Suc k) n
      else if \<not> k < length (rqc_media r) then None
      else do {
        prev \<leftarrow> (case alloc_medium (rqc_media r ! k) of
            Some m \<Rightarrow> Some (Some m)
          | None \<Rightarrow> if k < length (rqc_devices r) then
                case rqc_devices r ! k of None \<Rightarrow> None | Some d \<Rightarrow> Some (ld_dss_media_info (st_dev st d))
              else None);
        case prev of
          None \<Rightarrow> Some (Inl (- EINVAL))
        | Some m \<Rightarrow> if pho_id_equal i (med_id (st_med st m)) then Some (Inr True)
                    else medium_in_devices_from st i r not_alloc (Suc k) n
      })"

definition medium_in_devices :: "'w lrs_state \<Rightarrow> pho_id \<Rightarrow> req_container \<Rightarrow> size_t \<Rightarrow> size_t \<Rightarrow> (rc + bool) option" where
  "medium_in_devices st i r n_med not_alloc = medium_in_devices_from st i r not_alloc 0 n_med"

end
