(* ===== verification/Lrs_Select.thy ===== *)
theory Lrs_Select
  imports Lrs_State
begin

text \<open>
  The choice of a medium and of a device (\<^verbatim>\<open>src/lrs/lrs_sched.c\<close>): the locks of the media, the tests of their
  permissions and states, the policies that choose among the devices, and the choice of a medium for a write among those
  that the database returned.
\<close>

subsection \<open>Locks\<close>

definition wrong_lock :: "pho_lock \<Rightarrow> pho_lock" where
  "wrong_lock l = l\<lparr>lk_hostname := None, lk_owner := -1, lk_timestamp := timeval_zero\<rparr>"

definition clean_lock :: "pho_lock \<Rightarrow> pho_lock" where
  "clean_lock l = the (pho_lock_clean (Some l))"

definition take_and_update_lock :: "'w lrs_env \<Rightarrow> pho_id \<Rightarrow> pho_lock \<Rightarrow> 'w \<Rightarrow> rc \<times> pho_lock \<times> 'w" where
  "take_and_update_lock env i lock w =
     (let lock = clean_lock lock;
          (rc, w) = le_lock_take env i w;
          (status, w) = le_lock_status env i w
      in case status of
           Inr l \<Rightarrow> (rc, l, w)
         | Inl rc2 \<Rightarrow> if rc = 0 then (rc2, wrong_lock lock, le_unlock env i w) else (rc, wrong_lock lock, w))"

definition check_renew_owner :: "'w lrs_env \<Rightarrow> pho_id \<Rightarrow> pho_lock \<Rightarrow> 'w \<Rightarrow> rc \<times> pho_lock \<times> 'w" where
  "check_renew_owner env i lock w = (if lk_owner lock \<noteq> le_owner env then take_and_update_lock env i lock w else (0, lock, w))"

text \<open>Called with the name of the host of the lock set.\<close>

definition check_renew_lock :: "'w lrs_env \<Rightarrow> pho_id \<Rightarrow> pho_lock \<Rightarrow> 'w \<Rightarrow> (rc \<times> pho_lock \<times> 'w) option" where
  "check_renew_lock env i lock w =
     (case lk_hostname lock of
        None \<Rightarrow> None
      | Some h \<Rightarrow> Some (if h \<noteq> le_hostname env then (- EALREADY, lock, w) else check_renew_owner env i lock w))"

definition ensure_medium_lock :: "'w lrs_env \<Rightarrow> nat \<Rightarrow> 'w lrs_state \<Rightarrow> (rc \<times> 'w lrs_state) option" where
  "ensure_medium_lock env m st =
     (let i = med_id (st_med st m); lock = med_lock (st_med st m);
          (rc, lock, w) =
            (if lk_hostname lock = None then
               case le_lock_status env i (st_world st) of
                 (Inr l, w) \<Rightarrow> (0, l, w)
               | (Inl rc, w) \<Rightarrow> (if rc = - ENOLCK then 0 else rc, lock, w)
             else (0, lock, st_world st))
      in if rc \<noteq> 0 then Some (rc, set_lock m lock (st\<lparr>st_world := w\<rparr>))
         else map_option (\<lambda>(rc, lock, w). (rc, set_lock m lock (st\<lparr>st_world := w\<rparr>)))
           (if lk_hostname lock \<noteq> None then check_renew_lock env i lock w else Some (take_and_update_lock env i lock w)))"

text \<open>The result of the check of the lock is not returned.\<close>

definition sched_fill_media_info :: "'w lrs_env \<Rightarrow> pho_id \<Rightarrow> 'w lrs_state \<Rightarrow> ((rc + nat) \<times> 'w lrs_state) option" where
  "sched_fill_media_info env i st =
     (case le_acquire env i (st_med st, st_world st) of
        (Inl rc, med, w) \<Rightarrow> Some (Inl rc, st\<lparr>st_med := med, st_world := w\<rparr>)
      | (Inr m, med, w) \<Rightarrow>
          let st = st\<lparr>st_med := med, st_world := w\<rparr>
          in if lk_hostname (med_lock (st_med st m)) = None then Some (Inr m, st)
             else map_option (\<lambda>(_, lock, w). (Inr m, set_lock m lock (st\<lparr>st_world := w\<rparr>)))
               (check_renew_lock env (med_id (st_med st m)) (med_lock (st_med st m)) w))"

subsection \<open>Permissions and state of a medium\<close>

definition check_medium_status :: "media_info \<Rightarrow> rc" where
  "check_medium_status m =
     (if mfs_status (med_fs m) = PHO_FS_STATUS_BLANK then - EINVAL
      else if rsc_adm_status (med_rsc m) \<noteq> PHO_RSC_ADM_ST_UNLOCKED then - EPERM
      else 0)"

definition check_medium_on_read_alloc :: "media_info \<Rightarrow> rc" where
  "check_medium_on_read_alloc m = (if \<not> op_get (med_flags m) then - EPERM else 0)"

definition check_medium_on_delete_alloc :: "media_info \<Rightarrow> rc" where
  "check_medium_on_delete_alloc m = (if \<not> op_delete (med_flags m) then - EPERM else 0)"

definition check_medium_permission_and_status :: "req_container \<Rightarrow> media_info \<Rightarrow> rc" where
  "check_medium_permission_and_status r m =
     (if mfs_status (med_fs m) = PHO_FS_STATUS_IMPORTING \<and> \<not> pho_request_is_read r then - EINVAL
      else case rqc_req r of
        ReadAlloc rq \<Rightarrow>
          if mfs_status (med_fs m) \<noteq> PHO_FS_STATUS_IMPORTING then
            let rc = (case rq_operation rq of
                        PHO_READ_TARGET_ALLOC_OP_READ \<Rightarrow> check_medium_on_read_alloc m
                      | PHO_READ_TARGET_ALLOC_OP_DELETE \<Rightarrow> check_medium_on_delete_alloc m)
            in if rc \<noteq> 0 then rc else check_medium_status m
          else 0
      | Format fq \<Rightarrow>
          if (family (med_id m) \<noteq> PHO_RSC_TAPE \<or> \<not> fq_force fq) \<and> mfs_status (med_fs m) \<noteq> PHO_FS_STATUS_BLANK then - EINVAL
          else 0
      | _ \<Rightarrow> 0)"

text \<open>The medium is returned even when the request may not use it.\<close>

definition fetch_and_check_medium_info :: "'w lrs_env \<Rightarrow> req_container \<Rightarrow> size_t \<Rightarrow> 'w lrs_state \<Rightarrow> (rc \<times> nat option \<times> 'w lrs_state) option" where
  "fetch_and_check_medium_info env r index st = do {
     i \<leftarrow> reqc_pho_id_from_index r index;
     (res, st) \<leftarrow> sched_fill_media_info env i st;
     case res of
       Inl rc \<Rightarrow> Some (rc, None, st)
     | Inr m \<Rightarrow>
         let rc = check_medium_permission_and_status r (st_med st m)
         in if rc \<noteq> 0 then Some (rc, Some m, st) else Some (0, Some m, set_lock m (clean_lock (med_lock (st_med st m))) st)
   }"

definition write_avoids_medium :: "walloc_req option \<Rightarrow> media_info \<Rightarrow> bool" where
  "write_avoids_medium wreq m =
     (case wreq of None \<Rightarrow> False | Some wq \<Rightarrow> list_ex (\<lambda>i. pho_id_equal i (med_id m)) (wq_avoid_med wq))"

definition medium_is_write_compatible :: "media_info \<Rightarrow> string option \<Rightarrow> string_array \<Rightarrow> walloc_req option \<Rightarrow> bool \<Rightarrow> bool option" where
  "medium_is_write_compatible m grouping tags wreq empty_medium =
     (if write_avoids_medium wreq m then Some False
      else if rsc_adm_status (med_rsc m) \<noteq> PHO_RSC_ADM_ST_UNLOCKED then Some False
      else if empty_medium \<and> mfs_status (med_fs m) \<noteq> PHO_FS_STATUS_EMPTY then Some False
      else if mfs_status (med_fs m) = PHO_FS_STATUS_FULL then Some False
      else if \<not> op_put (med_flags m) then Some False
      else do {
        tags_ok \<leftarrow> (if sa_count tags > 0 then string_array_in (med_tags m) tags else Some True);
        if \<not> tags_ok then Some False
        else case grouping of None \<Rightarrow> Some True | Some g \<Rightarrow> string_exists (med_groupings m) (Str g)
      })"

subsection \<open>Compatibility\<close>

text \<open>The answer is not stored when the libraries differ.\<close>

definition tape_drive_compat :: "'w lrs_env \<Rightarrow> media_info \<Rightarrow> lrs_dev \<Rightarrow> rc \<times> bool option" where
  "tape_drive_compat env m dev =
     (if library (med_id m) \<noteq> library (dev_id dev) then (0, None)
      else le_compat_models env (rsc_model (med_rsc m)) (rsc_model (dev_rsc (ld_dss_dev_info dev))))"

text \<open>A device of \<open>selected_devs\<close> before \<open>n\<close> and other than \<open>not_selected\<close> with the identifier \<open>i\<close>.\<close>

fun already_selected :: "'w lrs_state \<Rightarrow> pho_id \<Rightarrow> nat option list \<Rightarrow> size_t \<Rightarrow> nat \<Rightarrow> nat \<Rightarrow> bool option" where
  "already_selected st i devs not_selected j 0 = Some False"
| "already_selected st i devs not_selected j (Suc n) =
     (if j = not_selected then already_selected st i devs not_selected (Suc j) n
      else if \<not> j < length devs then None
      else case devs ! j of
        None \<Rightarrow> None
      | Some d \<Rightarrow> if pho_id_equal i (dev_id (st_dev st d)) then Some True else already_selected st i devs not_selected (Suc j) n)"

fun compatible_drive_exists :: "'w lrs_env \<Rightarrow> rsc_family \<Rightarrow> 'w lrs_state \<Rightarrow> nat list \<Rightarrow> media_info option \<Rightarrow> nat option list \<Rightarrow> size_t \<Rightarrow> size_t \<Rightarrow> bool \<Rightarrow> int \<Rightarrow> bool option" where
  "compatible_drive_exists env sched_family st [] pmedia devs n not_selected prevent_duplicate requester = Some False"
| "compatible_drive_exists env sched_family st (d # ds) pmedia devs n not_selected prevent_duplicate requester =
     (let dev = st_dev st d; rest = compatible_drive_exists env sched_family st ds pmedia devs n not_selected prevent_duplicate requester in
      if dev_is_failed dev \<or> \<not> thread_is_running dev then rest
      else if prevent_duplicate \<and> (case ld_sub_request dev of None \<Rightarrow> False | Some sr \<Rightarrow> rqc_socket_id (st_req st (sub_reqc sr)) = requester) then rest
      else do {
        sel \<leftarrow> already_selected st (dev_id dev) devs not_selected 0 n;
        if sel then rest
        else case (sched_family, pmedia) of
          (PHO_RSC_TAPE, Some m) \<Rightarrow>
            if family (med_id m) = PHO_RSC_DIR \<or> family (med_id m) = PHO_RSC_RADOS_POOL then
              if pho_id_equal (dev_id dev) (med_id m) then rest else Some True
            else
              let (rc, answer) = tape_drive_compat env m dev
              in if rc \<noteq> 0 then rest else if answer = Some True then Some True else rest
        | _ \<Rightarrow> Some True
      })"

text \<open>Here the answer is read uninitialised when the libraries differ.\<close>

fun count_suitable_devices :: "'w lrs_env \<Rightarrow> 'w lrs_state \<Rightarrow> media_info \<Rightarrow> nat list \<Rightarrow> nat option" where
  "count_suitable_devices env st m [] = Some 0"
| "count_suitable_devices env st m (d # ds) =
     (let dev = st_dev st d in
      if dev_is_failed dev \<or> \<not> thread_is_running dev then count_suitable_devices env st m ds
      else case tape_drive_compat env m dev of (rc, answer) \<Rightarrow>
        if rc \<noteq> 0 then count_suitable_devices env st m ds
        else case answer of
          None \<Rightarrow> None
        | Some c \<Rightarrow> map_option (\<lambda>n. if c then Suc n else n) (count_suitable_devices env st m ds))"

subsection \<open>The choice of a device\<close>

text \<open>The reservation of a medium that was located; \<open>lock_expirancy\<close> is in milliseconds.\<close>

definition check_locate_expirancy :: "'w lrs_env \<Rightarrow> pho_id \<Rightarrow> int \<Rightarrow> 'w \<Rightarrow> bool \<times> 'w" where
  "check_locate_expirancy env i lock_expirancy w =
     (case le_lock_status env i w of
        (Inl _, w) \<Rightarrow> (False, w)
      | (Inr lock, w) \<Rightarrow>
          let nsec = tval_usec (lk_last_locate lock) * 1000 + (lock_expirancy smod 1000) * 1000000;
              sec = tval_sec (lk_last_locate lock) + lock_expirancy sdiv 1000;
              expire = (if nsec \<ge> 1000000000 then \<lparr>tv_sec = sec + 1, tv_nsec = nsec smod 1000000000\<rparr>
                        else \<lparr>tv_sec = sec, tv_nsec = nsec\<rparr>);
              (now, w) = le_clock env w
          in (\<not> is_past now expire, w))"

type_synonym 'w device_select_func = "'w lrs_state \<Rightarrow> size_t \<Rightarrow> nat \<Rightarrow> nat option \<Rightarrow> (rc \<times> nat option) option"

definition spc_free :: "'w lrs_state \<Rightarrow> nat \<Rightarrow> int" where
  "spc_free st m = phys_spc_free (med_stats (st_med st m))"

definition select_first_fit :: "'w device_select_func" where
  "select_first_fit st required_size d selected =
     (case ld_dss_media_info (st_dev st d) of
        None \<Rightarrow> Some (1, selected)
      | Some m \<Rightarrow> Some (if c_size (spc_free st m) \<ge> required_size then (0, Some d) else (1, selected)))"

definition select_best_fit :: "'w device_select_func" where
  "select_best_fit st required_size d selected =
     (case ld_dss_media_info (st_dev st d) of
        None \<Rightarrow> Some (1, selected)
      | Some m \<Rightarrow>
          if c_size (spc_free st m) < required_size then Some (1, selected)
          else do {
            better \<leftarrow> (case selected of
                None \<Rightarrow> Some True
              | Some s \<Rightarrow> map_option (\<lambda>sm. spc_free st m < spc_free st sm) (ld_dss_media_info (st_dev st s)));
            Some (if better then (if required_size = c_size (spc_free st m) then 0 else 1, Some d) else (1, selected))
          })"

definition select_empty_loaded_mount :: "'w device_select_func" where
  "select_empty_loaded_mount st required_size d selected =
     Some (if ld_op_status (st_dev st d) = PHO_DEV_OP_ST_EMPTY then (0, Some d)
           else case selected of
             None \<Rightarrow> (1, Some d)
           | Some s \<Rightarrow>
               if ld_op_status (st_dev st s) = PHO_DEV_OP_ST_MOUNTED \<and> ld_op_status (st_dev st d) = PHO_DEV_OP_ST_LOADED then (1, Some d)
               else (1, selected))"

definition get_dev_policy :: "lrs_conf \<Rightarrow> 'w device_select_func option" where
  "get_dev_policy cf =
     (case cf_policy cf of
        None \<Rightarrow> None
      | Some p \<Rightarrow> if p = ''best_fit'' then Some select_best_fit else if p = ''first_fit'' then Some select_first_fit else None)"

text \<open>The arguments of \<^verbatim>\<open>dev_picker\<close>.\<close>

record 'w pick =
  pk_op_st :: dev_op_status
  pk_library :: "string option"
  pk_grouping :: "string option"
  pk_select :: "'w device_select_func"
  pk_required_size :: size_t
  pk_tags :: string_array
  pk_medium :: "nat option"
  pk_is_write :: bool
  pk_wreq :: "walloc_req option"
  pk_empty_medium :: bool

datatype verdict = Use | Skip | Give_Up

definition medium_verdict :: "'w lrs_env \<Rightarrow> 'w pick \<Rightarrow> 'w lrs_state \<Rightarrow> lrs_dev \<Rightarrow> verdict option" where
  "medium_verdict env pk st dev =
     (case pk_medium pk of
        None \<Rightarrow>
          (case ld_dss_media_info dev of
             Some m \<Rightarrow>
               if pk_is_write pk
               then map_option (\<lambda>ok. if ok then Use else Skip)
                      (medium_is_write_compatible (st_med st m) (pk_grouping pk) (pk_tags pk) (pk_wreq pk) (pk_empty_medium pk))
               else Some Use
           | None \<Rightarrow> Some Use)
      | Some m \<Rightarrow> do {
          ok \<leftarrow> (if pk_is_write pk then medium_is_write_compatible (st_med st m) (pk_grouping pk) (pk_tags pk) (pk_wreq pk) (pk_empty_medium pk)
                 else Some True);
          if \<not> ok then Some Skip
          else case tape_drive_compat env (st_med st m) dev of (rc, answer) \<Rightarrow>
            if rc \<noteq> 0 then Some Give_Up
            else map_option (\<lambda>c. if c then Use else Skip) answer
        })"

fun dev_picker_from :: "'w lrs_env \<Rightarrow> 'w pick \<Rightarrow> nat list \<Rightarrow> nat option \<Rightarrow> bool \<Rightarrow> 'w lrs_state \<Rightarrow> (nat option \<times> bool \<times> 'w lrs_state) option" where
  "dev_picker_from env pk [] selected one st = Some (selected, one, st)"
| "dev_picker_from env pk (d # ds) selected one st =
     (let dev = st_dev st d in
      if \<not> dev_is_sched_ready (le_conf env) dev then dev_picker_from env pk ds selected one st
      else
        let (reserved, w) =
              (case ld_dss_media_info dev of
                 Some m \<Rightarrow>
                   if cf_locate_lock_expirancy (le_conf env) \<noteq> 0
                   then check_locate_expirancy env (med_id (st_med st m)) (cf_locate_lock_expirancy (le_conf env)) (st_world st)
                   else (False, st_world st)
               | None \<Rightarrow> (False, st_world st));
            st = st\<lparr>st_world := w\<rparr>
        in if reserved then dev_picker_from env pk ds selected one st
           else if pk_op_st pk \<noteq> PHO_DEV_OP_ST_UNSPEC \<and> ld_op_status dev \<noteq> pk_op_st pk then dev_picker_from env pk ds selected True st
           else if (case pk_library pk of None \<Rightarrow> False | Some l \<Rightarrow> l \<noteq> library (dev_id dev)) then dev_picker_from env pk ds selected True st
           else do {
             v \<leftarrow> medium_verdict env pk st dev;
             case v of
               Skip \<Rightarrow> dev_picker_from env pk ds selected True st
             | Give_Up \<Rightarrow> Some (None, True, st)
             | Use \<Rightarrow> do {
                 (rc, selected) \<leftarrow> pk_select pk st (pk_required_size pk) d selected;
                 if rc < 0 then Some (None, True, st)
                 else if rc = 0 then Some (selected, True, st)
                 else dev_picker_from env pk ds selected True st
               }
           })"

definition dev_picker :: "'w lrs_env \<Rightarrow> 'w pick \<Rightarrow> nat list \<Rightarrow> 'w lrs_state \<Rightarrow> (nat option \<times> bool \<times> 'w lrs_state) option" where
  "dev_picker env pk devices st = dev_picker_from env pk devices None False st"

subsection \<open>The choice of a medium for a write\<close>

record candidates =
  ca_avail_size :: size_t
  ca_split :: "media_info option"
  ca_whole :: "media_info option"

definition med_free :: "media_info \<Rightarrow> int" where
  "med_free m = phys_spc_free (med_stats m)"

definition add_candidate :: "bool \<Rightarrow> size_t \<Rightarrow> media_info \<Rightarrow> candidates \<Rightarrow> candidates" where
  "add_candidate no_split required_size cur ca =
     (let ca = (if \<not> no_split \<and> (case ca_split ca of None \<Rightarrow> True | Some b \<Rightarrow> med_free cur > med_free b) then ca\<lparr>ca_split := Some cur\<rparr> else ca)
      in if c_size (med_free cur) < required_size then ca
         else if (case ca_whole ca of None \<Rightarrow> True | Some b \<Rightarrow> med_free cur < med_free b) then ca\<lparr>ca_whole := Some cur\<rparr>
         else ca)"

text \<open>The loop over the media that the database returned; \<open>r\<close> is the request, \<open>type\<close> the type of the scheduler.\<close>

fun choose_medium :: "'w lrs_env \<Rightarrow> io_request_type \<Rightarrow> 'w lrs_state \<Rightarrow> walloc_req \<Rightarrow> req_container \<Rightarrow> size_t \<Rightarrow> size_t \<Rightarrow> size_t \<Rightarrow>
  media_info list \<Rightarrow> candidates \<Rightarrow> 'w \<Rightarrow> ((rc + candidates) \<times> 'w) option" where
  "choose_medium env type st wq r n_med not_alloc required_size [] ca w = Some (Inr ca, w)"
| "choose_medium env type st wq r n_med not_alloc required_size (cur # rest) ca w =
     (if write_avoids_medium (Some wq) cur then choose_medium env type st wq r n_med not_alloc required_size rest ca w
      else do {
        booked \<leftarrow> medium_in_devices st (med_id cur) r n_med not_alloc;
        case booked of
          Inl _ \<Rightarrow> Some (Inl (- EAGAIN), w)
        | Inr True \<Rightarrow> choose_medium env type st wq r n_med not_alloc required_size rest ca w
        | Inr False \<Rightarrow>
            if wq_no_split wq \<and> c_size (med_free cur) \<le> required_size
            then choose_medium env type st wq r n_med not_alloc required_size rest ca w
            else do {
              let ca = ca\<lparr>ca_avail_size := size_add (ca_avail_size ca) (c_size (med_free cur))\<rparr>;
              (rc, lock, w) \<leftarrow> (if lk_hostname (med_lock cur) \<noteq> None then check_renew_lock env (med_id cur) (med_lock cur) w
                              else Some (0, med_lock cur, w));
              let cur = cur\<lparr>med_lock := lock\<rparr>;
              if rc \<noteq> 0 then choose_medium env type st wq r n_med not_alloc required_size rest ca w
              else do {
                (dev, sched_ready) \<leftarrow> search_in_use_medium (le_conf env) st (ih_global (st_hdl st)) (name (med_id cur)) (library (med_id cur));
                if (case dev of None \<Rightarrow> False | Some d \<Rightarrow> \<not> sched_ready \<or> type \<notin> ld_io_request_type (st_dev st d))
                then choose_medium env type st wq r n_med not_alloc required_size rest ca w
                else choose_medium env type st wq r n_med not_alloc required_size rest (add_candidate (wq_no_split wq) required_size cur ca) w
              }
            }
      })"

definition chosen_candidate :: "candidates \<Rightarrow> media_info option" where
  "chosen_candidate ca = (case ca_whole ca of Some m \<Rightarrow> Some m | None \<Rightarrow> ca_split ca)"

text \<open>The result, whether another grouping has to be tried and the medium stored.\<close>

definition sched_select_medium :: "'w lrs_env \<Rightarrow> io_request_type \<Rightarrow> size_t \<Rightarrow> walloc_req \<Rightarrow> string option \<Rightarrow> string_array \<Rightarrow> req_container \<Rightarrow>
  size_t \<Rightarrow> size_t \<Rightarrow> 'w lrs_state \<Rightarrow> (rc \<times> bool \<times> nat option \<times> 'w lrs_state) option" where
  "sched_select_medium env type required_size wq grouping tags r n_med not_alloc st =
     (case wq_media wq of
        [] \<Rightarrow> None
      | first # _ \<Rightarrow> do {
          let ((rc, media), w) = le_media_get env (wq_family wq) (wq_library wq) grouping tags (wm_empty_medium first) (st_world st);
          let st = st\<lparr>st_world := w\<rparr>;
          if media = [] then Some (- ENOSPC, grouping \<noteq> None, None, st)
          else if rc \<noteq> 0 then Some (rc, False, None, st)
          else do {
            (res, w) \<leftarrow> choose_medium env type st wq r n_med not_alloc required_size media \<lparr>ca_avail_size = 0, ca_split = None, ca_whole = None\<rparr> w;
            let st = st\<lparr>st_world := w\<rparr>;
            case res of
              Inl rc \<Rightarrow> Some (rc, False, None, st)
            | Inr ca \<Rightarrow>
                if ca_avail_size ca < required_size then Some (- ENOSPC, grouping \<noteq> None, None, st)
                else case chosen_candidate ca of
                  None \<Rightarrow> Some (- EAGAIN, grouping \<noteq> None, None, st)
                | Some m \<Rightarrow>
                    let m = m\<lparr>med_lock := clean_lock (med_lock m)\<rparr>
                    in case le_medium_health env (med_id m) (st_world st) of
                         (Inl rc, w) \<Rightarrow> Some (rc, False, None, st\<lparr>st_world := w\<rparr>)
                       | (Inr health, w) \<Rightarrow>
                           case le_insert env (m\<lparr>med_health := health\<rparr>) (st_med st, w) of
                             (Inl rc, med, w) \<Rightarrow> Some (rc, False, None, st\<lparr>st_med := med, st_world := w\<rparr>)
                           | (Inr a, med, w) \<Rightarrow> Some (0, False, Some a, st\<lparr>st_med := med, st_world := w\<rparr>)
          }
        })"


subsection \<open>The best fit\<close>

text \<open>A device that a request without a chosen medium may use, with a medium of enough free space.\<close>

definition fits :: "'w lrs_env \<Rightarrow> 'w pick \<Rightarrow> 'w lrs_state \<Rightarrow> nat \<Rightarrow> bool" where
  "fits env pk st d \<longleftrightarrow>
     dev_is_sched_ready (le_conf env) (st_dev st d) \<and>
     (pk_op_st pk = PHO_DEV_OP_ST_UNSPEC \<or> ld_op_status (st_dev st d) = pk_op_st pk) \<and>
     (case pk_library pk of None \<Rightarrow> True | Some l \<Rightarrow> l = library (dev_id (st_dev st d))) \<and>
     medium_verdict env pk st (st_dev st d) = Some Use \<and>
     (case ld_dss_media_info (st_dev st d) of None \<Rightarrow> False | Some m \<Rightarrow> pk_required_size pk \<le> c_size (spc_free st m))"

definition dev_free :: "'w lrs_state \<Rightarrow> nat \<Rightarrow> int" where
  "dev_free st d = (case ld_dss_media_info (st_dev st d) of None \<Rightarrow> 0 | Some m \<Rightarrow> spc_free st m)"

definition best_of :: "'w lrs_env \<Rightarrow> 'w pick \<Rightarrow> 'w lrs_state \<Rightarrow> nat set \<Rightarrow> nat option \<Rightarrow> bool" where
  "best_of env pk st D res \<longleftrightarrow>
     (case res of
        None \<Rightarrow> \<forall>d \<in> D. \<not> fits env pk st d
      | Some d \<Rightarrow> d \<in> D \<and> fits env pk st d \<and> (\<forall>e \<in> D. fits env pk st e \<longrightarrow> dev_free st d \<le> dev_free st e))"

lemma best_of_skip: "\<not> fits env pk st d \<Longrightarrow> best_of env pk st D res \<Longrightarrow> best_of env pk st (insert d D) res"
  by (auto simp: best_of_def split: option.splits)

lemma best_of_worse:
  "best_of env pk st D res \<Longrightarrow> d \<in> D \<Longrightarrow> fits env pk st d \<Longrightarrow> dev_free st d \<le> dev_free st e \<Longrightarrow> best_of env pk st (insert e D) res"
  by (fastforce simp: best_of_def split: option.splits)

lemma best_of_exact:
  assumes "d \<in> D" "fits env pk st d" "dev_free st d = int (pk_required_size pk)" "\<And>m. 0 \<le> spc_free st m \<and> spc_free st m < 2 ^ 63"
  shows "best_of env pk st D (Some d)"
proof -
  have "int (pk_required_size pk) \<le> dev_free st e" if "fits env pk st e" for e
  proof -
    obtain m where m: "ld_dss_media_info (st_dev st e) = Some m" "pk_required_size pk \<le> c_size (spc_free st m)"
      using \<open>fits env pk st e\<close> by (auto simp: fits_def split: option.splits)
    have "spc_free st m mod 2 ^ 64 = spc_free st m" using assms(4) [of m] by (intro mod_pos_pos_trivial) auto
    then show ?thesis using m assms(4) [of m] by (simp add: dev_free_def c_size_def le_nat_iff)
  qed
  then show ?thesis using assms(1-3) by (simp add: best_of_def)
qed

text \<open>The part of the test that does not depend on the medium.\<close>

definition asked_device :: "'w lrs_env \<Rightarrow> 'w pick \<Rightarrow> lrs_dev \<Rightarrow> bool" where
  "asked_device env pk dev \<longleftrightarrow>
     dev_is_sched_ready (le_conf env) dev \<and> (pk_op_st pk = PHO_DEV_OP_ST_UNSPEC \<or> ld_op_status dev = pk_op_st pk) \<and>
     (case pk_library pk of None \<Rightarrow> True | Some l \<Rightarrow> l = library (dev_id dev))"

lemma picker_skips:
  assumes "cf_locate_lock_expirancy (le_conf env) = 0" "\<not> asked_device env pk (st_dev st d) \<or> medium_verdict env pk st (st_dev st d) = Some Skip"
  shows "\<exists>one'. dev_picker_from env pk (d # ds) selected one st = dev_picker_from env pk ds selected one' st"
  using assms by (auto simp: asked_device_def Let_def split: option.split)

lemma picker_uses:
  assumes "cf_locate_lock_expirancy (le_conf env) = 0" "asked_device env pk (st_dev st d)" "medium_verdict env pk st (st_dev st d) = Some Use"
    and "pk_select pk st (pk_required_size pk) d selected = Some (rc, sel)" "0 \<le> rc"
  shows "dev_picker_from env pk (d # ds) selected one st = (if rc = 0 then Some (sel, True, st) else dev_picker_from env pk ds sel True st)"
  using assms by (auto simp: asked_device_def Let_def split: option.split)

lemma fits_iff:
  "fits env pk st d \<longleftrightarrow> asked_device env pk (st_dev st d) \<and> medium_verdict env pk st (st_dev st d) = Some Use \<and>
     (\<exists>m. ld_dss_media_info (st_dev st d) = Some m \<and> pk_required_size pk \<le> c_size (spc_free st m))"
  by (auto simp: fits_def asked_device_def split: option.splits)

lemma best_fit_selects:
  assumes spc: "\<And>m. 0 \<le> spc_free st m \<and> spc_free st m < 2 ^ 63" and sel: "\<forall>s \<in> set_option selected. fits env pk st s"
    and d: "asked_device env pk (st_dev st d)" "medium_verdict env pk st (st_dev st d) = Some Use"
  shows "\<exists>rc sel. select_best_fit st (pk_required_size pk) d selected = Some (rc, sel) \<and> 0 \<le> rc \<and> (\<forall>s \<in> set_option sel. fits env pk st s) \<and>
    (rc = 0 \<longrightarrow> (\<forall>D. insert d D \<supseteq> set_option selected \<longrightarrow> best_of env pk st (insert d D) sel)) \<and>
    (\<forall>D res. best_of env pk st (D \<union> set_option sel) res \<longrightarrow> best_of env pk st (insert d (D \<union> set_option selected)) res)"
proof (cases "fits env pk st d")
  case False
  then have eq: "select_best_fit st (pk_required_size pk) d selected = Some (1, selected)"
    using d by (cases "ld_dss_media_info (st_dev st d)") (simp_all add: fits_iff select_best_fit_def)
  have step: "best_of env pk st (insert d (D \<union> set_option selected)) res" if "best_of env pk st (D \<union> set_option selected) res" for D res
    using best_of_skip [OF False that] .
  show ?thesis by (intro exI [of _ 1] exI [of _ selected] conjI allI impI) (rule eq, simp, rule sel, simp, erule step)
next
  case True
  then obtain m where m: "ld_dss_media_info (st_dev st d) = Some m" "\<not> c_size (spc_free st m) < pk_required_size pk" by (auto simp: fits_iff)
  have free: "dev_free st d = spc_free st m" by (simp add: dev_free_def m)
  have exact: "best_of env pk st (insert d D) (Some d)" if "pk_required_size pk = c_size (spc_free st m)" for D
  proof (rule best_of_exact [OF _ True _ spc])
    have "spc_free st m mod 2 ^ 64 = spc_free st m" using spc [of m] by (intro mod_pos_pos_trivial) auto
    then show "dev_free st d = int (pk_required_size pk)" using that spc [of m] by (simp add: free c_size_def)
  qed simp
  show ?thesis
  proof (cases "\<exists>s. selected = Some s \<and> dev_free st s \<le> dev_free st d")
    case True
    then obtain s where s: "selected = Some s" "dev_free st s \<le> dev_free st d" "fits env pk st s" using sel by auto
    then have eq: "select_best_fit st (pk_required_size pk) d selected = Some (1, selected)"
      using m by (cases "ld_dss_media_info (st_dev st s)") (simp_all add: select_best_fit_def dev_free_def fits_iff)
    have step: "best_of env pk st (insert d (D \<union> set_option selected)) res" if "best_of env pk st (D \<union> set_option selected) res" for D res
      using best_of_worse [OF that _ s(3,2)] by (simp add: s(1))
    show ?thesis by (intro exI [of _ 1] exI [of _ selected] conjI allI impI) (rule eq, simp, rule sel, simp, erule step)
  next
    case False
    have eq: "select_best_fit st (pk_required_size pk) d selected = Some (if pk_required_size pk = c_size (spc_free st m) then 0 else 1, Some d)"
    proof (cases selected)
      case None
      then show ?thesis using m by (simp add: select_best_fit_def)
    next
      case (Some s)
      then obtain sm where "ld_dss_media_info (st_dev st s) = Some sm" using sel by (auto simp: fits_iff)
      then show ?thesis using m False Some by (simp add: select_best_fit_def dev_free_def)
    qed
    have step: "best_of env pk st (insert d (D \<union> set_option selected)) res" if b: "best_of env pk st (D \<union> set_option (Some d)) res" for D res
    proof (cases selected)
      case None
      then show ?thesis using b by simp
    next
      case (Some s)
      then have "dev_free st d \<le> dev_free st s" using False by simp
      then have "best_of env pk st (insert s (insert d D)) res" using best_of_worse [OF b _ True] by simp
      then show ?thesis by (simp add: Some insert_commute)
    qed
    have zero: "best_of env pk st (insert d D) (Some d)" if "(if pk_required_size pk = c_size (spc_free st m) then 0 else (1 :: rc)) = 0" for D
      using exact that by (simp split: if_splits)
    show ?thesis
      by (intro exI conjI allI impI) (rule eq, simp, simp add: True, erule zero, erule step)
  qed
qed

lemma best_fit_from:
  assumes cf: "cf_locate_lock_expirancy (le_conf env) = 0" and sel: "pk_select pk = select_best_fit" and spc: "\<And>m. 0 \<le> spc_free st m \<and> spc_free st m < 2 ^ 63"
    and "\<forall>d \<in> set ds. medium_verdict env pk st (st_dev st d) \<in> {Some Use, Some Skip}" "\<forall>s \<in> set_option selected. fits env pk st s"
  shows "\<exists>res one'. dev_picker_from env pk ds selected one st = Some (res, one', st) \<and> best_of env pk st (set ds \<union> set_option selected) res"
  using assms(4,5)
proof (induction ds arbitrary: selected one)
  case Nil
  then show ?case by (cases selected) (auto simp: best_of_def)
next
  case (Cons d ds)
  show ?case
  proof (cases "asked_device env pk (st_dev st d) \<and> medium_verdict env pk st (st_dev st d) = Some Use")
    case False
    then have "\<not> fits env pk st d" by (auto simp: fits_iff)
    moreover obtain one' where "dev_picker_from env pk (d # ds) selected one st = dev_picker_from env pk ds selected one' st"
    proof -
      have "medium_verdict env pk st (st_dev st d) \<in> {Some Use, Some Skip}" using Cons.prems(1) by simp
      then have "\<not> asked_device env pk (st_dev st d) \<or> medium_verdict env pk st (st_dev st d) = Some Skip" using False by blast
      then show ?thesis using picker_skips [OF cf] that by blast
    qed
    moreover have "\<exists>res o2. dev_picker_from env pk ds selected one' st = Some (res, o2, st) \<and> best_of env pk st (set ds \<union> set_option selected) res"
      using Cons.prems by (intro Cons.IH) simp_all
    ultimately show ?thesis using best_of_skip [of env pk st d "set ds \<union> set_option selected"] by (elim exE conjE) (simp del: dev_picker_from.simps)
  next
    case True
    from best_fit_selects [OF spc Cons.prems(2) conjunct1 [OF True] conjunct2 [OF True]]
    obtain rc sl where s: "select_best_fit st (pk_required_size pk) d selected = Some (rc, sl)" "0 \<le> rc" "\<forall>s \<in> set_option sl. fits env pk st s"
        "rc = 0 \<longrightarrow> (\<forall>D. insert d D \<supseteq> set_option selected \<longrightarrow> best_of env pk st (insert d D) sl)"
        "\<forall>D res. best_of env pk st (D \<union> set_option sl) res \<longrightarrow> best_of env pk st (insert d (D \<union> set_option selected)) res"
      by (elim exE conjE) (rule that)
    note p = picker_uses [OF cf conjunct1 [OF True] conjunct2 [OF True], unfolded sel, OF s(1,2), of ds one]
    show ?thesis
    proof (cases "rc = 0")
      case True
      then have "best_of env pk st (insert d (set ds \<union> set_option selected)) sl" using s(4) by (simp add: subset_insertI2)
      then show ?thesis using p True by (intro exI [of _ sl] exI [of _ True]) (simp del: dev_picker_from.simps)
    next
      case False
      have "\<exists>res o2. dev_picker_from env pk ds sl True st = Some (res, o2, st) \<and> best_of env pk st (set ds \<union> set_option sl) res"
        using Cons.prems(1) s(3) by (intro Cons.IH) simp_all
      then obtain res o2 where r: "dev_picker_from env pk ds sl True st = Some (res, o2, st)" "best_of env pk st (set ds \<union> set_option sl) res"
        by (elim exE conjE)
      then have "best_of env pk st (insert d (set ds \<union> set_option selected)) res" using s(5) by iprover
      with r(1) show ?thesis using p False by (intro exI [of _ res] exI [of _ o2]) (simp del: dev_picker_from.simps)
    qed
  qed
qed

lemma verdict_without_medium: "pk_medium pk = None \<Longrightarrow> medium_verdict env pk st dev \<noteq> Some Give_Up"
  by (cases "ld_dss_media_info dev") (auto simp: medium_verdict_def)

text \<open>C13. Without reservations of located media, the choice of a device for a write under the best fit policy always
  returns. It returns a device that may be used and whose medium may be written and has the required space, with the least
  free space among all such devices, and it returns no device only when there is none.\<close>

theorem dev_picker_best_fit:
  assumes "cf_locate_lock_expirancy (le_conf env) = 0" "get_dev_policy (le_conf env) = Some (pk_select pk)" "cf_policy (le_conf env) = Some ''best_fit''"
    and "pk_medium pk = None" "\<forall>d \<in> set devices. medium_verdict env pk st (st_dev st d) \<noteq> None" "\<forall>m. 0 \<le> spc_free st m \<and> spc_free st m < 2 ^ 63"
  shows "\<exists>res one. dev_picker env pk devices st = Some (res, one, st) \<and>
    (case res of
       None \<Rightarrow> \<forall>d \<in> set devices. \<not> fits env pk st d
     | Some d \<Rightarrow> d \<in> set devices \<and> fits env pk st d \<and> (\<forall>e \<in> set devices. fits env pk st e \<longrightarrow> dev_free st d \<le> dev_free st e))"
proof -
  have sel: "pk_select pk = select_best_fit" using assms(2,3) by (simp add: get_dev_policy_def)
  have v: "\<forall>d \<in> set devices. medium_verdict env pk st (st_dev st d) \<in> {Some Use, Some Skip}"
  proof
    fix d
    assume "d \<in> set devices"
    then obtain v where "medium_verdict env pk st (st_dev st d) = Some v" using assms(5) by blast
    then show "medium_verdict env pk st (st_dev st d) \<in> {Some Use, Some Skip}"
      using verdict_without_medium [OF assms(4), of env st "st_dev st d"] by (cases v) simp_all
  qed
  have none: "\<forall>s \<in> set_option None. fits env pk st s" by simp
  show ?thesis
    using best_fit_from [OF assms(1) sel spec [OF assms(6)] v none, of False]
    unfolding dev_picker_def best_of_def option.set Un_empty_right .
qed


text \<open>Two mounted drives: the tape of the second one has less free space.\<close>

definition sample_conf :: lrs_conf where
  "sample_conf = \<lparr>cf_nb_max_parallel_io = (\<lambda>_. 1), cf_fifo_max_write_per_grouping = 0, cf_grouping_on_dir = False, cf_locate_lock_expirancy = 0,
     cf_policy = Some ''best_fit''\<rparr>"

definition sample_env :: "unit lrs_env" where
  "sample_env = \<lparr>le_conf = sample_conf, le_hostname = ''host'', le_owner = 1, le_compat_models = (\<lambda>_ _. (0, Some True)), le_acquire = (\<lambda>_ (h, w). (Inr 0, h, w)),
     le_lock_status = (\<lambda>_ w. (Inl (- ENOLCK), w)), le_lock_take = (\<lambda>_ w. (0, w)), le_unlock = (\<lambda>_ w. w), le_clock = (\<lambda>w. (None, w)),
     le_media_get = (\<lambda>_ _ _ _ _ w. ((0, []), w)), le_medium_health = (\<lambda>_ w. (Inr 1, w)), le_insert = (\<lambda>_ (h, w). (Inr 0, h, w))\<rparr>"

definition sample_drive :: "nat \<Rightarrow> lrs_dev" where
  "sample_drive m = \<lparr>ld_dss_dev_info = sample_dev\<lparr>dev_rsc := (dev_rsc sample_dev)\<lparr>rsc_adm_status := PHO_RSC_ADM_ST_UNLOCKED\<rparr>\<rparr>, ld_op_status = PHO_DEV_OP_ST_MOUNTED,
     ld_dss_media_info = Some m, ld_sub_request = None, ld_ongoing_scheduled = False, ld_ongoing_io = [], ld_ongoing_partial_io_waiting_sync = [],
     ld_needs_sync = False, ld_sync_blocking = False, ld_device_thread = THREAD_RUNNING, ld_tosync_len = 0, ld_io_request_type = {IO_REQ_WRITE},
     ld_technology = Some ''LTO5''\<rparr>"

definition sample_tape_of :: "int \<Rightarrow> media_info" where
  "sample_tape_of free = sample_medium\<lparr>med_rsc := (med_rsc sample_medium)\<lparr>rsc_adm_status := PHO_RSC_ADM_ST_UNLOCKED\<rparr>,
     med_stats := (med_stats sample_medium)\<lparr>phys_spc_free := free\<rparr>\<rparr>"

definition sample_state :: "unit lrs_state" where
  "sample_state = \<lparr>st_dev = sample_drive, st_req = (\<lambda>_. \<lparr>rqc_socket_id = 0, rqc_req = OtherReq, rqc_received_at = \<lparr>tv_sec = 0, tv_nsec = 0\<rparr>, rqc_media = [],
       rqc_media_list = rml_init [], rqc_devices = [], rqc_medium_to_format = None\<rparr>),
     st_med = (\<lambda>m. sample_tape_of (if m = 1 then 300 else 500)),
     st_hdl = \<lparr>ih_read = \<lparr>is_type = IO_REQ_READ, is_devices = [], is_queue = []\<rparr>, ih_write = \<lparr>is_type = IO_REQ_WRITE, is_devices = [0, 1], is_queue = []\<rparr>,
       ih_format = \<lparr>is_type = IO_REQ_FORMAT, is_devices = [], is_queue = []\<rparr>, ih_stats = \<lparr>ios_nb_reads = 0, ios_nb_writes = 1, ios_nb_formats = 0\<rparr>,
       ih_global = [0, 1]\<rparr>, st_world = ()\<rparr>"

definition sample_pick :: "unit pick" where
  "sample_pick = \<lparr>pk_op_st = PHO_DEV_OP_ST_MOUNTED, pk_library = None, pk_grouping = None, pk_select = select_best_fit, pk_required_size = 200,
     pk_tags = NO_STRING, pk_medium = None, pk_is_write = True, pk_wreq = None, pk_empty_medium = False\<rparr>"

lemmas sample_lrs_defs = sample_conf_def sample_env_def sample_drive_def sample_tape_of_def sample_state_def sample_pick_def sample_dev_def sample_medium_def sample_rsc_def

lemma sample_fits: "medium_verdict sample_env sample_pick sample_state (st_dev sample_state d) = Some Use \<and> fits sample_env sample_pick sample_state d"
  by (simp add: sample_lrs_defs medium_verdict_def fits_def medium_is_write_compatible_def write_avoids_medium_def NO_STRING_def spc_free_def c_size_def
      dev_is_sched_ready_def thread_is_running_def dev_is_failed_def dev_is_full_ongoing_io_def)

theorem dev_picker_best_fit_witness:
  "\<exists>one. dev_picker sample_env sample_pick [0, 1] sample_state = Some (Some 1, one, sample_state)"
proof -
  have free: "dev_free sample_state d = (if d = 1 then 300 else 500)" for d
    by (simp add: dev_free_def spc_free_def sample_lrs_defs)
  have "cf_locate_lock_expirancy (le_conf sample_env) = 0" "get_dev_policy (le_conf sample_env) = Some (pk_select sample_pick)"
    "cf_policy (le_conf sample_env) = Some ''best_fit''" "pk_medium sample_pick = None"
    "\<forall>d \<in> set [0, 1]. medium_verdict sample_env sample_pick sample_state (st_dev sample_state d) \<noteq> None"
    "\<forall>m. 0 \<le> spc_free sample_state m \<and> spc_free sample_state m < 2 ^ 63"
    using sample_fits by (simp_all add: sample_env_def sample_conf_def sample_pick_def get_dev_policy_def spc_free_def sample_state_def sample_tape_of_def)
  from dev_picker_best_fit [OF this] obtain res one where "dev_picker sample_env sample_pick [0, 1] sample_state = Some (res, one, sample_state)"
    "case res of None \<Rightarrow> \<forall>d \<in> set [0, 1]. \<not> fits sample_env sample_pick sample_state d
       | Some d \<Rightarrow> d \<in> set [0, 1] \<and> fits sample_env sample_pick sample_state d \<and>
           (\<forall>e \<in> set [0, 1]. fits sample_env sample_pick sample_state e \<longrightarrow> dev_free sample_state d \<le> dev_free sample_state e)"
    by blast
  moreover from this(2) have "res = Some 1" using sample_fits by (cases res) (auto simp: free split: if_splits)
  ultimately show ?thesis by blast
qed


subsection \<open>The medium chosen for a write\<close>

definition opt_best :: "('a \<Rightarrow> bool) \<Rightarrow> ('a \<Rightarrow> int) \<Rightarrow> 'a set \<Rightarrow> 'a option \<Rightarrow> bool" where
  "opt_best P f D x \<longleftrightarrow> (case x of None \<Rightarrow> \<forall>m \<in> D. \<not> P m | Some m \<Rightarrow> m \<in> D \<and> P m \<and> (\<forall>e \<in> D. P e \<longrightarrow> f m \<le> f e))"

lemma opt_best_skip: "opt_best P f D x \<Longrightarrow> \<not> P m \<Longrightarrow> opt_best P f (insert m D) x"
  by (cases x) (auto simp: opt_best_def)

lemma opt_best_add:
  "opt_best P f D x \<Longrightarrow> P m \<Longrightarrow> opt_best P f (insert m D) (if case x of None \<Rightarrow> True | Some b \<Rightarrow> f m < f b then Some m else x)"
  by (cases x) (auto simp: opt_best_def)

text \<open>
  The media of the list whose space counts for the request. For a request that may not be split, a medium must have more
  space than required: one of exactly the required size is refused.
\<close>

definition counted :: "'w lrs_state \<Rightarrow> walloc_req \<Rightarrow> req_container \<Rightarrow> size_t \<Rightarrow> size_t \<Rightarrow> size_t \<Rightarrow> media_info \<Rightarrow> bool" where
  "counted st wq r n_med not_alloc required_size m \<longleftrightarrow>
     \<not> write_avoids_medium (Some wq) m \<and> medium_in_devices st (med_id m) r n_med not_alloc = Some (Inr False) \<and>
     \<not> (wq_no_split wq \<and> c_size (med_free m) \<le> required_size)"

definition space_of :: "'w lrs_state \<Rightarrow> walloc_req \<Rightarrow> req_container \<Rightarrow> size_t \<Rightarrow> size_t \<Rightarrow> size_t \<Rightarrow> media_info list \<Rightarrow> nat" where
  "space_of st wq r n_med not_alloc required_size media =
     sum_list (map (\<lambda>m. c_size (med_free m)) (filter (counted st wq r n_med not_alloc required_size) media))"

text \<open>Those that the request may use: not locked by another host, and in no device or in one that is ready for the scheduler.\<close>

definition eligible :: "'w lrs_env \<Rightarrow> io_request_type \<Rightarrow> 'w lrs_state \<Rightarrow> walloc_req \<Rightarrow> req_container \<Rightarrow> size_t \<Rightarrow> size_t \<Rightarrow> size_t \<Rightarrow> media_info \<Rightarrow> bool" where
  "eligible env type st wq r n_med not_alloc required_size m \<longleftrightarrow>
     counted st wq r n_med not_alloc required_size m \<and> lk_hostname (med_lock m) \<in> {None, Some (le_hostname env)} \<and>
     (\<exists>dev ready. search_in_use_medium (le_conf env) st (ih_global (st_hdl st)) (name (med_id m)) (library (med_id m)) = Some (dev, ready) \<and>
        (case dev of None \<Rightarrow> True | Some d \<Rightarrow> ready \<and> type \<in> ld_io_request_type (st_dev st d)))"

text \<open>The medium can be examined, and a lock of this host on it is a lock of this process.\<close>

definition examinable :: "'w lrs_env \<Rightarrow> 'w lrs_state \<Rightarrow> req_container \<Rightarrow> size_t \<Rightarrow> size_t \<Rightarrow> media_info \<Rightarrow> bool" where
  "examinable env st r n_med not_alloc m \<longleftrightarrow>
     (lk_hostname (med_lock m) = Some (le_hostname env) \<longrightarrow> lk_owner (med_lock m) = le_owner env) \<and>
     (\<exists>b. medium_in_devices st (med_id m) r n_med not_alloc = Some (Inr b)) \<and>
     search_in_use_medium (le_conf env) st (ih_global (st_hdl st)) (name (med_id m)) (library (med_id m)) \<noteq> None"

definition candidates_ok :: "(media_info \<Rightarrow> bool) \<Rightarrow> bool \<Rightarrow> size_t \<Rightarrow> media_info set \<Rightarrow> candidates \<Rightarrow> bool" where
  "candidates_ok E no_split required_size D ca \<longleftrightarrow>
     opt_best (\<lambda>m. E m \<and> required_size \<le> c_size (med_free m)) med_free D (ca_whole ca) \<and>
     (if no_split then ca_split ca = None else opt_best E (\<lambda>m. - med_free m) D (ca_split ca))"

lemma candidates_skip:
  "candidates_ok E ns sz D ca \<Longrightarrow> \<not> E m \<Longrightarrow> candidates_ok E ns sz (insert m D) (ca\<lparr>ca_avail_size := a\<rparr>)"
  by (simp add: candidates_ok_def opt_best_skip)

lemma candidates_add:
  assumes "candidates_ok E ns sz D ca" "E m"
  shows "candidates_ok E ns sz (insert m D) (add_candidate ns sz m ca)"
proof -
  let ?W = "\<lambda>m. E m \<and> sz \<le> c_size (med_free m)"
  let ?s = "if case ca_split ca of None \<Rightarrow> True | Some b \<Rightarrow> - med_free m < - med_free b then Some m else ca_split ca"
  let ?w = "if case ca_whole ca of None \<Rightarrow> True | Some b \<Rightarrow> med_free m < med_free b then Some m else ca_whole ca"
  have s: "ca_split (add_candidate ns sz m ca) = (if ns then ca_split ca else ?s)"
    by (cases "ca_split ca") (simp_all add: add_candidate_def Let_def)
  have w: "ca_whole (add_candidate ns sz m ca) = (if c_size (med_free m) < sz then ca_whole ca else ?w)"
    by (simp add: add_candidate_def Let_def)
  have "opt_best ?W med_free (insert m D) (if c_size (med_free m) < sz then ca_whole ca else ?w)"
    using assms opt_best_skip [of ?W med_free D "ca_whole ca" m] opt_best_add [of ?W med_free D "ca_whole ca" m] by (simp add: candidates_ok_def)
  moreover have "\<not> ns \<Longrightarrow> opt_best E (\<lambda>m. - med_free m) (insert m D) ?s"
    using assms opt_best_add [of E "\<lambda>m. - med_free m" D "ca_split ca" m] by (simp only: candidates_ok_def if_False)
  ultimately show ?thesis using assms(1) unfolding candidates_ok_def s w by simp
qed

lemma size_add_c_size: "size_add (n mod size_max) (c_size v) = (n + c_size v) mod size_max"
  by (simp add: size_add_def mod_add_left_eq)

lemma renewed_lock:
  assumes "examinable env st r n_med not_alloc m"
  shows "(if lk_hostname (med_lock m) \<noteq> None then check_renew_lock env (med_id m) (med_lock m) w else Some (0, med_lock m, w)) =
    Some (if lk_hostname (med_lock m) \<in> {None, Some (le_hostname env)} then 0 else - EALREADY, med_lock m, w)"
  using assms by (cases "lk_hostname (med_lock m)") (auto simp: examinable_def check_renew_lock_def check_renew_owner_def)

lemma choose_medium_spec:
  assumes "\<forall>m \<in> set media. examinable env st r n_med not_alloc m"
    and "candidates_ok (eligible env type st wq r n_med not_alloc sz) (wq_no_split wq) sz D ca" "ca_avail_size ca = n mod size_max"
  shows "\<exists>ca'. choose_medium env type st wq r n_med not_alloc sz media ca w = Some (Inr ca', w) \<and>
    candidates_ok (eligible env type st wq r n_med not_alloc sz) (wq_no_split wq) sz (set media \<union> D) ca' \<and>
    ca_avail_size ca' = (n + space_of st wq r n_med not_alloc sz media) mod size_max"
  using assms
proof (induction media arbitrary: ca D n)
  case Nil
  then show ?case by (simp add: space_of_def)
next
  case (Cons m media)
  let ?E = "eligible env type st wq r n_med not_alloc sz" and ?ok = "candidates_ok (eligible env type st wq r n_med not_alloc sz) (wq_no_split wq) sz"
  let ?C = "counted st wq r n_med not_alloc sz" and ?space = "space_of st wq r n_med not_alloc sz"
  have ex: "examinable env st r n_med not_alloc m" using Cons.prems(1) by simp
  obtain b where b: "medium_in_devices st (med_id m) r n_med not_alloc = Some (Inr b)" using ex by (auto simp: examinable_def)
  obtain dev ready where s: "search_in_use_medium (le_conf env) st (ih_global (st_hdl st)) (name (med_id m)) (library (med_id m)) = Some (dev, ready)"
    using ex by (auto simp: examinable_def)
  have rest: "\<exists>ca'. choose_medium env type st wq r n_med not_alloc sz media c w = Some (Inr ca', w) \<and> ?ok (set (m # media) \<union> D) ca' \<and>
      ca_avail_size ca' = (k + ?space media) mod size_max" if "?ok (insert m D) c" "ca_avail_size c = k mod size_max" for c k
    using Cons.IH [OF _ that] Cons.prems(1) by simp
  have skip: "?ok (insert m D) (ca\<lparr>ca_avail_size := a\<rparr>)" if "\<not> ?E m" for a using candidates_skip [OF Cons.prems(2) that] .
  show ?case
  proof (cases "?C m")
    case False
    then have "\<not> ?E m" "?space (m # media) = ?space media" by (simp_all add: eligible_def space_of_def)
    moreover have "choose_medium env type st wq r n_med not_alloc sz (m # media) ca w = choose_medium env type st wq r n_med not_alloc sz media ca w"
      using False b by (cases b) (auto simp: counted_def)
    moreover have "?ok (insert m D) ca" using skip [of "ca_avail_size ca"] \<open>\<not> ?E m\<close> by simp
    ultimately show ?thesis using rest [of ca n] Cons.prems(3) by (simp del: choose_medium.simps)
  next
    case True
    let ?ca = "ca\<lparr>ca_avail_size := size_add (ca_avail_size ca) (c_size (med_free m))\<rparr>"
    let ?ca' = "if ?E m then add_candidate (wq_no_split wq) sz m ?ca else ?ca"
    have space: "?space (m # media) = c_size (med_free m) + ?space media" using True by (simp add: space_of_def)
    have E: "?E m \<longleftrightarrow> lk_hostname (med_lock m) \<in> {None, Some (le_hostname env)} \<and>
        (case dev of None \<Rightarrow> True | Some d \<Rightarrow> ready \<and> type \<in> ld_io_request_type (st_dev st d))"
      using True s by (auto simp: eligible_def)
    have c: "\<not> write_avoids_medium (Some wq) m" "b = False" "\<not> (wq_no_split wq \<and> c_size (med_free m) \<le> sz)"
      using True b by (auto simp: counted_def)
    have "choose_medium env type st wq r n_med not_alloc sz (m # media) ca w = choose_medium env type st wq r n_med not_alloc sz media ?ca' w"
      unfolding E choose_medium.simps if_not_P [OF c(1)] if_not_P [OF c(3)] b [unfolded c(2)] renewed_lock [OF ex] Let_def
      using s by (cases dev) auto
    moreover have "?ok (insert m D) ?ca'"
    proof (cases "?E m")
      case True
      have "?ok D ?ca" using Cons.prems(2) by (simp add: candidates_ok_def)
      from candidates_add [OF this True] True show ?thesis by simp
    next
      case False
      then show ?thesis using skip [OF False] by simp
    qed
    moreover have "ca_avail_size ?ca' = (n + c_size (med_free m)) mod size_max"
      by (simp add: add_candidate_def Let_def Cons.prems(3) size_add_c_size)
    ultimately show ?thesis using rest [of ?ca' "n + c_size (med_free m)"] by (simp add: space add.assoc del: choose_medium.simps)
  qed
qed

text \<open>The choice of a device reads an answer that was not stored, when the medium is of another library than the device.\<close>

lemma tape_drive_compat_unset: "library (med_id m) \<noteq> library (dev_id dev) \<Longrightarrow> tape_drive_compat env m dev = (0, None)"
  by (simp add: tape_drive_compat_def)

lemma picker_reads_unset_answer:
  assumes "asked_device env pk (st_dev st d)" "cf_locate_lock_expirancy (le_conf env) = 0" "pk_medium pk = Some m" "\<not> pk_is_write pk"
    and "library (med_id (st_med st m)) \<noteq> library (dev_id (st_dev st d))"
  shows "dev_picker env pk (d # ds) st = None"
  using assms by (auto simp: dev_picker_def asked_device_def medium_verdict_def tape_drive_compat_unset Let_def split: option.split)

text \<open>The medium that the two candidates give.\<close>

lemma chosen_candidate_best:
  assumes ok: "candidates_ok E ns sz D ca" and large: "\<And>m. E m \<Longrightarrow> ns \<Longrightarrow> sz \<le> c_size (med_free m)"
  shows "case chosen_candidate ca of
     None \<Rightarrow> \<forall>m \<in> D. \<not> E m
   | Some m \<Rightarrow> m \<in> D \<and> E m \<and>
       (if \<exists>e \<in> D. E e \<and> sz \<le> c_size (med_free e)
        then sz \<le> c_size (med_free m) \<and> (\<forall>e \<in> D. E e \<and> sz \<le> c_size (med_free e) \<longrightarrow> med_free m \<le> med_free e)
        else \<forall>e \<in> D. E e \<longrightarrow> med_free e \<le> med_free m)"
proof (cases "ca_whole ca")
  case (Some m)
  then show ?thesis using ok by (auto simp: candidates_ok_def opt_best_def chosen_candidate_def)
next
  case None
  then have no: "\<forall>e \<in> D. \<not> (E e \<and> sz \<le> c_size (med_free e))" using ok by (simp add: candidates_ok_def opt_best_def)
  show ?thesis
  proof (cases ns)
    case True
    then have "\<forall>e \<in> D. \<not> E e" using no large by blast
    then show ?thesis using ok True None by (simp add: candidates_ok_def chosen_candidate_def)
  next
    case False
    then have "opt_best E (\<lambda>m. - med_free m) D (ca_split ca)" using ok by (simp add: candidates_ok_def)
    then show ?thesis using None no by (cases "ca_split ca") (auto simp: opt_best_def chosen_candidate_def)
  qed
qed

text \<open>What the selection does with the medium it chose.\<close>

definition keep_medium :: "'w lrs_env \<Rightarrow> media_info \<Rightarrow> 'w lrs_state \<Rightarrow> rc \<times> bool \<times> nat option \<times> 'w lrs_state" where
  "keep_medium env m st =
     (case le_medium_health env (med_id m) (st_world st) of
        (Inl rc, w) \<Rightarrow> (rc, False, None, st\<lparr>st_world := w\<rparr>)
      | (Inr health, w) \<Rightarrow>
          case le_insert env (m\<lparr>med_lock := clean_lock (med_lock m), med_health := health\<rparr>) (st_med st, w) of
            (Inl rc, med, w) \<Rightarrow> (rc, False, None, st\<lparr>st_med := med, st_world := w\<rparr>)
          | (Inr a, med, w) \<Rightarrow> (0, False, Some a, st\<lparr>st_med := med, st_world := w\<rparr>))"

text \<open>
  C14. The selection of a medium for a write, when the query of the media succeeds and every lock of this host on them is a lock
  of this process. When the space of the media that count for the request is less than required, the request fails with
  \<open>-ENOSPC\<close>; when it may use none of them, with \<open>-EAGAIN\<close>. Otherwise one of the media that it may use is chosen: if one of these
  has the required space, the chosen one has it and no other such medium has less free space; if none has, the chosen one has the
  most free space. A medium of exactly the required size does not count for a request that may not be split.
\<close>

theorem write_medium_choice:
  assumes "wq_media wq \<noteq> []"
    and "le_media_get env (wq_family wq) (wq_library wq) grouping tags (wm_empty_medium (hd (wq_media wq))) (st_world st) = ((0, media), w)"
    and "media \<noteq> []" and st': "st' = st\<lparr>st_world := w\<rparr>" and "\<forall>m \<in> set media. examinable env st' r n_med not_alloc m"
    and E: "\<And>m. E m \<longleftrightarrow> eligible env type st' wq r n_med not_alloc sz m"
  shows "if space_of st' wq r n_med not_alloc sz media mod size_max < sz
     then sched_select_medium env type sz wq grouping tags r n_med not_alloc st = Some (- ENOSPC, grouping \<noteq> None, None, st')
     else if \<forall>m \<in> set media. \<not> E m
     then sched_select_medium env type sz wq grouping tags r n_med not_alloc st = Some (- EAGAIN, grouping \<noteq> None, None, st')
     else \<exists>m \<in> set media. sched_select_medium env type sz wq grouping tags r n_med not_alloc st = Some (keep_medium env m st') \<and> E m \<and>
       (if \<exists>e \<in> set media. E e \<and> sz \<le> c_size (med_free e)
        then sz \<le> c_size (med_free m) \<and> (\<forall>e \<in> set media. E e \<and> sz \<le> c_size (med_free e) \<longrightarrow> med_free m \<le> med_free e)
        else \<forall>e \<in> set media. E e \<longrightarrow> med_free e \<le> med_free m)"
proof -
  let ?E = "eligible env type st' wq r n_med not_alloc sz" and ?ca = "\<lparr>ca_avail_size = 0, ca_split = None, ca_whole = None\<rparr>"
  have E': "E = ?E" using E by blast
  have "candidates_ok ?E (wq_no_split wq) sz {} ?ca" by (simp add: candidates_ok_def opt_best_def)
  from choose_medium_spec [OF assms(5) this, of 0 w] obtain ca where
    ca: "choose_medium env type st' wq r n_med not_alloc sz media ?ca w = Some (Inr ca, w)"
      "candidates_ok ?E (wq_no_split wq) sz (set media) ca" "ca_avail_size ca = space_of st' wq r n_med not_alloc sz media mod size_max"
    by auto
  have run: "sched_select_medium env type sz wq grouping tags r n_med not_alloc st =
      (if ca_avail_size ca < sz then Some (- ENOSPC, grouping \<noteq> None, None, st')
       else case chosen_candidate ca of None \<Rightarrow> Some (- EAGAIN, grouping \<noteq> None, None, st') | Some m \<Rightarrow> Some (keep_medium env m st'))"
    using assms(1-3) ca(1) st'
    by (cases "wq_media wq") (simp_all add: sched_select_medium_def keep_medium_def med_id_def Let_def split: option.split prod.split sum.split)
  let ?B = "\<lambda>m. if \<exists>e \<in> set media. ?E e \<and> sz \<le> c_size (med_free e)
      then sz \<le> c_size (med_free m) \<and> (\<forall>e \<in> set media. ?E e \<and> sz \<le> c_size (med_free e) \<longrightarrow> med_free m \<le> med_free e)
      else \<forall>e \<in> set media. ?E e \<longrightarrow> med_free e \<le> med_free m"
  have best: "case chosen_candidate ca of None \<Rightarrow> \<forall>m \<in> set media. \<not> ?E m | Some m \<Rightarrow> m \<in> set media \<and> ?E m \<and> ?B m"
    by (rule chosen_candidate_best [OF ca(2)]) (auto simp: eligible_def counted_def)
  show ?thesis
  proof (cases "space_of st' wq r n_med not_alloc sz media mod size_max < sz \<or> chosen_candidate ca = None")
    case True
    then show ?thesis using best unfolding E' run ca(3) by (cases "chosen_candidate ca") auto
  next
    case False
    then obtain m where m: "chosen_candidate ca = Some m" by auto
    then have b: "m \<in> set media" "?E m" "?B m" using best by simp_all
    have "sched_select_medium env type sz wq grouping tags r n_med not_alloc st = Some (keep_medium env m st')"
      using False m by (simp add: run ca(3))
    then have "\<exists>m \<in> set media. sched_select_medium env type sz wq grouping tags r n_med not_alloc st = Some (keep_medium env m st') \<and> ?E m \<and> ?B m"
      using b by (intro bexI [of _ m] conjI)
    moreover have "\<not> space_of st' wq r n_med not_alloc sz media mod size_max < sz" "\<not> (\<forall>m \<in> set media. \<not> ?E m)" using False b by auto
    ultimately show ?thesis unfolding E' by (simp only: if_False)
  qed
qed

definition sample_wreq :: walloc_req where
  "sample_wreq = \<lparr>wq_family = PHO_RSC_TAPE, wq_library = None, wq_grouping = None, wq_media = [\<lparr>wm_size = 200, wm_tags = NO_STRING, wm_empty_medium = False\<rparr>],
     wq_avoid_med = [], wq_no_split = False, wq_prevent_duplicate = False\<rparr>"

definition tape_of_host :: "string option \<Rightarrow> int \<Rightarrow> media_info" where
  "tape_of_host host free = (sample_tape_of free)\<lparr>med_lock := (med_lock sample_medium)\<lparr>lk_hostname := host, lk_owner := 1\<rparr>\<rparr>"

text \<open>A tape without a lock, one locked by this process and a smaller one locked by another host; no drive holds them.\<close>

definition sample_tapes :: "media_info list" where
  "sample_tapes = [tape_of_host None 500, tape_of_host (Some ''host'') 300, tape_of_host (Some ''other'') 250]"

theorem write_medium_choice_witness:
  "\<exists>m. sched_select_medium (sample_env\<lparr>le_media_get := (\<lambda>_ _ _ _ _ w. ((0, sample_tapes), w))\<rparr>) IO_REQ_WRITE 200 sample_wreq None NO_STRING
      (st_req sample_state 0) 0 0 (sample_state\<lparr>st_hdl := (st_hdl sample_state)\<lparr>ih_global := []\<rparr>\<rparr>) =
    Some (keep_medium (sample_env\<lparr>le_media_get := (\<lambda>_ _ _ _ _ w. ((0, sample_tapes), w))\<rparr>) m (sample_state\<lparr>st_hdl := (st_hdl sample_state)\<lparr>ih_global := []\<rparr>\<rparr>)) \<and>
    med_free m = 300"
proof -
  let ?env = "sample_env\<lparr>le_media_get := (\<lambda>_ _ _ _ _ w. ((0, sample_tapes), w))\<rparr>"
  let ?st = "sample_state\<lparr>st_hdl := (st_hdl sample_state)\<lparr>ih_global := []\<rparr>\<rparr>" and ?r = "st_req sample_state 0"
  let ?E = "eligible ?env IO_REQ_WRITE ?st sample_wreq ?r 0 0 200"
  have free: "med_free (tape_of_host h x) = x" for h x by (simp add: med_free_def tape_of_host_def sample_tape_of_def)
  have lock: "lk_hostname (med_lock (tape_of_host h x)) = h" "lk_owner (med_lock (tape_of_host h x)) = 1" for h x by (simp_all add: tape_of_host_def)
  have no_dev: "medium_in_devices ?st i ?r 0 0 = Some (Inr False)" for i by (simp add: medium_in_devices_def)
  have no_use: "search_in_use_medium (le_conf ?env) ?st (ih_global (st_hdl ?st)) a b = Some (None, False)" for a b by simp
  have cnt: "counted ?st sample_wreq ?r 0 0 200 m" for m
    unfolding counted_def no_dev by (simp add: sample_wreq_def write_avoids_medium_def)
  have el: "?E m \<longleftrightarrow> lk_hostname (med_lock m) \<in> {None, Some ''host''}" for m
    unfolding eligible_def no_use using cnt by (auto simp: sample_env_def)
  have "\<forall>m \<in> set sample_tapes. examinable ?env ?st ?r 0 0 m"
    unfolding examinable_def no_dev no_use by (auto simp: sample_tapes_def lock sample_env_def intro: exI [of _ False])
  moreover have "wq_media sample_wreq \<noteq> []" "sample_tapes \<noteq> []" "?st = ?st\<lparr>st_world := ()\<rparr>"
    by (simp_all add: sample_wreq_def sample_tapes_def)
  moreover have "le_media_get ?env (wq_family sample_wreq) (wq_library sample_wreq) None NO_STRING (wm_empty_medium (hd (wq_media sample_wreq))) (st_world ?st) =
      ((0, sample_tapes), ())" by simp
  ultimately have choice: "if space_of ?st sample_wreq ?r 0 0 200 sample_tapes mod size_max < 200
     then sched_select_medium ?env IO_REQ_WRITE 200 sample_wreq None NO_STRING ?r 0 0 ?st = Some (- ENOSPC, None \<noteq> (None :: string option), None, ?st)
     else if \<forall>m \<in> set sample_tapes. \<not> ?E m
     then sched_select_medium ?env IO_REQ_WRITE 200 sample_wreq None NO_STRING ?r 0 0 ?st = Some (- EAGAIN, None \<noteq> (None :: string option), None, ?st)
     else \<exists>m \<in> set sample_tapes. sched_select_medium ?env IO_REQ_WRITE 200 sample_wreq None NO_STRING ?r 0 0 ?st = Some (keep_medium ?env m ?st) \<and> ?E m \<and>
       (if \<exists>e \<in> set sample_tapes. ?E e \<and> 200 \<le> c_size (med_free e)
        then 200 \<le> c_size (med_free m) \<and> (\<forall>e \<in> set sample_tapes. ?E e \<and> 200 \<le> c_size (med_free e) \<longrightarrow> med_free m \<le> med_free e)
        else \<forall>e \<in> set sample_tapes. ?E e \<longrightarrow> med_free e \<le> med_free m)"
    by (intro write_medium_choice [OF _ _ _ _ _ refl]) assumption+
  have "filter (counted ?st sample_wreq ?r 0 0 200) sample_tapes = sample_tapes" by (rule filter_True) (use cnt in blast)
  then have space: "space_of ?st sample_wreq ?r 0 0 200 sample_tapes = 1050" by (simp add: space_of_def) (simp add: sample_tapes_def free c_size_def)
  have "\<exists>m \<in> set sample_tapes. sched_select_medium ?env IO_REQ_WRITE 200 sample_wreq None NO_STRING ?r 0 0 ?st = Some (keep_medium ?env m ?st) \<and> med_free m = 300"
    using choice unfolding space el by (auto simp: sample_tapes_def free lock c_size_def size_max_def split: if_splits)
  then show ?thesis by blast
qed

end
