(* ===== verification/Spec2Isabelle.thy ===== *)
theory Spec2Isabelle
  imports Pho_Types Pho_Common Pho_Type_Utils Pho_Cache Io_Adapter Io_Copy Data_Processor Raid4_Codec Raid_Sizes Raid_Put_Theorem
    Lrs_Priority Lrs_Repartition Lrs_Select
begin

text \<open>
  A verification development of Phobos, the Parallel Heterogeneous OBject Store. Phobos stores
  objects on tapes, directories and RADOS pools. A client library (\<open>src/store\<close>) moves the bytes of
  an object between a file descriptor of the user and the \<^emph>\<open>extents\<close> of the object, which are files
  on media. A layout (\<open>src/layout-modules\<close>: RAID1, RAID4) says how an object is cut into splits and
  how a split becomes extents. An I/O adapter (\<open>src/io-modules\<close>) reads and writes the extents, a
  local resource scheduler (LRS, \<open>src/lrs\<close>) grants media, and a database (DSS, \<open>src/core/dss\<close>) keeps the
  records of objects, copies, layouts, media and devices.

  \<^bold>\<open>Conventions of the model.\<close> A \<open>size_t\<close> is a natural number below \<open>size_max\<close> and the operations
  \<open>size_add\<close>, \<open>size_sub\<close>, \<open>size_mul\<close> wrap around as the code does. A return code is an integer and
  errors are the negative errno values of the prelude. A function whose C body may run into
  undefined behaviour, a failed assertion, a NULL dereference or a loop that does not end returns an
  \<open>option\<close>, and \<open>None\<close> stands for these; it is never an error code. Mutable structures are records that
  the functions take and return. Code outside the repository (system calls, glib, jansson, the hash
  libraries, a file system) is a parameter: the record \<open>raid_sys\<close>, the environment of hash and I/O
  functions \<open>raid_env\<close>, the backing store of a cache. What is assumed of such a parameter is an
  assumption of a locale or a hypothesis of the theorem, and it is discharged on a concrete instance.

  \<^bold>\<open>The theories.\<close>
  \<^item> \<open>Phobos_Prelude\<close>: errno values, sizes with wrap-around, byte buffers with bounds.
  \<^item> \<open>Pho_Types\<close> (\<open>include/pho_types.h\<close>, \<open>core/common/type_utils.c\<close>): the enums and their names, identifiers,
    media, devices, extents, layouts. The locale \<open>enum_names\<close> is the contract of the pairs
    \<open>x2str\<close>/\<open>str2x\<close>, and it is interpreted for every enum.
  \<^item> \<open>Pho_Common\<close> (\<open>core/common/common.c\<close>): integer parsing, hexadecimal strings, trimmed strings, timespecs,
    greatest common divisors.
  \<^item> \<open>Pho_Type_Utils\<close> (\<open>core/common/type_utils.c\<close>): string arrays as a refinement of lists, tokenising, the
    thread-safe queue, copies of records.
  \<^item> \<open>Pho_Cache\<close> (\<open>core/common/pho_cache.c\<close>, \<open>lrs/lrs_cache.c\<close>): the reference-counted cache as a transition
    system, with its invariant: no value in use is freed and none leaks. The counters wrap around as an \<^verbatim>\<open>int\<close> does, and the
    runs considered hold no value \<open>2 ^ 31\<close> times at once. The locale
    \<open>cache_operations\<close> is the contract of the callbacks, interpreted on the cache of media of the LRS.
  \<^item> \<open>Io_Adapter\<close>, \<open>Io_Copy\<close> (\<open>io-modules/io_posix_common.c\<close>, \<open>io/io.c\<close>): partial reads and writes of
    the POSIX adapter, the copy of one extent. The locales \<open>io_writer\<close>, \<open>io_reader\<close> and \<open>io_copy\<close>
    state what a client relies on.
  \<^item> \<open>Pho_Attrs\<close> (\<open>core/common/attrs.c\<close>): attribute sets and their JSON form.
  \<^item> \<open>Data_Processor\<close> (\<open>include/pho_layout.h\<close>, \<open>layout/posix_layout.c\<close>): the buffer that a reader fills and
    a writer drains.
  \<^item> \<open>Raid_Common\<close>, \<open>Raid_Io\<close>, \<open>Raid1\<close>, \<open>Raid4\<close>, \<open>Raid4_Writer\<close>, \<open>Raid4_Reader\<close>, \<open>Raid4_Codec\<close>
    (\<open>layout/raid_common.c\<close>, \<open>layout-modules/raid1\<close>, \<open>layout-modules/raid4\<close>): hashing and the encoding of one split. The
    locale \<open>raid_adapter\<close> is what the layouts rely on of an adapter, interpreted on the POSIX one.
  \<^item> \<open>Raid_Layout\<close>, \<open>Raid_Availability\<close>: extents of a layout, rebuilding, whether the media that are
    left are enough to read an object, the attributes stored beside an extent.
  \<^item> \<open>Raid_Proc\<close>, \<open>Raid_Split\<close>, \<open>Raid_Writer\<close>, \<open>Raid_Ops\<close>, \<open>Raid_Reader\<close>, \<open>Raid_Eraser\<close>, \<open>Raid_Rebuilder\<close>,
    \<open>Raid_Init\<close>: the processors of the layouts, one step per response of the LRS.
  \<^item> \<open>Raid_Accounting\<close>, \<open>Raid_Sizes\<close>, \<open>Raid_Frames\<close>: the accounting of extents written and media to
    release, the sizes of splits, what a write leaves unchanged.
  \<^item> \<open>Layout_Module\<close> (\<open>layout/layout.c\<close>) and \<open>Data_Transfer\<close> (\<open>store/store.c\<close>): how a processor is built
    from modules and the loop that moves bytes from its reader to its writer.

  \<^item> \<open>Raid_Object\<close>, \<open>Raid_Put\<close>, \<open>Raid_Put_Run\<close>, \<open>Raid_Put_Correct\<close>, \<open>Raid_Put_Theorem\<close>: the composition of the
    parts above in a put, from the construction of the encoder through every exchange with the LRS to the last
    release. The locale \<open>raid_put\<close> states what the put relies on of a layout, and it is interpreted on RAID1 and
    RAID4. A put to one target that is done without an error has stored the whole object, when the media granted for a
    split differ from each other, the reads of the source are not partial and, for RAID4, every medium has room for a
    chunk; the two theorems are also run on concrete objects.
  \<^item> \<open>Lrs_Media_List\<close>, \<open>Lrs_Dev\<close>, \<open>Lrs_State\<close> (\<open>lrs/lrs_utils.c\<close>, \<open>lrs/lrs_device.h\<close>, \<open>lrs/lrs_sched.h\<close>): the
    media of a read request in their four sections, the devices and requests of the LRS, and the state of a
    scheduler as stores from addresses to devices, requests and media.
  \<^item> \<open>Lrs_Priority\<close> (\<open>lrs/io_schedulers/scheduler_priority_algorithms.c\<close>): the next request, oldest first or round
    robin, with the fairness of the latter.
  \<^item> \<open>C_Double\<close>, \<open>Lrs_Repartition\<close> (\<open>lrs/io_sched.c\<close>, \<open>lrs/io_schedulers/device_dispatch_algorithms.c\<close>): the weights
    of the I/O schedulers and the number of devices of each one. A \<^verbatim>\<open>double\<close> is a rational number rounded to 53 bits
    after each operation. Both loops are partial functions, and they are proved to return.
  \<^item> \<open>Lrs_Select\<close> (\<open>lrs/lrs_sched.c\<close>): locks and permissions of the media, the policies that choose a device and the
    selection of a medium for a write, with the optimality of both choices and the error of every other outcome. The database, the media cache and the
    clock are the record \<open>lrs_env\<close>.

  \<^bold>\<open>Bounds and fuel.\<close> No definition uses fuel. A loop that may not end is a partial function, and a theorem that it
  returns is stated as such.

  \<^bold>\<open>What is not modelled.\<close> The database access of \<open>src/core/dss\<close> is SQL sent to a server, and the protobuf messages are
  generated code. The command line and the Python bindings, the SCSI and TLC drivers, LTFS and RADOS are calls of the
  system and of libraries. Of the LRS, the queues of the I/O schedulers, the moves of devices between them, the grouped
  reads, the handlers of the requests and the threads of the devices are not modelled. Nor are the administration
  commands, the import of media, the listing of objects and the HSM tools, which sequence queries of the database.
\<close>

end
